(* ===== verification/Prelude.thy ===== *)
theory Prelude
  imports
    Complex_Main
    "HOL-Library.List_Lexorder"
    "HOL-Library.Char_ord"
    "HOL-Library.Product_Lexorder"
begin

text \<open>
  What the components share: the collections of rewrite rules, the result types of the
  route handlers, the row operations of the SQL statements the program issues (a table is
  the list of its rows in insertion order), and a stable sort by an arbitrary relation for
  \<open>ORDER BY ... DESC\<close>.

  Text is \<^typ>\<open>string\<close>, a list of bytes. All texts are read as ASCII, where bytes,
  code points and Python characters coincide. The order on texts is the lexicographic order
  of the byte values, which is both Python's order and SQLite's \<open>BINARY\<close> collation.
  A REAL column or a Python float is a \<^typ>\<open>rat\<close>: rounding is not modelled.
\<close>

named_theorems row_simps \<open>row operations: SELECT, UPDATE and DELETE on lists of rows\<close>
named_theorems py_simps \<open>Python truthiness and dictionary access\<close>
named_theorems route_defs \<open>definitions of the route handlers\<close>

section \<open>Results of handlers\<close>

text \<open>\<open>raise HTTPException(status, detail)\<close>\<close>

datatype http_exc = HTTPException nat string

type_synonym 'a http = "http_exc + 'a"

fun status_of :: "'a http \<Rightarrow> nat option" where
  "status_of (Inl (HTTPException n _)) = Some n"
| "status_of (Inr _) = None"

definition is_ok :: "'e + 'a \<Rightarrow> bool" where
  "is_ok r = (case r of Inl _ \<Rightarrow> False | Inr _ \<Rightarrow> True)"

lemma is_ok_simps [simp]: "is_ok (Inr x)" "\<not> is_ok (Inl e)"
  by (simp_all add: is_ok_def)

lemma is_okE [elim]: "is_ok r \<Longrightarrow> (\<And>x. r = Inr x \<Longrightarrow> P) \<Longrightarrow> P"
  by (cases r) (auto simp: is_ok_def)

section \<open>Python truthiness\<close>

text \<open>\<open>bool(s)\<close> for a string that may be missing: \<open>None\<close> and \<open>''\<close> are false.\<close>

definition truthy :: "string option \<Rightarrow> bool" where
  "truthy s = (case s of None \<Rightarrow> False | Some x \<Rightarrow> x \<noteq> [])"

text \<open>\<open>s or default\<close> and \<open>d.get(key, default)\<close>\<close>

definition or_else :: "string option \<Rightarrow> string \<Rightarrow> string" where
  "or_else s d = (case s of None \<Rightarrow> d | Some x \<Rightarrow> if x = [] then d else x)"

definition get_or :: "'a option \<Rightarrow> 'a \<Rightarrow> 'a" where
  "get_or s d = (case s of None \<Rightarrow> d | Some x \<Rightarrow> x)"

lemma truthy_simps [simp, py_simps]:
  "\<not> truthy None" "\<not> truthy (Some [])" "truthy (Some (c # cs))"
  by (simp_all add: truthy_def)

lemma truthy_Some [py_simps]: "truthy (Some s) \<longleftrightarrow> s \<noteq> []"
  by (simp add: truthy_def)

lemma truthyE: "truthy s \<Longrightarrow> (\<And>x. s = Some x \<Longrightarrow> x \<noteq> [] \<Longrightarrow> P) \<Longrightarrow> P"
  by (cases s) (auto simp: truthy_def)

lemma or_else_simps [simp, py_simps]:
  "or_else None d = d" "or_else (Some []) d = d" "or_else (Some (c # cs)) d = c # cs"
  by (simp_all add: or_else_def)

lemma get_or_simps [simp, py_simps]: "get_or None d = d" "get_or (Some x) d = x"
  by (simp_all add: get_or_def)

section \<open>Rows\<close>

text \<open>
  \<open>UPDATE t SET ... WHERE P\<close>, \<open>DELETE FROM t WHERE P\<close>, \<open>cursor.rowcount\<close> of either, and
  \<open>SELECT ... WHERE P\<close> followed by \<open>fetchone()\<close>.
\<close>

definition update_where :: "('r \<Rightarrow> bool) \<Rightarrow> ('r \<Rightarrow> 'r) \<Rightarrow> 'r list \<Rightarrow> 'r list" where
  "update_where P f rs = map (\<lambda>r. if P r then f r else r) rs"

definition delete_where :: "('r \<Rightarrow> bool) \<Rightarrow> 'r list \<Rightarrow> 'r list" where
  "delete_where P rs = filter (\<lambda>r. \<not> P r) rs"

definition count_where :: "('r \<Rightarrow> bool) \<Rightarrow> 'r list \<Rightarrow> nat" where
  "count_where P rs = length (filter P rs)"

text \<open>\<open>LIMIT n\<close> and \<open>LIMIT n OFFSET k\<close>: SQLite reads a negative limit as no limit and a
  negative offset as 0.\<close>

definition sql_limit :: "int \<Rightarrow> 'r list \<Rightarrow> 'r list" where
  "sql_limit n rs = (if n < 0 then rs else take (nat n) rs)"

definition sql_limit_offset :: "int \<Rightarrow> int \<Rightarrow> 'r list \<Rightarrow> 'r list" where
  "sql_limit_offset n k rs = sql_limit n (drop (nat k) rs)"

lemma update_where_simps [simp, row_simps]:
  "update_where P f [] = []"
  "update_where P f (r # rs) = (if P r then f r else r) # update_where P f rs"
  by (simp_all add: update_where_def)

lemma delete_where_simps [simp, row_simps]:
  "delete_where P [] = []"
  "delete_where P (r # rs) = (if P r then delete_where P rs else r # delete_where P rs)"
  by (simp_all add: delete_where_def)

lemma length_update_where [simp]: "length (update_where P f rs) = length rs"
  by (simp add: update_where_def)

lemma set_update_where:
  "set (update_where P f rs) = (\<lambda>r. if P r then f r else r) ` set rs"
  by (simp add: update_where_def)

lemma set_delete_where [simp]: "set (delete_where P rs) = {r \<in> set rs. \<not> P r}"
  by (simp add: delete_where_def)

lemma map_update_where:
  "(\<And>r. r \<in> set rs \<Longrightarrow> P r \<Longrightarrow> g (f r) = g r) \<Longrightarrow> map g (update_where P f rs) = map g rs"
  by (auto simp: update_where_def)

lemma update_where_id: "(\<And>r. r \<in> set rs \<Longrightarrow> \<not> P r) \<Longrightarrow> update_where P f rs = rs"
  by (induction rs) auto

lemma count_where_0: "count_where P rs = 0 \<longleftrightarrow> (\<forall>r \<in> set rs. \<not> P r)"
  by (simp add: count_where_def filter_empty_conv)

lemma count_where_append: "count_where P (rs @ ss) = count_where P rs + count_where P ss"
  by (simp add: count_where_def)

lemma count_where_Cons:
  "count_where P (r # rs) = (if P r then 1 else 0) + count_where P rs"
  by (simp add: count_where_def)

lemma count_where_Nil [simp]: "count_where P [] = 0"
  by (simp add: count_where_def)

lemma find_update_where:
  assumes "\<And>r. r \<in> set rs \<Longrightarrow> P r \<Longrightarrow> Q (f r) = Q r"
  shows "find Q (update_where P f rs) =
    (case find Q rs of None \<Rightarrow> None | Some r \<Rightarrow> Some (if P r then f r else r))"
  using assms by (induction rs) auto

lemma find_delete_where:
  assumes "\<And>r. r \<in> set rs \<Longrightarrow> P r \<Longrightarrow> \<not> Q r"
  shows "find Q (delete_where P rs) = find Q rs"
  using assms by (induction rs) auto

lemma find_delete_where_None:
  assumes "\<And>r. r \<in> set rs \<Longrightarrow> Q r \<Longrightarrow> P r"
  shows "find Q (delete_where P rs) = None"
  using assms by (induction rs) auto

lemma find_append:
  "find Q (xs @ ys) = (case find Q xs of None \<Rightarrow> find Q ys | Some r \<Rightarrow> Some r)"
  by (induction xs) auto

lemma find_SomeD: "find Q rs = Some r \<Longrightarrow> r \<in> set rs \<and> Q r"
  by (induction rs) (auto split: if_splits)

lemma find_None_iff_ball: "find Q rs = None \<longleftrightarrow> (\<forall>r \<in> set rs. \<not> Q r)"
  by (induction rs) auto

lemma find_fresh_key: "k \<notin> key ` set rs \<Longrightarrow> find (\<lambda>r. key r = k) rs = None"
  by (auto simp: find_None_iff_ball)

lemma image_keyD: "k \<in> key ` set rs \<Longrightarrow> \<exists>r \<in> set rs. key r = k"
  by auto

lemma find_unique_key:
  assumes "distinct (map key rs)" and "r \<in> set rs"
  shows "find (\<lambda>x. key x = key r) rs = Some r"
  using assms by (induction rs) auto

lemma distinct_keyD:
  "distinct (map key rs) \<Longrightarrow> r \<in> set rs \<Longrightarrow> r' \<in> set rs \<Longrightarrow> key r = key r' \<Longrightarrow> r = r'"
  by (induction rs) (auto simp: rev_image_eqI)

text \<open>\<open>INSERT ... ON CONFLICT DO UPDATE\<close>, and the assignment \<open>d[key] = r\<close> of an ordered
  dictionary: the row is replaced in its place, or appended.\<close>

definition upsert_by :: "('r \<Rightarrow> 'k) \<Rightarrow> 'r \<Rightarrow> 'r list \<Rightarrow> 'r list" where
  "upsert_by key r rs =
     (if key r \<in> key ` set rs then update_where (\<lambda>x. key x = key r) (\<lambda>_. r) rs else rs @ [r])"

lemma find_upsert_by:
  "find (\<lambda>x. key x = k) (upsert_by key r rs) =
    (if k = key r then Some r else find (\<lambda>x. key x = k) rs)"
proof (cases "key r \<in> key ` set rs")
  case True
  have "find (\<lambda>x. key x = k) (update_where (\<lambda>x. key x = key r) (\<lambda>_. r) rs) =
      (case find (\<lambda>x. key x = k) rs of None \<Rightarrow> None
       | Some x \<Rightarrow> Some (if key x = key r then r else x))"
    by (rule find_update_where) simp
  moreover have "find (\<lambda>x. key x = key r) rs \<noteq> None"
    using True unfolding find_None_iff_ball by (metis imageE)
  moreover have "upsert_by key r rs = update_where (\<lambda>x. key x = key r) (\<lambda>_. r) rs"
    using True by (simp add: upsert_by_def)
  moreover have "key x = k" if "find (\<lambda>x. key x = k) rs = Some x" for x
    using find_SomeD [OF that] by blast
  ultimately show ?thesis
  proof (cases "find (\<lambda>x. key x = k) rs")
    case None
    then have "k \<noteq> key r" using \<open>find (\<lambda>x. key x = key r) rs \<noteq> None\<close> by blast
    then show ?thesis
      unfolding \<open>upsert_by key r rs = _\<close> \<open>find _ (update_where _ _ rs) = _\<close> None by simp
  next
    case (Some x)
    have "key x = k" using Some by (rule \<open>\<And>x. find _ rs = Some x \<Longrightarrow> key x = k\<close>)
    then show ?thesis
      unfolding \<open>upsert_by key r rs = _\<close> \<open>find _ (update_where _ _ rs) = _\<close> Some by simp
  qed
next
  case False
  then have "find (\<lambda>x. key x = key r) rs = None"
    unfolding find_None_iff_ball by (metis image_eqI)
  then show ?thesis using False by (simp add: upsert_by_def find_append split: option.splits)
qed

lemma find_delete_key:
  "find (\<lambda>x. key x = k) (delete_where (\<lambda>x. key x = j) rs) =
    (if k = j then None else find (\<lambda>x. key x = k) rs)"
proof (cases "k = j")
  case True
  then show ?thesis by (simp add: find_delete_where_None)
next
  case False
  then have "find (\<lambda>x. key x = k) (delete_where (\<lambda>x. key x = j) rs) = find (\<lambda>x. key x = k) rs"
    by (intro find_delete_where) auto
  then show ?thesis using False by simp
qed

lemma distinct_upsert_by: "distinct (map key rs) \<Longrightarrow> distinct (map key (upsert_by key r rs))"
proof -
  have "map key (update_where (\<lambda>x. key x = key r) (\<lambda>_. r) rs) = map key rs"
    by (rule map_update_where) simp
  then show "distinct (map key rs) \<Longrightarrow> distinct (map key (upsert_by key r rs))"
    by (auto simp: upsert_by_def)
qed

lemma set_upsert_by: "x \<in> set (upsert_by key r rs) \<Longrightarrow> x = r \<or> (x \<in> set rs \<and> key x \<noteq> key r)"
  by (cases "key r \<in> key ` set rs")
    (auto simp: upsert_by_def set_update_where image_iff split: if_splits)

lemma distinct_map_filter_key: "distinct (map key rs) \<Longrightarrow> distinct (map key (filter P rs))"
  by (induction rs) auto

lemma sql_limit_length: "0 \<le> n \<Longrightarrow> length (sql_limit n rs) \<le> nat n"
  by (simp add: sql_limit_def)

lemma set_sql_limit: "set (sql_limit n rs) \<subseteq> set rs"
  by (auto simp: sql_limit_def dest: in_set_takeD)

lemma set_sql_limit_offset: "set (sql_limit_offset n k rs) \<subseteq> set rs"
  using set_sql_limit [of n "drop (nat k) rs"]
  by (auto simp: sql_limit_offset_def dest: in_set_dropD)

section \<open>A stable sort by a relation\<close>

text \<open>
  \<open>ORDER BY\<close> with descending columns. Rows that tie keep their table order here; SQLite
  leaves their order open.
\<close>

fun insert_by :: "('a \<Rightarrow> 'a \<Rightarrow> bool) \<Rightarrow> 'a \<Rightarrow> 'a list \<Rightarrow> 'a list" where
  "insert_by le x [] = [x]"
| "insert_by le x (y # ys) = (if le x y then x # y # ys else y # insert_by le x ys)"

fun sort_by :: "('a \<Rightarrow> 'a \<Rightarrow> bool) \<Rightarrow> 'a list \<Rightarrow> 'a list" where
  "sort_by le [] = []"
| "sort_by le (x # xs) = insert_by le x (sort_by le xs)"

lemma set_insert_by [simp]: "set (insert_by le x xs) = insert x (set xs)"
  by (induction xs) auto

lemma set_sort_by [simp]: "set (sort_by le xs) = set xs"
  by (induction xs) auto

lemma length_insert_by [simp]: "length (insert_by le x xs) = Suc (length xs)"
  by (induction xs) auto

lemma length_sort_by [simp]: "length (sort_by le xs) = length xs"
  by (induction xs) auto

lemma sorted_insert_by:
  assumes "\<And>a b. le a b \<or> le b a" and "\<And>a b c. le a b \<Longrightarrow> le b c \<Longrightarrow> le a c"
    and "sorted_wrt le xs"
  shows "sorted_wrt le (insert_by le x xs)"
  using assms(3)
proof (induction xs)
  case (Cons y ys)
  then show ?case using assms(1) by (auto dest: assms(2))
qed simp

lemma sorted_sort_by:
  assumes "\<And>a b. le a b \<or> le b a" and "\<And>a b c. le a b \<Longrightarrow> le b c \<Longrightarrow> le a c"
  shows "sorted_wrt le (sort_by le xs)"
proof (induction xs)
  case (Cons x xs)
  then show ?case using sorted_insert_by [of le, OF assms(1) assms(2)] by simp
qed simp

lemma distinct_map_insert_by:
  "distinct (map key (insert_by le x xs)) \<longleftrightarrow> distinct (map key (x # xs))"
  by (induction xs) auto

lemma distinct_map_sort_by: "distinct (map key (sort_by le xs)) \<longleftrightarrow> distinct (map key xs)"
  by (induction xs) (auto simp: distinct_map_insert_by)

lemma distinct_map_take: "distinct (map key xs) \<Longrightarrow> distinct (map key (take n xs))"
  by (simp add: take_map [symmetric])

end
