(* ===== verification/PyText.thy ===== *)
theory PyText
  imports Prelude
begin

text \<open>
  The parts of Python's \<open>str\<close> and \<open>re\<close> the program uses, on ASCII text, and SQLite's \<open>LIKE\<close>.
  A pattern is the list of its atoms; matching is the backtracking search of \<open>re\<close>, which
  for a yes/no answer is the existence of a way to consume the text.
\<close>

section \<open>Characters\<close>

text \<open>\<open>str.isspace\<close> and \<open>\s\<close> on ASCII: TAB to CR, FS to US, and the blank.\<close>

definition is_space :: "char \<Rightarrow> bool" where
  "is_space c = (let n = of_char c :: nat in (9 \<le> n \<and> n \<le> 13) \<or> (28 \<le> n \<and> n \<le> 32))"

definition is_upper_az :: "char \<Rightarrow> bool" where
  "is_upper_az c = (let n = of_char c :: nat in 65 \<le> n \<and> n \<le> 90)"

definition is_lower_az :: "char \<Rightarrow> bool" where
  "is_lower_az c = (let n = of_char c :: nat in 97 \<le> n \<and> n \<le> 122)"

definition is_digit_c :: "char \<Rightarrow> bool" where
  "is_digit_c c = (let n = of_char c :: nat in 48 \<le> n \<and> n \<le> 57)"

text \<open>\<open>\w\<close>\<close>

definition is_word :: "char \<Rightarrow> bool" where
  "is_word c = (is_upper_az c \<or> is_lower_az c \<or> is_digit_c c \<or> c = CHR ''_'')"

definition lower_c :: "char \<Rightarrow> char" where
  "lower_c c = (if is_upper_az c then char_of (of_char c + 32 :: nat) else c)"

section \<open>\<open>str\<close> methods\<close>

definition lower :: "string \<Rightarrow> string" where
  "lower s = map lower_c s"

lemma lower_lower [simp]: "lower (lower s) = lower s"
proof -
  have "lower_c (lower_c c) = lower_c c" for c
    by (auto simp: lower_c_def is_upper_az_def Let_def)
  then show ?thesis by (simp add: lower_def)
qed

definition strip_with :: "(char \<Rightarrow> bool) \<Rightarrow> string \<Rightarrow> string" where
  "strip_with p s = rev (dropWhile p (rev (dropWhile p s)))"

definition strip :: "string \<Rightarrow> string" where
  "strip s = strip_with is_space s"

text \<open>\<open>not sql or not sql.strip()\<close>\<close>

definition blank :: "string \<Rightarrow> bool" where
  "blank s = (s = [] \<or> strip s = [])"

fun starts_with :: "string \<Rightarrow> string \<Rightarrow> bool" where
  "starts_with s [] = True"
| "starts_with [] (p # ps) = False"
| "starts_with (c # s) (p # ps) = (c = p \<and> starts_with s ps)"

text \<open>\<open>s.split(c)\<close> for a one-character separator: never empty.\<close>

fun split_on :: "char \<Rightarrow> string \<Rightarrow> string list" where
  "split_on c [] = [[]]"
| "split_on c (x # xs) =
     (if x = c then [] # split_on c xs
      else (case split_on c xs of [] \<Rightarrow> [[x]] | y # ys \<Rightarrow> (x # y) # ys))"

lemma split_on_none: "c \<notin> set s \<Longrightarrow> split_on c s = [s]"
  by (induction s) auto

lemma split_on_append: "c \<notin> set s \<Longrightarrow> split_on c (s @ c # t) = s # split_on c t"
  by (induction s) auto

text \<open>\<open>sub in s\<close>\<close>

fun contains_sub :: "string \<Rightarrow> string \<Rightarrow> bool" where
  "contains_sub sub [] = (sub = [])"
| "contains_sub sub (c # s) = (starts_with (c # s) sub \<or> contains_sub sub s)"

text \<open>\<open>s.replace(c, t)\<close> for a single character \<open>c\<close>\<close>

definition replace_char :: "char \<Rightarrow> string \<Rightarrow> string \<Rightarrow> string" where
  "replace_char c t s = concat (map (\<lambda>x. if x = c then t else [x]) s)"

text \<open>The first entry of \<open>X-Forwarded-For\<close>: \<open>h.split(',')[0].strip()\<close>\<close>

definition first_forwarded :: "string \<Rightarrow> string" where
  "first_forwarded h = strip (case split_on CHR '','' h of [] \<Rightarrow> [] | x # _ \<Rightarrow> x)"

text \<open>\<open>str(n)\<close> for a Python integer.\<close>

fun nat_str :: "nat \<Rightarrow> string" where
  "nat_str n = (if n < 10 then [char_of (48 + n)]
                else nat_str (n div 10) @ [char_of (48 + n mod 10)])"

declare nat_str.simps [simp del]

definition int_str :: "int \<Rightarrow> string" where
  "int_str i = (if i < 0 then CHR ''-'' # nat_str (nat (- i)) else nat_str (nat i))"

section \<open>Regular expressions\<close>

datatype atom =
    One "char \<Rightarrow> bool"      \<comment> \<open>one character of a class\<close>
  | Many "char \<Rightarrow> bool"     \<comment> \<open>any number of characters of a class\<close>
  | Boundary                \<comment> \<open>\<open>\b\<close>\<close>
  | Bol                     \<comment> \<open>\<open>^\<close>\<close>
  | Eol                     \<comment> \<open>\<open>$\<close>\<close>

type_synonym pattern = "atom list"

definition newline :: char where
  "newline = CHR 0x0A"

definition word_at :: "char option \<Rightarrow> bool" where
  "word_at c = (case c of None \<Rightarrow> False | Some x \<Rightarrow> is_word x)"

definition head_opt :: "'a list \<Rightarrow> 'a option" where
  "head_opt s = (case s of [] \<Rightarrow> None | x # _ \<Rightarrow> Some x)"

text \<open>
  Does the pattern match a prefix of the text, when \<open>p\<close> is the character before it
  (\<open>None\<close> at the start of the subject)?
\<close>

fun rx_match :: "pattern \<Rightarrow> char option \<Rightarrow> string \<Rightarrow> bool" where
  "rx_match [] p s = True"
| "rx_match (One f # r) p [] = False"
| "rx_match (One f # r) p (c # s) = (f c \<and> rx_match r (Some c) s)"
| "rx_match (Many f # r) p [] = rx_match r p []"
| "rx_match (Many f # r) p (c # s) =
     (rx_match r p (c # s) \<or> (f c \<and> rx_match (Many f # r) (Some c) s))"
| "rx_match (Boundary # r) p s =
     (word_at p \<noteq> word_at (head_opt s) \<and> rx_match r p s)"
| "rx_match (Bol # r) p s = (p = None \<and> rx_match r p s)"
| "rx_match (Eol # r) p s = ((s = [] \<or> s = [newline]) \<and> rx_match r p s)"

text \<open>\<open>re.search\<close>: at some position of the text. \<open>re.match\<close> is at the start only.\<close>

fun rx_search_from :: "pattern \<Rightarrow> char option \<Rightarrow> string \<Rightarrow> bool" where
  "rx_search_from r p [] = rx_match r p []"
| "rx_search_from r p (c # s) = (rx_match r p (c # s) \<or> rx_search_from r (Some c) s)"

definition rx_search :: "pattern \<Rightarrow> string \<Rightarrow> bool" where
  "rx_search r s = rx_search_from r None s"

definition rx_match_start :: "pattern \<Rightarrow> string \<Rightarrow> bool" where
  "rx_match_start r s = rx_match r None s"

text \<open>A literal under \<open>re.IGNORECASE\<close>, \<open>\s*\<close> and \<open>\s+\<close>\<close>

definition lit_ic :: "string \<Rightarrow> pattern" where
  "lit_ic w = map (\<lambda>c. One (\<lambda>x. lower_c x = c)) w"

definition spaces0 :: pattern where
  "spaces0 = [Many is_space]"

definition spaces1 :: pattern where
  "spaces1 = [One is_space, Many is_space]"

section \<open>\<open>LIKE\<close>\<close>

text \<open>
  SQLite's \<open>text LIKE pattern\<close>: \<open>%\<close> stands for any text, \<open>_\<close> for one character, and ASCII
  letters are compared without case.
\<close>

fun sql_like :: "string \<Rightarrow> string \<Rightarrow> bool" where
  "sql_like [] t = (t = [])"
| "sql_like (p # ps) [] = (p = CHR ''%'' \<and> sql_like ps [])"
| "sql_like (p # ps) (c # t) =
     (if p = CHR ''%'' then sql_like ps (c # t) \<or> sql_like (p # ps) t
      else (p = CHR ''_'' \<or> lower_c p = lower_c c) \<and> sql_like ps t)"

section \<open>\<open>json.dumps\<close> of a list of strings\<close>

definition hex_digit :: "nat \<Rightarrow> char" where
  "hex_digit n = char_of (if n < 10 then 48 + n else 87 + n)"

definition json_char :: "char \<Rightarrow> string" where
  "json_char c =
     (let n = of_char c :: nat in
      if c = CHR 0x22 then [CHR 0x5C, CHR 0x22]
      else if c = CHR 0x5C then [CHR 0x5C, CHR 0x5C]
      else if n = 10 then [CHR 0x5C, CHR ''n'']
      else if n = 13 then [CHR 0x5C, CHR ''r'']
      else if n = 9 then [CHR 0x5C, CHR ''t'']
      else if n = 12 then [CHR 0x5C, CHR ''f'']
      else if n = 8 then [CHR 0x5C, CHR ''b'']
      else if n < 32 then [CHR 0x5C, CHR ''u'', CHR ''0'', CHR ''0'',
                           hex_digit (n div 16), hex_digit (n mod 16)]
      else [c])"

definition json_str :: "string \<Rightarrow> string" where
  "json_str s = [CHR 0x22] @ concat (map json_char s) @ [CHR 0x22]"

fun json_items :: "string list \<Rightarrow> string" where
  "json_items [] = []"
| "json_items [s] = json_str s"
| "json_items (s # t # ss) = json_str s @ '', '' @ json_items (t # ss)"

definition json_str_list :: "string list \<Rightarrow> string" where
  "json_str_list ss = ''['' @ json_items ss @ '']''"

section \<open>What stripping leaves\<close>

lemma set_strip_with: "set (strip_with p s) \<subseteq> set s"
  unfolding strip_with_def set_rev by (metis set_dropWhileD set_rev subsetI)

text \<open>No two adjacent \<open>x\<close>\<close>

fun no_double :: "char \<Rightarrow> string \<Rightarrow> bool" where
  "no_double x (a # b # s) = (\<not> (a = x \<and> b = x) \<and> no_double x (b # s))"
| "no_double x _ = True"

lemma no_double_drop: "no_double x s \<Longrightarrow> no_double x (drop n s)"
proof (induction n arbitrary: s)
  case (Suc n)
  then show ?case by (cases "(x, s)" rule: no_double.cases) auto
qed simp

lemma no_double_take: "no_double x s \<Longrightarrow> no_double x (take n s)"
proof (induction x s arbitrary: n rule: no_double.induct)
  case (1 x a b s)
  show ?case
  proof (cases n)
    case (Suc m)
    then show ?thesis using 1 by (cases m) (auto dest: "1.IH" [of m])
  qed simp
qed (auto simp: take_Cons split: nat.splits)

lemma strip_with_take_drop: "\<exists>n k. strip_with p s = take n (drop k s)"
proof -
  have "rev (dropWhile p (rev t)) = take (length t - length (takeWhile p (rev t))) t" for t
    by (simp add: dropWhile_eq_drop rev_drop)
  then show ?thesis unfolding strip_with_def by (metis dropWhile_eq_drop)
qed

lemma strip_with_ends:
  assumes "strip_with p s \<noteq> []"
  shows "\<not> p (hd (strip_with p s))" "\<not> p (last (strip_with p s))"
proof -
  let ?t = "dropWhile p s"
  have ne: "dropWhile p (rev ?t) \<noteq> []" using assms by (simp add: strip_with_def)
  then show "\<not> p (last (strip_with p s))"
    by (simp add: strip_with_def last_rev hd_dropWhile)
  have t: "?t \<noteq> []"
  proof
    assume "?t = []"
    with ne show False by (simp only: rev.simps dropWhile.simps)
  qed
  then have hd: "\<not> p (hd ?t)" by (rule hd_dropWhile)
  have "hd (rev (dropWhile p (rev ?t))) = hd ?t"
  proof -
    have "last (dropWhile p (rev ?t)) = last (rev ?t)"
      using ne by (metis dropWhile_eq_drop last_drop length_drop length_greater_0_conv zero_less_diff)
    then show ?thesis using ne t by (simp add: hd_rev last_rev)
  qed
  then show "\<not> p (hd (strip_with p s))" using hd by (simp add: strip_with_def)
qed

lemma no_double_strip: "no_double x s \<Longrightarrow> no_double x (strip_with p s)"
  using strip_with_take_drop [of p s] no_double_take no_double_drop by metis

section \<open>\<open>repr\<close> of a string\<close>

definition repr_char :: "char \<Rightarrow> char \<Rightarrow> string" where
  "repr_char quote c =
     (let n = of_char c :: nat in
      if c = quote \<or> c = CHR 0x5C then [CHR 0x5C, c]
      else if n = 9 then [CHR 0x5C, CHR ''t'']
      else if n = 10 then [CHR 0x5C, CHR ''n'']
      else if n = 13 then [CHR 0x5C, CHR ''r'']
      else if n < 32 \<or> 127 \<le> n
      then [CHR 0x5C, CHR ''x'', hex_digit (n div 16), hex_digit (n mod 16)]
      else [c])"

text \<open>Double quotes are used only for a text with single and without double quotes.\<close>

definition py_repr :: "string \<Rightarrow> string" where
  "py_repr s =
     (let quote = (if CHR 0x27 \<in> set s \<and> CHR 0x22 \<notin> set s then CHR 0x22 else CHR 0x27)
      in [quote] @ concat (map (repr_char quote) s) @ [quote])"

end
