(* ===== verification/Clock.thy ===== *)
theory Clock
  imports PyText
begin

text \<open>
  Wall-clock time and its textual form. An instant is a number of microseconds since
  0001-01-01T00:00:00 UTC, the range of Python's \<open>datetime\<close>. \<^term>\<open>ord2ymd\<close> is the standard
  library's conversion of a day number to a date, and \<open>isoformat\<close> its rendering, which
  leaves the fraction out when it is zero. The program stores these texts in SQLite and
  compares them there as text; the main result of the theory is that this comparison is
  the comparison of the instants.
\<close>

type_synonym instant = int

section \<open>Fixed-width decimal numbers\<close>

fun pad :: "nat \<Rightarrow> int \<Rightarrow> string" where
  "pad 0 n = []"
| "pad (Suc k) n = char_of (nat (48 + n div 10 ^ k)) # pad k (n mod 10 ^ k)"

section \<open>The calendar\<close>

definition is_leap :: "int \<Rightarrow> bool" where
  "is_leap y = (y mod 4 = 0 \<and> (y mod 100 \<noteq> 0 \<or> y mod 400 = 0))"

definition days_before_year :: "int \<Rightarrow> int" where
  "days_before_year y = (let z = y - 1 in z * 365 + z div 4 - z div 100 + z div 400)"

definition month_offsets :: "int list" where
  "month_offsets = [0, 0, 31, 59, 90, 120, 151, 181, 212, 243, 273, 304, 334]"

definition month_lengths :: "int list" where
  "month_lengths = [0, 31, 28, 31, 30, 31, 30, 31, 31, 30, 31, 30, 31]"

definition days_before_month :: "bool \<Rightarrow> int \<Rightarrow> int" where
  "days_before_month leap m = month_offsets ! nat m + (if 2 < m \<and> leap then 1 else 0)"

definition days_in_month :: "bool \<Rightarrow> int \<Rightarrow> int" where
  "days_in_month leap m = (if m = 2 \<and> leap then 29 else month_lengths ! nat m)"

text \<open>The month and the day of a 0-based day of the year: estimate, then correct.\<close>

definition month_day :: "bool \<Rightarrow> int \<Rightarrow> int \<times> int" where
  "month_day leap n =
     (let m = (n + 50) div 32; p = days_before_month leap m
      in if n < p then (let m' = m - 1 in (m', n - (p - days_in_month leap m') + 1))
         else (m, n - p + 1))"

definition ord2ymd :: "int \<Rightarrow> int \<times> int \<times> int" where
  "ord2ymd ord =
     (let n = ord - 1;
          n400 = n div 146097; r400 = n mod 146097;
          n100 = r400 div 36524; r100 = r400 mod 36524;
          n4 = r100 div 1461; r4 = r100 mod 1461;
          n1 = r4 div 365; r1 = r4 mod 365;
          year = n400 * 400 + 1 + n100 * 100 + n4 * 4 + n1
      in if n1 = 4 \<or> n100 = 4 then (year - 1, 12, 31)
         else (let leap = (n1 = 3 \<and> (n4 \<noteq> 24 \<or> n100 = 3)); md = month_day leap r1
               in (year, fst md, snd md)))"

definition ymd2ord :: "int \<Rightarrow> int \<Rightarrow> int \<Rightarrow> int" where
  "ymd2ord y m d = days_before_year y + days_before_month (is_leap y) m + d"

section \<open>\<open>datetime.isoformat()\<close> of a UTC time\<close>

definition us_per_day :: int where
  "us_per_day = 86400000000"

definition max_instant :: int where
  "max_instant = 3652059 * us_per_day"

definition date_str :: "int \<Rightarrow> string" where
  "date_str day =
     (case ord2ymd (day + 1) of (y, m, d) \<Rightarrow> pad 4 y @ ''-'' @ pad 2 m @ ''-'' @ pad 2 d)"

definition time_str :: "int \<Rightarrow> string" where
  "time_str us =
     (let s = us div 1000000; f = us mod 1000000
      in pad 2 (s div 3600) @ '':'' @ pad 2 (s mod 3600 div 60) @ '':'' @ pad 2 (s mod 60)
         @ (if f = 0 then [] else ''.'' @ pad 6 f))"

definition isoformat :: "instant \<Rightarrow> string" where
  "isoformat t =
     date_str (t div us_per_day) @ ''T'' @ time_str (t mod us_per_day) @ ''+00:00''"

text \<open>\<open>t - timedelta(seconds=s)\<close>\<close>

definition minus_seconds :: "instant \<Rightarrow> int \<Rightarrow> instant" where
  "minus_seconds t s = t - s * 1000000"

section \<open>Fixed-width numbers compare as numbers\<close>

lemma less_append_same_length:
  fixes a b x y :: "'a::order list"
  assumes "length a = length b"
  shows "a @ x < b @ y \<longleftrightarrow> a < b \<or> (a = b \<and> x < y)"
  using assms by (induction a b rule: list_induct2) auto

lemma less_char_of_digit:
  assumes "0 \<le> a" "a \<le> 9" "0 \<le> b" "b \<le> 9"
  shows "(char_of (nat (48 + a)) :: char) < char_of (nat (48 + b)) \<longleftrightarrow> a < b"
  using assms by (simp add: less_char_def of_char_of)

lemma eq_char_of_digit:
  assumes "0 \<le> a" "a \<le> 9" "0 \<le> b" "b \<le> 9"
  shows "(char_of (nat (48 + a)) :: char) = char_of (nat (48 + b)) \<longleftrightarrow> a = b"
  using less_char_of_digit [OF assms] less_char_of_digit [of b a] assms
  by (metis less_irrefl linorder_neqE_linordered_idom)

lemma length_pad [simp]: "length (pad k n) = k"
  by (induction k arbitrary: n) auto

lemma div_pos_geq_digit: "(10 * 10 ^ k - 1) div 10 ^ k = (9::int)"
  by (rule int_div_pos_eq [where r = "10 ^ k - 1"]) auto

lemma digit_range:
  assumes "0 \<le> n" "n < 10 ^ Suc k"
  shows "0 \<le> n div 10 ^ k" "n div 10 ^ k \<le> (9::int)"
proof -
  show "0 \<le> n div 10 ^ k" using assms(1) by (simp add: pos_imp_zdiv_nonneg_iff)
  have "n div 10 ^ k \<le> (10 * 10 ^ k - 1) div 10 ^ k"
    using assms(2) by (intro zdiv_mono1) auto
  also have "\<dots> = 9"
    by (rule div_pos_geq_digit)
  finally show "n div 10 ^ k \<le> 9" .
qed

lemma pad_less:
  assumes "0 \<le> m" "m < 10 ^ k" "0 \<le> n" "n < 10 ^ k"
  shows "pad k m < pad k n \<longleftrightarrow> m < n"
  using assms
proof (induction k arbitrary: m n)
  case (Suc k)
  let ?p = "10 ^ k :: int"
  have IH: "pad k (m mod ?p) < pad k (n mod ?p) \<longleftrightarrow> m mod ?p < n mod ?p"
    by (rule Suc.IH) auto
  note dm = digit_range [OF Suc.prems(1,2)] and dn = digit_range [OF Suc.prems(3,4)]
  have ms: "m div ?p * ?p + m mod ?p = m" and ns: "n div ?p * ?p + n mod ?p = n"
    by (rule div_mult_mod_eq)+
  have lt: "m < n" if "m div ?p < n div ?p"
  proof -
    have "m div ?p * ?p + ?p \<le> n div ?p * ?p"
      using that mult_right_mono [of "m div ?p + 1" "n div ?p" ?p] by (simp add: algebra_simps)
    moreover have "m mod ?p < ?p" "0 \<le> n mod ?p" by auto
    ultimately show ?thesis using ms ns by linarith
  qed
  have eq: "m < n \<longleftrightarrow> m mod ?p < n mod ?p" if "m div ?p = n div ?p"
    using that ms ns by (metis add_less_cancel_left)
  have le: "m div ?p \<le> n div ?p" if "m < n"
    using that by (intro zdiv_mono1) auto
  have "m < n \<longleftrightarrow> m div ?p < n div ?p \<or> (m div ?p = n div ?p \<and> m mod ?p < n mod ?p)"
    using lt eq le by (metis order_le_less)
  then show ?case
    by (simp only: pad.simps Cons_less_Cons less_char_of_digit [OF dm dn]
        eq_char_of_digit [OF dm dn] IH)
qed simp

lemma pad_eq:
  assumes "0 \<le> m" "m < 10 ^ k" "0 \<le> n" "n < 10 ^ k"
  shows "pad k m = pad k n \<longleftrightarrow> m = n"
  using pad_less [OF assms] pad_less [OF assms(3,4,1,2)]
  by (metis less_irrefl linorder_neqE_linordered_idom)

section \<open>The calendar conversion is a strictly increasing bijection\<close>

lemma month_cases:
  assumes "1 \<le> m" "m \<le> 12"
  obtains "m = 1" | "m = 2" | "m = 3" | "m = 4" | "m = 5" | "m = 6" | "m = 7" | "m = 8"
    | "m = 9" | "m = 10" | "m = 11" | "m = (12::int)"
proof -
  have "m = 1 \<or> m = 2 \<or> m = 3 \<or> m = 4 \<or> m = 5 \<or> m = 6 \<or> m = 7 \<or> m = 8
      \<or> m = 9 \<or> m = 10 \<or> m = 11 \<or> m = 12"
    using assms by presburger
  then show ?thesis using that by blast
qed

lemmas month_tables = days_before_month_def days_in_month_def month_offsets_def month_lengths_def

lemma month_day_correct:
  assumes "0 \<le> n" "n < (if leap then 366 else 365)" "month_day leap n = (m, d)"
  shows "days_before_month leap m + d = n + 1 \<and> 1 \<le> m \<and> m \<le> 12
    \<and> 1 \<le> d \<and> d \<le> days_in_month leap m"
proof -
  define q where "q = (n + 50) div 32"
  have r: "1 \<le> q" "q \<le> 12" "32 * q \<le> n + 50" "n + 50 \<le> 32 * q + 31"
    using assms(1,2) by (auto simp: q_def split: if_splits)
  have md: "(m, d) = (if n < days_before_month leap q
      then (q - 1, n - (days_before_month leap q - days_in_month leap (q - 1)) + 1)
      else (q, n - days_before_month leap q + 1))"
    using assms(3) by (simp only: month_day_def Let_def q_def)
  show ?thesis
    using r(1,2)
    by (cases q rule: month_cases)
      (use md r assms(1,2) in \<open>auto simp: month_tables split: if_splits\<close>)
qed

definition valid_ymd :: "int \<Rightarrow> int \<Rightarrow> int \<Rightarrow> bool" where
  "valid_ymd y m d =
     (1 \<le> y \<and> 1 \<le> m \<and> m \<le> 12 \<and> 1 \<le> d \<and> d \<le> days_in_month (is_leap y) m)"

lemma mod_0_iff_last:
  assumes "0 < w" "w \<le> k"
  shows "(k * q + w) mod k = (0::int) \<longleftrightarrow> w = k"
  using assms by (cases "w = k") auto

lemma year_decomposition:
  assumes y: "z = 400 * a + 100 * b + 4 * c + e"
    and "0 \<le> b" "b \<le> 3" "0 \<le> c" "c \<le> 24" "0 \<le> e" "e \<le> 3"
  shows "days_before_year (z + 1) = 146097 * a + 36524 * b + 1461 * c + 365 * e"
    and "is_leap (z + 1) \<longleftrightarrow> e = 3 \<and> (c \<noteq> 24 \<or> b = 3)"
proof -
  have z4: "z div 4 = 100 * a + 25 * b + c"
    by (rule int_div_pos_eq [where r = e]) (use assms in auto)
  have z100: "z div 100 = 4 * a + b"
    by (rule int_div_pos_eq [where r = "4 * c + e"]) (use assms in auto)
  have z400: "z div 400 = a"
    by (rule int_div_pos_eq [where r = "100 * b + 4 * c + e"]) (use assms in auto)
  show "days_before_year (z + 1) = 146097 * a + 36524 * b + 1461 * c + 365 * e"
    unfolding days_before_year_def Let_def add_diff_cancel_right' z4 z100 z400 by (simp add: y)
  have "z + 1 = 4 * (100 * a + 25 * b + c) + (e + 1)" using y by simp
  then have m4: "(z + 1) mod 4 = 0 \<longleftrightarrow> e + 1 = 4"
    by (simp only:) (rule mod_0_iff_last, use assms in auto)
  have "z + 1 = 100 * (4 * a + b) + (4 * c + e + 1)" using y by simp
  then have m100: "(z + 1) mod 100 = 0 \<longleftrightarrow> 4 * c + e + 1 = 100"
    by (simp only:) (rule mod_0_iff_last, use assms in auto)
  have "z + 1 = 400 * (a) + (100 * b + 4 * c + e + 1)" using y by simp
  then have m400: "(z + 1) mod 400 = 0 \<longleftrightarrow> 100 * b + 4 * c + e + 1 = 400"
    by (simp only:) (rule mod_0_iff_last, use assms in auto)
  show "is_leap (z + 1) \<longleftrightarrow> e = 3 \<and> (c \<noteq> 24 \<or> b = 3)"
    unfolding is_leap_def m4 m100 m400 using assms(2-7) by auto
qed

lemma ord2ymd_correct:
  assumes "1 \<le> n" "ord2ymd n = (y, m, d)"
  shows "valid_ymd y m d \<and> ymd2ord y m d = n"
proof -
  define a r1 b r2 c r3 e r4 where "a = (n - 1) div 146097" and "r1 = (n - 1) mod 146097"
    and "b = r1 div 36524" and "r2 = r1 mod 36524" and "c = r2 div 1461"
    and "r3 = r2 mod 1461" and "e = r3 div 365" and "r4 = r3 mod 365"
  note defs = this
  have s: "146097 * a + r1 = n - 1" "36524 * b + r2 = r1" "1461 * c + r3 = r2"
    "365 * e + r4 = r3"
    unfolding defs by (rule mult_div_mod_eq)+
  have t: "0 \<le> r1" "r1 < 146097" "0 \<le> r2" "r2 < 36524" "0 \<le> r3" "r3 < 1461"
    unfolding defs by simp_all
  have r4: "0 \<le> r4" "r4 < 365" unfolding defs by simp_all
  have n: "n - 1 = 146097 * a + 36524 * b + 1461 * c + 365 * e + r4" using s by linarith
  have a: "0 \<le> a" using assms(1) by (simp add: defs)
  have b: "0 \<le> b" "b \<le> 4" using s(2) t(1-4) by linarith+
  have c: "0 \<le> c" "c \<le> 24" using s(3) t(3-6) by linarith+
  have e: "0 \<le> e" "e \<le> 4" using s(4) t(5,6) r4 by linarith+
  have r2: "1461 * c + 365 * e + r4 < 36524" using s t by linarith
  have r1: "36524 * b + 1461 * c + 365 * e + r4 < 146097" using s t by linarith
  have r3: "365 * e + r4 < 1461" using s t by linarith
  let ?y = "400 * a + 100 * b + 4 * c + e"
  have eval: "(y, m, d) = (if e = 4 \<or> b = 4 then (?y, 12, 31)
      else let md = month_day (e = 3 \<and> (c \<noteq> 24 \<or> b = 3)) r4 in (?y + 1, fst md, snd md))"
    using assms(2) unfolding ord2ymd_def Let_def defs [symmetric]
    by (auto simp: algebra_simps prod_eq_iff split: if_splits)
  show ?thesis
  proof (cases "e = 4 \<or> b = 4")
    case True
    have "\<exists>b' c' e'. ?y = 400 * a + 100 * b' + 4 * c' + e' + 1 \<and> e' = 3 \<and> (c' \<noteq> 24 \<or> b' = 3)
        \<and> 0 \<le> b' \<and> b' \<le> 3 \<and> 0 \<le> c' \<and> c' \<le> 24
        \<and> n = 146097 * a + 36524 * b' + 1461 * c' + 365 * e' + 366"
    proof (cases "b = 4")
      case True
      then have "c = 0" "e = 0" "r4 = 0" using r1 c e r4 by auto
      then show ?thesis using True n by (intro exI [of _ 3] exI [of _ 24] exI [of _ 3]) auto
    next
      case False
      then have "e = 4" "r4 = 0" "b \<le> 3" using \<open>e = 4 \<or> b = 4\<close> r3 r4 b by auto
      moreover have "c \<noteq> 24" using \<open>e = 4\<close> r2 r4 by auto
      ultimately show ?thesis using n b c
        by (intro exI [of _ b] exI [of _ c] exI [of _ 3]) auto
    qed
    then obtain b' c' e' where d': "?y = 400 * a + 100 * b' + 4 * c' + e' + 1" "e' = 3"
      "c' \<noteq> 24 \<or> b' = 3" "0 \<le> b'" "b' \<le> 3" "0 \<le> c'" "c' \<le> 24"
      "n = 146097 * a + 36524 * b' + 1461 * c' + 365 * e' + 366" by blast
    have "0 \<le> e'" "e' \<le> 3" using d'(2) by simp_all
    note yd = year_decomposition [OF refl d'(4,5,6,7) this, where a = a, folded d'(1)]
    have "y = ?y" "m = 12" "d = 31" using eval True by simp_all
    moreover have "is_leap ?y" using yd(2) d'(2,3) by simp
    moreover have "1 \<le> ?y" using d'(1,2,4,6) a by linarith
    ultimately show ?thesis
      using yd(1) d'(2,8) by (simp add: valid_ymd_def ymd2ord_def month_tables)
  next
    case False
    then have "b \<le> 3" "e \<le> 3" using b e by auto
    note yd = year_decomposition [OF refl b(1) \<open>b \<le> 3\<close> c e(1) \<open>e \<le> 3\<close>]
    have md: "month_day (is_leap (?y + 1)) r4 = (m, d)" and y: "y = ?y + 1"
      using eval False by (auto simp: Let_def yd(2) prod_eq_iff)
    have "r4 < (if is_leap (?y + 1) then 366 else 365)" using r4 by simp
    from month_day_correct [OF r4(1) this md]
    show ?thesis using y yd(1) n a b c e by (simp add: valid_ymd_def ymd2ord_def)
  qed
qed

lemma days_before_year_step:
  assumes "1 \<le> y"
  shows "days_before_year (y + 1) = days_before_year y + (if is_leap y then 366 else 365)"
proof -
  have step: "(z + 1) div k = z div k + (if (z + 1) mod k = 0 then 1 else 0)"
    if "0 < k" for z k :: int
  proof (cases "(z + 1) mod k = 0")
    case True
    then obtain q where q: "z + 1 = k * q" by auto
    have "z div k = q - 1"
      by (rule int_div_pos_eq [where r = "k - 1"]) (use q that in \<open>auto simp: algebra_simps\<close>)
    then show ?thesis using q that by (simp add: True)
  next
    case False
    let ?r = "(z + 1) mod k"
    have "1 \<le> ?r" "?r < k" using False that pos_mod_bound [of k "z + 1"]
      pos_mod_sign [of k "z + 1"] by linarith+
    moreover have "z = k * ((z + 1) div k) + (?r - 1)"
      using mult_div_mod_eq [of k "z + 1"] by linarith
    ultimately have "z div k = (z + 1) div k"
      by (intro int_div_pos_eq [where r = "?r - 1"]) auto
    then show ?thesis using False by simp
  qed
  have d: "y div k = (y - 1) div k + (if y mod k = 0 then 1 else 0)" if "0 < k" for k
    using step [OF that, of "y - 1"] by simp
  have m: "y mod 100 = 0 \<Longrightarrow> y mod 4 = 0" "y mod 400 = 0 \<Longrightarrow> y mod 100 = 0"
    using mod_mod_cancel [of 4 100 y] mod_mod_cancel [of 100 400 y] by auto
  define a4 a100 a400 b4 b100 b400
    where "a4 = y div 4" and "a100 = y div 100" and "a400 = y div 400"
      and "b4 = (y - 1) div 4" and "b100 = (y - 1) div 100" and "b400 = (y - 1) div 400"
  note qs = this
  define p4 p100 p400 where "p4 \<longleftrightarrow> y mod 4 = 0" and "p100 \<longleftrightarrow> y mod 100 = 0"
    and "p400 \<longleftrightarrow> y mod 400 = 0"
  note ps = this
  have eqs: "a4 = b4 + (if p4 then 1 else 0)" "a100 = b100 + (if p100 then 1 else 0)"
    "a400 = b400 + (if p400 then 1 else 0)"
    unfolding ps qs by (rule d, simp)+
  have dby: "days_before_year (y + 1) = y * 365 + a4 - a100 + a400"
    "days_before_year y = (y - 1) * 365 + b4 - b100 + b400"
    unfolding days_before_year_def Let_def qs by (simp_all only: add_diff_cancel_right')
  have leap: "is_leap y \<longleftrightarrow> p4 \<and> (\<not> p100 \<or> p400)"
    unfolding is_leap_def ps by simp
  have imp: "p100 \<longrightarrow> p4" "p400 \<longrightarrow> p100" unfolding ps using m by blast+
  show ?thesis using eqs imp unfolding dby leap by (cases p4; cases p100; cases p400) simp_all
qed

lemma days_before_year_mono:
  assumes "1 \<le> y" "y \<le> y'"
  shows "days_before_year y \<le> days_before_year y'"
  using assms(2)
proof (induction y' rule: int_ge_induct)
  case (step i)
  then show ?case using days_before_year_step [of i] assms(1) by auto
qed simp

lemma month_step:
  assumes "1 \<le> m" "m < 12"
  shows "days_before_month l (m + 1) = days_before_month l m + days_in_month l m"
proof -
  from assms(2) have "m \<le> 12" by simp
  with assms(1) show ?thesis
    by (cases m rule: month_cases) (use assms(2) in \<open>auto simp: month_tables\<close>)
qed

lemma days_in_month_pos: "1 \<le> m \<Longrightarrow> m \<le> 12 \<Longrightarrow> 1 \<le> days_in_month l m \<and> days_in_month l m \<le> 31"
  by (cases m rule: month_cases) (auto simp: month_tables)

lemma month_mono:
  assumes "1 \<le> m" "m \<le> m'" "m' \<le> 12"
  shows "days_before_month l m \<le> days_before_month l m'"
  using assms(2,3)
proof (induction m' rule: int_ge_induct)
  case (step i)
  then show ?case using month_step [of i l] days_in_month_pos [of i l] assms(1) by auto
qed simp

lemma day_of_year_bounds:
  assumes "valid_ymd y m d"
  shows "1 \<le> days_before_month (is_leap y) m + d"
    and "days_before_month (is_leap y) m + d \<le> (if is_leap y then 366 else 365)"
proof -
  let ?l = "is_leap y"
  have v: "1 \<le> m" "m \<le> 12" "1 \<le> d" "d \<le> days_in_month ?l m"
    using assms by (auto simp: valid_ymd_def)
  have "days_before_month ?l 1 \<le> days_before_month ?l m" using v by (intro month_mono) auto
  then show "1 \<le> days_before_month ?l m + d" using v by (simp add: month_tables)
  show "days_before_month ?l m + d \<le> (if ?l then 366 else 365)"
  proof (cases "m = 12")
    case True
    then show ?thesis using v by (simp add: month_tables)
  next
    case False
    have "days_before_month ?l (m + 1) \<le> days_before_month ?l 12"
      using v False by (intro month_mono) auto
    moreover have "days_before_month ?l 12 = (if ?l then 335 else 334)"
      by (simp add: month_tables)
    ultimately show ?thesis using v False month_step [of m ?l] by (auto split: if_splits)
  qed
qed

lemma ymd2ord_year_less:
  assumes "valid_ymd y m d" "valid_ymd y' m' d'" "y < y'"
  shows "ymd2ord y m d < ymd2ord y' m' d'"
proof -
  have "1 \<le> y" using assms(1) by (simp add: valid_ymd_def)
  have "ymd2ord y m d \<le> days_before_year (y + 1)"
    using day_of_year_bounds(2) [OF assms(1)] days_before_year_step [OF \<open>1 \<le> y\<close>]
    by (simp add: ymd2ord_def)
  also have "\<dots> \<le> days_before_year y'"
    using \<open>1 \<le> y\<close> assms(3) by (intro days_before_year_mono) auto
  also have "\<dots> < ymd2ord y' m' d'"
    using day_of_year_bounds(1) [OF assms(2)] by (simp add: ymd2ord_def)
  finally show ?thesis .
qed

lemma ymd2ord_month_less:
  assumes "valid_ymd y m d" "valid_ymd y m' d'" "m < m'"
  shows "ymd2ord y m d < ymd2ord y m' d'"
proof -
  have "days_before_month (is_leap y) m + d \<le> days_before_month (is_leap y) (m + 1)"
    using assms month_step [of m "is_leap y"] by (auto simp: valid_ymd_def)
  also have "\<dots> \<le> days_before_month (is_leap y) m'"
    using assms by (intro month_mono) (auto simp: valid_ymd_def)
  finally show ?thesis using assms(2) by (auto simp: ymd2ord_def valid_ymd_def)
qed

lemma ymd2ord_less_lex:
  assumes "valid_ymd y m d" "valid_ymd y' m' d'"
    and "y < y' \<or> (y = y' \<and> (m < m' \<or> (m = m' \<and> d < d')))"
  shows "ymd2ord y m d < ymd2ord y' m' d'"
  using assms ymd2ord_year_less ymd2ord_month_less by (auto simp: ymd2ord_def)

lemma ord2ymd_less:
  assumes "1 \<le> n" "n < n'" "ord2ymd n = (y, m, d)" "ord2ymd n' = (y', m', d')"
  shows "y < y' \<or> (y = y' \<and> (m < m' \<or> (m = m' \<and> d < d')))"
proof (rule ccontr)
  assume "\<not> ?thesis"
  then have "(y', m', d') = (y, m, d) \<or>
      (y' < y \<or> (y' = y \<and> (m' < m \<or> (m' = m \<and> d' < d))))" by auto
  moreover have c: "valid_ymd y m d" "ymd2ord y m d = n" "valid_ymd y' m' d'" "ymd2ord y' m' d' = n'"
    using ord2ymd_correct [OF assms(1,3)] ord2ymd_correct [OF _ assms(4)] assms(1,2) by auto
  ultimately have "n' \<le> n" using ymd2ord_less_lex [of y' m' d' y m d] by auto
  then show False using assms(2) by simp
qed

lemma ord2ymd_year_bound:
  assumes "1 \<le> n" "n \<le> 3652059" "ord2ymd n = (y, m, d)"
  shows "y \<le> 9999"
proof -
  have max: "ord2ymd 3652059 = (9999, 12, 31)" by code_simp
  show ?thesis using ord2ymd_less [OF assms(1) _ assms(3) max] assms(2,3) max
    by (cases "n = 3652059") auto
qed

section \<open>The text order of timestamps is the order of time\<close>

definition valid_instant :: "instant \<Rightarrow> bool" where
  "valid_instant t = (0 \<le> t \<and> t < max_instant)"

lemma length_date_str [simp]: "length (date_str day) = 10"
  by (simp add: date_str_def split: prod.split)

lemma month_day_digits:
  assumes "valid_ymd y m d" "y \<le> 9999"
  shows "0 \<le> y" "y < 10 ^ 4" "0 \<le> m" "m < 10 ^ 2" "0 \<le> d" "d < 10 ^ 2"
  using assms days_in_month_pos [of m "is_leap y"] by (auto simp: valid_ymd_def)

lemma date_str_less:
  assumes "0 \<le> a" "a < b" "b < 3652059"
  shows "date_str a < date_str b"
proof -
  obtain y m d where o1: "ord2ymd (a + 1) = (y, m, d)" by (cases "ord2ymd (a + 1)")
  obtain y' m' d' where o2: "ord2ymd (b + 1) = (y', m', d')" by (cases "ord2ymd (b + 1)")
  have v: "valid_ymd y m d" "valid_ymd y' m' d'"
    using ord2ymd_correct [OF _ o1] ord2ymd_correct [OF _ o2] assms by auto
  have yb: "y \<le> 9999" "y' \<le> 9999"
    using ord2ymd_year_bound [OF _ _ o1] ord2ymd_year_bound [OF _ _ o2] assms by auto
  note g = month_day_digits [OF v(1) yb(1)] and g' = month_day_digits [OF v(2) yb(2)]
  have "y < y' \<or> (y = y' \<and> (m < m' \<or> (m = m' \<and> d < d')))"
    by (rule ord2ymd_less [OF _ _ o1 o2]) (use assms in auto)
  then show ?thesis
    unfolding date_str_def o1 o2 prod.case
    by (simp only: less_append_same_length length_pad pad_less [OF g(1,2) g'(1,2)]
        pad_eq [OF g(1,2) g'(1,2)] pad_less [OF g(3,4) g'(3,4)] pad_eq [OF g(3,4) g'(3,4)]
        pad_less [OF g(5,6) g'(5,6)] pad_eq [OF g(5,6) g'(5,6)]) auto
qed

definition second_str :: "int \<Rightarrow> string" where
  "second_str s = pad 2 (s div 3600) @ '':'' @ pad 2 (s mod 3600 div 60) @ '':'' @ pad 2 (s mod 60)"

lemma length_second_str [simp]: "length (second_str s) = 8"
  by (simp add: second_str_def)

lemma hms_less:
  fixes s t :: int
  assumes "s < t"
  shows "s div 3600 < t div 3600 \<or> (s div 3600 = t div 3600 \<and>
      (s mod 3600 div 60 < t mod 3600 div 60 \<or> (s mod 3600 div 60 = t mod 3600 div 60 \<and>
        s mod 60 < t mod 60)))"
proof -
  define h m x where "h = s div 3600" and "m = s mod 3600 div 60" and "x = s mod 60"
  define h' m' x' where "h' = t div 3600" and "m' = t mod 3600 div 60" and "x' = t mod 60"
  have dec: "z = 3600 * (z div 3600) + 60 * (z mod 3600 div 60) + z mod 60" for z :: int
  proof -
    have "60 * (z mod 3600 div 60) + z mod 60 = z mod 3600"
      using mult_div_mod_eq [of 60 "z mod 3600"] mod_mod_cancel [of 60 3600 z] by simp
    then show ?thesis by (simp only: add.assoc mult_div_mod_eq)
  qed
  have e: "s = 3600 * h + 60 * m + x" "t = 3600 * h' + 60 * m' + x'"
    using dec by (simp_all add: h_def m_def x_def h'_def m'_def x'_def)
  have b: "0 \<le> x" "x < 60" "0 \<le> x'" "x' < 60" "0 \<le> m" "m < 60" "0 \<le> m'" "m' < 60"
    by (auto simp: m_def x_def m'_def x'_def pos_imp_zdiv_nonneg_iff)
  have "h < h' \<or> (h = h' \<and> (m < m' \<or> (m = m' \<and> x < x')))"
    using assms b unfolding e by linarith
  then show ?thesis by (simp only: h_def m_def x_def h'_def m'_def x'_def)
qed

lemma second_str_less:
  assumes "0 \<le> s" "s < t" "t < 86400"
  shows "second_str s < second_str t"
proof -
  have hs: "0 \<le> s div 3600" "s div 3600 < 10 ^ 2" "0 \<le> t div 3600" "t div 3600 < 10 ^ 2"
    "0 \<le> s mod 3600 div 60" "s mod 3600 div 60 < 10 ^ 2" "0 \<le> t mod 3600 div 60"
    "t mod 3600 div 60 < 10 ^ 2" "0 \<le> s mod 60" "s mod 60 < 10 ^ 2"
    "0 \<le> t mod 60" "t mod 60 < 10 ^ 2"
    using assms by (auto simp: pos_imp_zdiv_nonneg_iff)
  note hms_less [OF assms(2)]
  then show ?thesis
    unfolding second_str_def
    by (simp only: less_append_same_length length_pad pad_less [OF hs(1,2,3,4)]
        pad_eq [OF hs(1,2,3,4)] pad_less [OF hs(5,6,7,8)] pad_eq [OF hs(5,6,7,8)]
        pad_less [OF hs(9,10,11,12)] pad_eq [OF hs(9,10,11,12)]) auto
qed

lemma time_str_eq: "time_str us = second_str (us div 1000000) @
    (if us mod 1000000 = 0 then [] else ''.'' @ pad 6 (us mod 1000000))"
  by (simp add: time_str_def second_str_def Let_def)

lemma time_str_less:
  assumes "0 \<le> a" "a < b" "b < us_per_day"
  shows "time_str a @ ''+00:00'' < time_str b @ ''+00:00''"
proof (cases "a div 1000000 = b div 1000000")
  case True
  have m: "a mod 1000000 < b mod 1000000"
    using assms True mult_div_mod_eq [of 1000000 a] mult_div_mod_eq [of 1000000 b] by linarith
  have r: "0 \<le> a mod 1000000" "a mod 1000000 < 10 ^ 6" "0 \<le> b mod 1000000"
    "b mod 1000000 < 10 ^ 6" by simp_all
  show ?thesis
  proof (cases "a mod 1000000 = 0")
    case True': True
    then show ?thesis using m True
      by (simp add: time_str_eq less_append_same_length less_char_def)
  next
    case False
    then show ?thesis using m True pad_less [OF r]
      by (simp add: time_str_eq less_append_same_length)
  qed
next
  case False
  have "a div 1000000 \<le> b div 1000000" using assms by (intro zdiv_mono1) auto
  then have "a div 1000000 < b div 1000000" using False by simp
  moreover have "b div 1000000 < 86400" using assms by (simp add: us_per_day_def)
  moreover have "0 \<le> a div 1000000" using assms by (simp add: pos_imp_zdiv_nonneg_iff)
  ultimately have "second_str (a div 1000000) < second_str (b div 1000000)"
    by (intro second_str_less) auto
  then show ?thesis by (simp add: time_str_eq less_append_same_length)
qed

lemma isoformat_less:
  assumes "valid_instant t" "valid_instant u" "t < u"
  shows "isoformat t < isoformat u"
proof -
  let ?D = "\<lambda>t. t div us_per_day" and ?T = "\<lambda>t. t mod us_per_day"
  have pos: "0 < us_per_day" by (simp add: us_per_day_def)
  have day: "0 \<le> ?D t" "?D u < 3652059"
    using assms pos by (auto simp: valid_instant_def max_instant_def us_per_day_def)
  have tm: "0 \<le> ?T t" "?T u < us_per_day" using pos by simp_all
  have "?D t \<le> ?D u" using assms(3) pos by (intro zdiv_mono1) auto
  then consider "?D t < ?D u" | "?D t = ?D u" by linarith
  then show ?thesis
  proof cases
    case 1
    then show ?thesis using date_str_less [OF day(1) 1 day(2)]
      by (simp add: isoformat_def less_append_same_length)
  next
    case 2
    then have "?T t < ?T u"
      using assms(3) mult_div_mod_eq [of us_per_day t] mult_div_mod_eq [of us_per_day u]
      by (metis add_less_cancel_left)
    then show ?thesis using time_str_less [OF tm(1) _ tm(2)] 2
      by (simp add: isoformat_def less_append_same_length)
  qed
qed

lemma isoformat_less_iff:
  assumes "valid_instant t" "valid_instant u"
  shows "isoformat t < isoformat u \<longleftrightarrow> t < u"
  using isoformat_less [OF assms] isoformat_less [OF assms(2,1)]
  by (metis less_asym linorder_neqE_linordered_idom)

lemma isoformat_le_iff:
  assumes "valid_instant t" "valid_instant u"
  shows "isoformat t \<le> isoformat u \<longleftrightarrow> t \<le> u"
  using isoformat_less_iff [OF assms(2,1)] by (metis not_le)

lemma isoformat_inject:
  assumes "valid_instant t" "valid_instant u"
  shows "isoformat t = isoformat u \<longleftrightarrow> t = u"
  using isoformat_less [OF assms] isoformat_less [OF assms(2,1)]
  by (metis less_irrefl linorder_neqE_linordered_idom)

text \<open>2026-01-01T00:00:00 UTC\<close>

definition sample_time :: instant where
  "sample_time = 63902822400000000"

end
