(* ===== verification/MemoryStore.thy ===== *)
theory MemoryStore
  imports Clock
begin

text \<open>
  \<open>memory/store.py\<close>: the three tables of the agent memory database and the operations of
  \<open>MemoryStore\<close>. A table is the list of its rows in insertion order; the primary keys and
  the partial unique index \<open>idx_mem_key_wg\<close> are checked by the insertion, which answers
  \<open>IntegrityError\<close> where SQLite would raise it. Every operation takes the clock reading
  and the generated identifier it uses as arguments. The content of a memory is the text
  \<open>json.dumps\<close> produces for it.
\<close>

section \<open>The tables\<close>

record memory =
  m_id :: string
  m_agent_id :: string
  m_workgroup_id :: string
  m_type :: string
  m_scope :: string
  m_content :: string
  m_key :: "string option"
  m_importance :: rat
  m_utility :: rat
  m_access_count :: int
  m_last_accessed_at :: "string option"
  m_causal_parent_id :: "string option"
  m_linked :: string
  m_created_at :: string
  m_updated_at :: string
  m_expires_at :: "string option"
  m_deleted_at :: "string option"

record grant =
  g_id :: string
  g_grantor :: string
  g_grantee_agent :: "string option"
  g_grantee_wg :: "string option"
  g_type_filter :: "string option"
  g_min_importance :: rat
  g_permission :: string
  g_valid_from :: string
  g_valid_until :: "string option"
  g_created_by :: string
  g_created_at :: string

record log_entry =
  l_id :: string
  l_agent_id :: string
  l_workgroup_id :: string
  l_action :: string
  l_memory_ids :: "string option"
  l_query_text :: "string option"
  l_result_count :: "int option"
  l_grant_id :: "string option"
  l_source_workgroup_id :: "string option"
  l_execution_id :: "string option"
  l_trace_id :: "string option"
  l_span_id :: "string option"
  l_latency_ms :: "rat option"
  l_status :: string
  l_error_type :: "string option"
  l_created_at :: string

record mem_db =
  memories :: "memory list"
  grants :: "grant list"
  access_log :: "log_entry list"

datatype db_error = IntegrityError

abbreviation live :: "memory \<Rightarrow> bool" where
  "live m \<equiv> m_deleted_at m = None"

section \<open>Operations\<close>

text \<open>The keyword arguments of \<open>create_memory\<close>; those the code reads with \<open>get\<close> are optional.\<close>

record memory_args =
  na_id :: "string option"
  na_agent_id :: string
  na_workgroup_id :: string
  na_memory_type :: string
  na_access_scope :: "string option"
  na_content :: string
  na_memory_key :: "string option"
  na_importance :: "rat option"
  na_utility :: "rat option"
  na_linked :: "string option"
  na_causal_parent_id :: "string option"
  na_expires_at :: "string option"

definition get_memory :: "mem_db \<Rightarrow> string \<Rightarrow> memory option" where
  "get_memory db mid = find (\<lambda>m. m_id m = mid \<and> live m) (memories db)"

text \<open>The constraints of the table \<open>agent_memories\<close> on a new row.\<close>

definition memory_conflict :: "memory \<Rightarrow> memory list \<Rightarrow> bool" where
  "memory_conflict r ms =
     (\<exists>m \<in> set ms. m_id m = m_id r \<or>
        (m_key r \<noteq> None \<and> live r \<and> live m \<and> m_workgroup_id m = m_workgroup_id r
         \<and> m_key m = m_key r))"

definition insert_memory :: "memory \<Rightarrow> mem_db \<Rightarrow> db_error + mem_db" where
  "insert_memory r db =
     (if memory_conflict r (memories db) then Inl IntegrityError
      else Inr (db\<lparr>memories := memories db @ [r]\<rparr>))"

definition find_by_key :: "mem_db \<Rightarrow> string \<Rightarrow> string option \<Rightarrow> memory option" where
  "find_by_key db wg k =
     find (\<lambda>m. m_workgroup_id m = wg \<and> m_key m = k \<and> live m) (memories db)"

definition new_row :: "string \<Rightarrow> string \<Rightarrow> memory_args \<Rightarrow> memory" where
  "new_row now mid kw =
     \<lparr>m_id = mid, m_agent_id = na_agent_id kw, m_workgroup_id = na_workgroup_id kw,
      m_type = na_memory_type kw, m_scope = get_or (na_access_scope kw) ''private'',
      m_content = na_content kw, m_key = na_memory_key kw,
      m_importance = get_or (na_importance kw) (1/2), m_utility = get_or (na_utility kw) (1/2),
      m_access_count = 0, m_last_accessed_at = None,
      m_causal_parent_id = na_causal_parent_id kw, m_linked = get_or (na_linked kw) ''[]'',
      m_created_at = now, m_updated_at = now, m_expires_at = na_expires_at kw,
      m_deleted_at = None\<rparr>"

definition create_memory ::
    "instant \<Rightarrow> string \<Rightarrow> memory_args \<Rightarrow> mem_db \<Rightarrow> db_error + memory option \<times> mem_db" where
  "create_memory t fresh kw db =
     (let mid = or_else (na_id kw) fresh; now = isoformat t;
          existing = (if truthy (na_memory_key kw)
                      then find_by_key db (na_workgroup_id kw) (na_memory_key kw) else None)
      in case existing of
           Some e \<Rightarrow>
             (let db' = db\<lparr>memories := update_where (\<lambda>m. m_id m = m_id e)
                            (\<lambda>m. m\<lparr>m_content := na_content kw,
                                   m_importance := get_or (na_importance kw) (1/2),
                                   m_updated_at := now\<rparr>) (memories db)\<rparr>
              in Inr (get_memory db' (m_id e), db'))
         | None \<Rightarrow>
             (case insert_memory (new_row now mid kw) db of
                Inl e \<Rightarrow> Inl e
              | Inr db' \<Rightarrow> Inr (get_memory db' mid, db')))"

definition update_memory ::
    "instant \<Rightarrow> string \<Rightarrow> string option \<Rightarrow> rat option \<Rightarrow> mem_db \<Rightarrow> memory option \<times> mem_db" where
  "update_memory t mid content importance db =
     (if content = None \<and> importance = None then (get_memory db mid, db)
      else (let db' = db\<lparr>memories := update_where (\<lambda>m. m_id m = mid \<and> live m)
                          (\<lambda>m. m\<lparr>m_content := get_or content (m_content m),
                                 m_importance := get_or importance (m_importance m),
                                 m_updated_at := isoformat t\<rparr>) (memories db)\<rparr>
            in (get_memory db' mid, db')))"

text \<open>The row that is returned is selected by its id alone, deleted or not.\<close>

definition soft_delete_memory :: "instant \<Rightarrow> string \<Rightarrow> mem_db \<Rightarrow> memory option \<times> mem_db" where
  "soft_delete_memory t mid db =
     (let db' = db\<lparr>memories := update_where (\<lambda>m. m_id m = mid \<and> live m)
                     (\<lambda>m. m\<lparr>m_deleted_at := Some (isoformat t)\<rparr>) (memories db)\<rparr>
      in (find (\<lambda>m. m_id m = mid) (memories db'), db'))"

definition clamp_utility :: "rat \<Rightarrow> rat \<Rightarrow> rat" where
  "clamp_utility old reward = max (1/10) (min (9/10) (old + 1/10 * (reward - old)))"

text \<open>The old utility, the new one and the memory; \<open>None\<close> when there is no live memory.\<close>

definition update_utility ::
    "instant \<Rightarrow> string \<Rightarrow> rat \<Rightarrow> mem_db \<Rightarrow> (rat \<times> rat \<times> memory option) option \<times> mem_db" where
  "update_utility t mid reward db =
     (case get_memory db mid of
        None \<Rightarrow> (None, db)
      | Some row \<Rightarrow>
          (let old = m_utility row; new = clamp_utility old reward;
               db' = db\<lparr>memories := update_where (\<lambda>m. m_id m = mid)
                          (\<lambda>m. m\<lparr>m_utility := new, m_updated_at := isoformat t\<rparr>) (memories db)\<rparr>
           in (Some (old, new, get_memory db' mid), db')))"

text \<open>The parent of a row, deleted or not.\<close>

definition causal_parent :: "mem_db \<Rightarrow> string \<Rightarrow> string option" where
  "causal_parent db mid =
     (case find (\<lambda>m. m_id m = mid) (memories db) of
        None \<Rightarrow> None | Some m \<Rightarrow> m_causal_parent_id m)"

text \<open>The loop: the first argument counts down the remaining depth, 50 at the start.\<close>

fun causal_walk :: "nat \<Rightarrow> mem_db \<Rightarrow> string option \<Rightarrow> string list \<Rightarrow> string option \<Rightarrow> bool" where
  "causal_walk 0 db new visited cur = False"
| "causal_walk (Suc n) db new visited cur =
     (if \<not> truthy cur then False
      else if cur = new then True
      else if the cur \<in> set visited then True
      else causal_walk n db new (the cur # visited) (causal_parent db (the cur)))"

definition check_causal_cycle :: "mem_db \<Rightarrow> string \<Rightarrow> string option \<Rightarrow> bool" where
  "check_causal_cycle db parent new = causal_walk 50 db new [] (Some parent)"

section \<open>The invariant of the table\<close>

definition key_unique :: "memory list \<Rightarrow> bool" where
  "key_unique ms =
     distinct (map (\<lambda>m. (m_workgroup_id m, m_key m))
       (filter (\<lambda>m. live m \<and> m_key m \<noteq> None) ms))"

definition row_ok :: "memory \<Rightarrow> bool" where
  "row_ok m = (1/10 \<le> m_utility m \<and> m_utility m \<le> 9/10
     \<and> 0 \<le> m_importance m \<and> m_importance m \<le> 1 \<and> 0 \<le> m_access_count m)"

definition mem_inv :: "mem_db \<Rightarrow> bool" where
  "mem_inv db = (distinct (map m_id (memories db)) \<and> key_unique (memories db)
     \<and> (\<forall>m \<in> set (memories db). row_ok m)
     \<and> distinct (map g_id (grants db)))"

definition empty_db :: mem_db where
  "empty_db = \<lparr>memories = [], grants = [], access_log = []\<rparr>"

definition args_ok :: "memory_args \<Rightarrow> bool" where
  "args_ok kw = (0 \<le> get_or (na_importance kw) (1/2) \<and> get_or (na_importance kw) (1/2) \<le> 1
     \<and> 1/10 \<le> get_or (na_utility kw) (1/2) \<and> get_or (na_utility kw) (1/2) \<le> 9/10)"

section \<open>Row updates and the invariant\<close>

named_theorems store_defs \<open>definitions of the store's operations\<close>

lemmas [store_defs] = create_memory_def update_memory_def soft_delete_memory_def update_utility_def

lemma key_unique_update:
  assumes "\<And>m. m_workgroup_id (f m) = m_workgroup_id m" "\<And>m. m_key (f m) = m_key m"
    and "\<And>m. live (f m) \<Longrightarrow> live m" and "key_unique ms"
  shows "key_unique (update_where P f ms)"
proof -
  let ?g = "\<lambda>m. if P m then f m else m"
  let ?Q = "\<lambda>m. live m \<and> m_key m \<noteq> None"
  let ?h = "\<lambda>m. (m_workgroup_id m, m_key m)"
  have imp: "?Q m" if "(?Q \<circ> ?g) m" for m
    using that assms(2,3) by (cases "P m") auto
  have "filter (?Q \<circ> ?g) ms = filter (?Q \<circ> ?g) (filter ?Q ms)"
    unfolding filter_filter using imp by (intro filter_cong [OF refl]) blast
  moreover have "?h \<circ> ?g = ?h" using assms(1,2) by (auto simp: fun_eq_iff)
  ultimately have "map ?h (filter ?Q (update_where P f ms)) = map ?h (filter (?Q \<circ> ?g) (filter ?Q ms))"
    by (simp only: update_where_def filter_map map_map)
  then show ?thesis
    using distinct_map_filter_key [OF assms(4) [unfolded key_unique_def], of "?Q \<circ> ?g"]
    unfolding key_unique_def by simp
qed

lemma key_unique_append:
  assumes "key_unique ms" "\<not> memory_conflict r ms"
  shows "key_unique (ms @ [r])"
  using assms unfolding key_unique_def memory_conflict_def by (auto simp: image_iff)

lemma key_uniqueD:
  assumes "key_unique ms" "m \<in> set ms" "m' \<in> set ms" "live m" "live m'" "m_key m \<noteq> None"
    "m_key m = m_key m'" "m_workgroup_id m = m_workgroup_id m'"
  shows "m = m'"
  using assms unfolding key_unique_def
  by (intro distinct_keyD [of "\<lambda>m. (m_workgroup_id m, m_key m)"
        "filter (\<lambda>m. live m \<and> m_key m \<noteq> None) ms"]) auto

lemma mem_inv_update:
  assumes "\<And>m. m_id (f m) = m_id m" "\<And>m. m_workgroup_id (f m) = m_workgroup_id m"
    "\<And>m. m_key (f m) = m_key m" "\<And>m. live (f m) \<Longrightarrow> live m"
    "\<And>m. m \<in> set (memories db) \<Longrightarrow> P m \<Longrightarrow> row_ok m \<Longrightarrow> row_ok (f m)"
    and "mem_inv db"
  shows "mem_inv (db\<lparr>memories := update_where P f (memories db)\<rparr>)"
  using assms(6) key_unique_update [OF assms(2,3,4)] assms(5)
  by (auto simp: mem_inv_def map_update_where assms(1) set_update_where)

lemma mem_inv_insert:
  assumes "mem_inv db" "insert_memory r db = Inr db'" "row_ok r"
  shows "mem_inv db'"
  using assms key_unique_append [of "memories db" r]
  by (fastforce simp: mem_inv_def insert_memory_def memory_conflict_def split: if_splits)

lemma mem_inv_empty [simp]: "mem_inv empty_db"
  by (simp add: mem_inv_def empty_db_def key_unique_def)

lemma mem_invD:
  "mem_inv db \<Longrightarrow> distinct (map m_id (memories db))"
  "mem_inv db \<Longrightarrow> key_unique (memories db)"
  "mem_inv db \<Longrightarrow> m \<in> set (memories db) \<Longrightarrow> row_ok m"
  by (auto simp: mem_inv_def)

lemma mem_inv_same_tables:
  "memories db' = memories db \<Longrightarrow> grants db' = grants db \<Longrightarrow> mem_inv db' = mem_inv db"
  by (simp add: mem_inv_def)

lemma get_memory_SomeD:
  "get_memory db mid = Some m \<Longrightarrow> m \<in> set (memories db) \<and> m_id m = mid \<and> live m"
  by (auto simp: get_memory_def dest: find_SomeD)

lemma get_memory_iff:
  assumes "mem_inv db"
  shows "get_memory db mid = Some m \<longleftrightarrow> m \<in> set (memories db) \<and> m_id m = mid \<and> live m"
proof
  assume m: "m \<in> set (memories db) \<and> m_id m = mid \<and> live m"
  then obtain m' where m': "get_memory db mid = Some m'"
    by (cases "get_memory db mid") (auto simp: get_memory_def find_None_iff_ball)
  from get_memory_SomeD [OF m'] m have "m = m'"
    using distinct_keyD [OF mem_invD(1) [OF assms]] by blast
  with m' show "get_memory db mid = Some m" by simp
qed (rule get_memory_SomeD)

lemma clamp_utility_bounds: "1/10 \<le> clamp_utility u r" "clamp_utility u r \<le> 9/10"
  by (auto simp: clamp_utility_def max_def min_def)

lemma clamp_utility_bounds10 [simp]: "1 \<le> clamp_utility u r * 10" "clamp_utility u r * 10 \<le> 9"
  using clamp_utility_bounds [of u r] by simp_all

lemma get_memory_update_where:
  assumes "\<And>m. m_id (f m) = m_id m" "\<And>m. m_id m = mid \<Longrightarrow> P m \<Longrightarrow> live (f m) = live m"
  shows "get_memory (db\<lparr>memories := update_where P f (memories db)\<rparr>) mid =
    map_option (\<lambda>m. if P m then f m else m) (get_memory db mid)"
proof -
  have "find (\<lambda>m. m_id m = mid \<and> live m) (update_where P f rs) =
      map_option (\<lambda>m. if P m then f m else m) (find (\<lambda>m. m_id m = mid \<and> live m) rs)" for rs
  proof (induction rs)
    case (Cons a rs)
    then show ?case using assms(1) [of a] assms(2) [of a]
      by (cases "P a"; cases "m_deleted_at a") auto
  qed simp
  then show ?thesis by (simp add: get_memory_def)
qed

lemma get_memory_update_other:
  assumes "\<And>m. m_id (f m) = m_id m" "\<And>m. P m \<Longrightarrow> m_id m \<noteq> mid"
  shows "get_memory (db\<lparr>memories := update_where P f (memories db)\<rparr>) mid = get_memory db mid"
proof -
  have "find (\<lambda>m. m_id m = mid \<and> live m) (update_where P f rs) =
      find (\<lambda>m. m_id m = mid \<and> live m) rs" for rs
    using assms(1) by (induction rs) (auto dest: assms(2))
  then show ?thesis by (simp add: get_memory_def)
qed

text \<open>Each operation keeps the invariant.\<close>

lemma create_memory_inv:
  assumes "mem_inv db" "args_ok kw" "create_memory t fresh kw db = Inr (m, db')"
  shows "mem_inv db'"
proof (cases "if truthy (na_memory_key kw)
    then find_by_key db (na_workgroup_id kw) (na_memory_key kw) else None")
  case None
  then obtain db1 where "insert_memory (new_row (isoformat t) (or_else (na_id kw) fresh) kw) db = Inr db1"
    "db' = db1"
    using assms(3) by (auto simp: create_memory_def Let_def split: sum.splits)
  then show ?thesis using assms(1,2)
    by (auto intro!: mem_inv_insert [of db] simp: row_ok_def new_row_def args_ok_def)
next
  case (Some e)
  then have "db' = db\<lparr>memories := update_where (\<lambda>m. m_id m = m_id e)
      (\<lambda>m. m\<lparr>m_content := na_content kw, m_importance := get_or (na_importance kw) (1/2),
             m_updated_at := isoformat t\<rparr>) (memories db)\<rparr>"
    using assms(3) by (simp add: create_memory_def Let_def)
  then show ?thesis
    using assms(1,2) by (auto intro!: mem_inv_update simp: row_ok_def args_ok_def)
qed

lemma update_memory_inv:
  assumes "mem_inv db" "\<And>i. importance = Some i \<Longrightarrow> 0 \<le> i \<and> i \<le> 1"
  shows "mem_inv (snd (update_memory t mid content importance db))"
  using assms unfolding update_memory_def Let_def
  by (auto intro!: mem_inv_update simp: row_ok_def get_or_def split: option.splits)

lemma soft_delete_inv: "mem_inv db \<Longrightarrow> mem_inv (snd (soft_delete_memory t mid db))"
  unfolding soft_delete_memory_def Let_def
  by (auto intro!: mem_inv_update simp: row_ok_def)

lemma update_utility_inv: "mem_inv db \<Longrightarrow> mem_inv (snd (update_utility t mid r db))"
  unfolding update_utility_def Let_def
  by (auto intro!: mem_inv_update simp: row_ok_def clamp_utility_bounds split: option.splits)

section \<open>What each operation returns\<close>

text \<open>The two branches of \<open>create_memory\<close>: an update of the keyed memory, or an insertion.\<close>

definition keyed_match :: "memory_args \<Rightarrow> mem_db \<Rightarrow> memory option" where
  "keyed_match kw db = (if truthy (na_memory_key kw)
     then find_by_key db (na_workgroup_id kw) (na_memory_key kw) else None)"

lemma find_by_key_SomeD:
  "find_by_key db wg k = Some e \<Longrightarrow>
    e \<in> set (memories db) \<and> m_workgroup_id e = wg \<and> m_key e = k \<and> live e"
  by (auto simp: find_by_key_def dest: find_SomeD)

lemma create_memory_update_case:
  assumes "mem_inv db" "keyed_match kw db = Some e"
  shows "create_memory t fresh kw db =
    Inr (Some (e\<lparr>m_content := na_content kw, m_importance := get_or (na_importance kw) (1/2),
                m_updated_at := isoformat t\<rparr>),
         db\<lparr>memories := update_where (\<lambda>m. m_id m = m_id e)
           (\<lambda>m. m\<lparr>m_content := na_content kw, m_importance := get_or (na_importance kw) (1/2),
                  m_updated_at := isoformat t\<rparr>) (memories db)\<rparr>)"
proof -
  have e: "e \<in> set (memories db)" "live e"
    using assms(2) by (auto simp: keyed_match_def split: if_splits dest: find_by_key_SomeD)
  then have "get_memory db (m_id e) = Some e"
    using get_memory_iff [OF assms(1)] by simp
  then show ?thesis
    using assms(2) by (simp add: create_memory_def keyed_match_def get_memory_update_where Let_def)
qed

lemma create_memory_insert_case:
  assumes "mem_inv db" "keyed_match kw db = None"
  shows "create_memory t fresh kw db =
    (let r = new_row (isoformat t) (or_else (na_id kw) fresh) kw in
     if memory_conflict r (memories db) then Inl IntegrityError
     else Inr (Some r, db\<lparr>memories := memories db @ [r]\<rparr>))"
proof -
  let ?r = "new_row (isoformat t) (or_else (na_id kw) fresh) kw"
  have "get_memory (db\<lparr>memories := memories db @ [?r]\<rparr>) (m_id ?r) = Some ?r"
    if "\<not> memory_conflict ?r (memories db)"
  proof -
    have "find (\<lambda>m. m_id m = m_id ?r \<and> live m) (memories db) = None"
      using that by (auto simp: find_None_iff_ball memory_conflict_def)
    then show ?thesis by (simp add: get_memory_def find_append new_row_def)
  qed
  then show ?thesis
    using assms(2) by (simp add: create_memory_def keyed_match_def insert_memory_def Let_def new_row_def)
qed

lemma keyed_match_None_conflict:
  assumes "keyed_match kw db = None" "mid \<notin> m_id ` set (memories db)"
  shows "memory_conflict (new_row now mid kw) (memories db) \<longleftrightarrow>
    na_memory_key kw = Some [] \<and>
    (\<exists>m \<in> set (memories db). live m \<and> m_workgroup_id m = na_workgroup_id kw \<and> m_key m = Some [])"
proof (cases "truthy (na_memory_key kw)")
  case True
  then have "\<forall>m \<in> set (memories db). \<not> (m_workgroup_id m = na_workgroup_id kw
      \<and> m_key m = na_memory_key kw \<and> live m)"
    using assms(1) by (simp add: keyed_match_def find_by_key_def find_None_iff_ball)
  then show ?thesis using True assms(2)
    by (auto simp: memory_conflict_def new_row_def image_iff)
next
  case False
  then have "na_memory_key kw = None \<or> na_memory_key kw = Some []"
    by (cases "na_memory_key kw") (auto simp: truthy_def)
  then show ?thesis using assms(2)
    by (auto simp: memory_conflict_def new_row_def image_iff)
qed

section \<open>The causal chain\<close>

fun ancestor :: "mem_db \<Rightarrow> nat \<Rightarrow> string option \<Rightarrow> string option" where
  "ancestor db 0 cur = (if truthy cur then cur else None)"
| "ancestor db (Suc n) cur =
     (if truthy cur then ancestor db n (causal_parent db (the cur)) else None)"

lemma causal_walk_iff:
  "causal_walk n db None vs cur \<longleftrightarrow>
    (\<exists>j<n. \<exists>x. ancestor db j cur = Some x \<and> (x \<in> set vs \<or> (\<exists>i<j. ancestor db i cur = Some x)))"
proof (induction n arbitrary: vs cur)
  case (Suc n)
  show ?case
  proof (cases "truthy cur")
    case False
    then have "ancestor db j cur = None" for j by (cases j) auto
    then show ?thesis using False by simp
  next
    case True
    then obtain c where c: "cur = Some c" by (auto elim: truthyE)
    let ?p = "causal_parent db c"
    have step: "ancestor db (Suc j) cur = ancestor db j ?p" "ancestor db 0 cur = Some c" for j
      using True c by simp_all
    have "(\<exists>j<Suc n. \<exists>x. ancestor db j cur = Some x \<and>
          (x \<in> set vs \<or> (\<exists>i<j. ancestor db i cur = Some x))) \<longleftrightarrow>
        c \<in> set vs \<or> (\<exists>j<n. \<exists>x. ancestor db j ?p = Some x \<and>
          (x \<in> set (c # vs) \<or> (\<exists>i<j. ancestor db i ?p = Some x)))"
      unfolding Ex_less_Suc2 step by auto
    then show ?thesis using True c Suc.IH by auto
  qed
qed simp

section \<open>Sample rows\<close>

text \<open>A memory of type \<open>semantic\<close>, used by the concrete instances of the theorems.\<close>

definition sample_memory :: "string \<Rightarrow> string \<Rightarrow> string \<Rightarrow> string \<Rightarrow> rat \<Rightarrow> memory" where
  "sample_memory mid agent wg scope u =
     \<lparr>m_id = mid, m_agent_id = agent, m_workgroup_id = wg, m_type = ''semantic'', m_scope = scope,
      m_content = ''{}'', m_key = None, m_importance = 1/2, m_utility = u, m_access_count = 0,
      m_last_accessed_at = None, m_causal_parent_id = None, m_linked = ''[]'',
      m_created_at = ''2026-01-01T00:00:00+00:00'', m_updated_at = ''2026-01-01T00:00:00+00:00'',
      m_expires_at = None, m_deleted_at = None\<rparr>"

definition sample_args :: "string \<Rightarrow> string option \<Rightarrow> memory_args" where
  "sample_args content key =
     \<lparr>na_id = None, na_agent_id = ''ann'', na_workgroup_id = ''w1'', na_memory_type = ''semantic'',
      na_access_scope = Some ''workgroup'', na_content = content, na_memory_key = key,
      na_importance = None, na_utility = None, na_linked = None, na_causal_parent_id = None,
      na_expires_at = None\<rparr>"

end
