(* ===== verification/Access.thy ===== *)
theory Access
  imports MemoryStore
begin

text \<open>
  \<open>memory/grants.py\<close> and \<open>memory/access.py\<close>: the table of memory grants, the workgroups a
  caller can read through them, and the two access checks. A \<open>SELECT\<close> without
  \<open>ORDER BY\<close> answers the rows in insertion order.
\<close>

section \<open>Grants\<close>

record grant_args =
  ga_grantor :: string
  ga_grantee_agent :: "string option"
  ga_grantee_wg :: "string option"
  ga_type_filter :: "string option"
  ga_min_importance :: "rat option"
  ga_permission :: string
  ga_valid_from :: "string option"
  ga_valid_until :: "string option"
  ga_created_by :: string

definition get_grant :: "mem_db \<Rightarrow> string \<Rightarrow> grant option" where
  "get_grant db gid = find (\<lambda>g. g_id g = gid) (grants db)"

definition grant_row :: "string \<Rightarrow> string \<Rightarrow> grant_args \<Rightarrow> grant" where
  "grant_row now gid kw =
     \<lparr>g_id = gid, g_grantor = ga_grantor kw, g_grantee_agent = ga_grantee_agent kw,
      g_grantee_wg = ga_grantee_wg kw, g_type_filter = ga_type_filter kw,
      g_min_importance = get_or (ga_min_importance kw) 0, g_permission = ga_permission kw,
      g_valid_from = get_or (ga_valid_from kw) now, g_valid_until = ga_valid_until kw,
      g_created_by = ga_created_by kw, g_created_at = now\<rparr>"

definition create_grant ::
    "instant \<Rightarrow> string \<Rightarrow> grant_args \<Rightarrow> mem_db \<Rightarrow> db_error + grant option \<times> mem_db" where
  "create_grant t gid kw db =
     (if gid \<in> g_id ` set (grants db) then Inl IntegrityError
      else (let db' = db\<lparr>grants := grants db @ [grant_row (isoformat t) gid kw]\<rparr>
            in Inr (get_grant db' gid, db')))"

text \<open>\<open>cursor.rowcount > 0\<close>\<close>

definition delete_grant :: "string \<Rightarrow> mem_db \<Rightarrow> bool \<times> mem_db" where
  "delete_grant gid db =
     (0 < count_where (\<lambda>g. g_id g = gid) (grants db),
      db\<lparr>grants := delete_where (\<lambda>g. g_id g = gid) (grants db)\<rparr>)"

definition list_grants :: "string option \<Rightarrow> string option \<Rightarrow> mem_db \<Rightarrow> grant list" where
  "list_grants grantor grantee db =
     filter (\<lambda>g. (truthy grantor \<longrightarrow> Some (g_grantor g) = grantor)
              \<and> (truthy grantee \<longrightarrow> g_grantee_wg g = grantee)) (grants db)"

section \<open>Accessible workgroups\<close>

record wg_access =
  wa_workgroup_id :: string
  wa_grant_id :: "string option"
  wa_type_filter :: "string option"
  wa_min_importance :: rat

definition own_access :: "string \<Rightarrow> wg_access" where
  "own_access wg = \<lparr>wa_workgroup_id = wg, wa_grant_id = None, wa_type_filter = None,
     wa_min_importance = 0\<rparr>"

definition permission_matches :: "string \<Rightarrow> string \<Rightarrow> bool" where
  "permission_matches wanted p =
     (if wanted = ''read'' then p = ''read'' \<or> p = ''read_write''
      else if wanted = ''write'' then p = ''write'' \<or> p = ''read_write''
      else p = wanted)"

definition grant_active :: "string \<Rightarrow> grant \<Rightarrow> bool" where
  "grant_active now g =
     (g_valid_from g \<le> now \<and> (case g_valid_until g of None \<Rightarrow> True | Some u \<Rightarrow> now < u))"

definition grantee_matches :: "string \<Rightarrow> string option \<Rightarrow> grant \<Rightarrow> bool" where
  "grantee_matches wg agent g =
     (g_grantee_wg g = Some wg \<or> (truthy agent \<and> g_grantee_agent g = agent))"

definition grant_applies :: "string \<Rightarrow> string \<Rightarrow> string option \<Rightarrow> string \<Rightarrow> grant \<Rightarrow> bool" where
  "grant_applies now wg agent perm g =
     (grant_active now g \<and> permission_matches perm (g_permission g) \<and> grantee_matches wg agent g)"

definition grant_access :: "grant \<Rightarrow> wg_access" where
  "grant_access g = \<lparr>wa_workgroup_id = g_grantor g, wa_grant_id = Some (g_id g),
     wa_type_filter = g_type_filter g, wa_min_importance = g_min_importance g\<rparr>"

definition get_accessible_workgroups ::
    "instant \<Rightarrow> mem_db \<Rightarrow> string \<Rightarrow> string option \<Rightarrow> bool \<Rightarrow> string \<Rightarrow> wg_access list" where
  "get_accessible_workgroups t db wg agent include_grants perm =
     own_access wg #
     (if \<not> include_grants then []
      else map grant_access (filter (grant_applies (isoformat t) wg agent perm) (grants db)))"

section \<open>Access to one memory\<close>

text \<open>
  The loop over the accessible workgroups: the first entry of the memory's workgroup
  decides, the later ones are not looked at.
\<close>

fun first_entry_decides :: "memory \<Rightarrow> wg_access list \<Rightarrow> bool" where
  "first_entry_decides m [] = False"
| "first_entry_decides m (e # es) =
     (if wa_workgroup_id e = m_workgroup_id m then
        (if m_scope m = ''private'' then False
         else if truthy (wa_type_filter e) \<and> wa_type_filter e \<noteq> Some (m_type m) then False
         else if m_importance m < wa_min_importance e then False
         else True)
      else first_entry_decides m es)"

definition can_access_memory ::
    "instant \<Rightarrow> mem_db \<Rightarrow> memory \<Rightarrow> string \<Rightarrow> string option \<Rightarrow> string \<Rightarrow> bool" where
  "can_access_memory t db m wg agent perm =
     (if m_workgroup_id m = wg then
        (if m_scope m = ''private'' then agent \<noteq> None \<and> Some (m_agent_id m) = agent else True)
      else first_entry_decides m (get_accessible_workgroups t db wg agent True perm))"

definition can_modify_memory :: "memory \<Rightarrow> string \<Rightarrow> string option \<Rightarrow> bool \<Rightarrow> bool" where
  "can_modify_memory m wg agent is_admin =
     (if m_workgroup_id m \<noteq> wg then False
      else if is_admin then True
      else agent \<noteq> None \<and> Some (m_agent_id m) = agent)"

section \<open>What a grant allows\<close>

text \<open>The specification of a grant: which memories it lets its grantee see.\<close>

definition grant_covers :: "grant \<Rightarrow> memory \<Rightarrow> bool" where
  "grant_covers g m =
     (g_grantor g = m_workgroup_id m \<and> m_scope m \<noteq> ''private''
      \<and> (truthy (g_type_filter g) \<longrightarrow> g_type_filter g = Some (m_type m))
      \<and> g_min_importance g \<le> m_importance m)"

lemma first_entry_decides_grants:
  "first_entry_decides m (map grant_access gs) \<longleftrightarrow>
    (case find (\<lambda>g. g_grantor g = m_workgroup_id m) gs of
       None \<Rightarrow> False | Some g \<Rightarrow> grant_covers g m)"
  by (induction gs) (auto simp: grant_access_def grant_covers_def)

lemma can_access_memory_cross:
  assumes "m_workgroup_id m \<noteq> wg"
  shows "can_access_memory t db m wg agent perm \<longleftrightarrow>
    (case find (\<lambda>g. g_grantor g = m_workgroup_id m)
            (filter (grant_applies (isoformat t) wg agent perm) (grants db)) of
       None \<Rightarrow> False | Some g \<Rightarrow> grant_covers g m)"
  using assms first_entry_decides_grants
  by (simp add: can_access_memory_def get_accessible_workgroups_def own_access_def)

lemma can_access_memory_crossD:
  assumes "m_workgroup_id m \<noteq> wg" "can_access_memory t db m wg agent perm"
  obtains g where "g \<in> set (grants db)" "grant_applies (isoformat t) wg agent perm g"
    "grant_covers g m"
  using assms by (auto simp: can_access_memory_cross split: option.splits dest!: find_SomeD)

lemma can_access_memory_one_grant:
  assumes "m_workgroup_id m \<noteq> wg" "g \<in> set (grants db)"
    "grant_applies (isoformat t) wg agent perm g" "grant_covers g m"
    "\<And>g'. g' \<in> set (grants db) \<Longrightarrow> grant_applies (isoformat t) wg agent perm g' \<Longrightarrow>
      g_grantor g' = g_grantor g \<Longrightarrow> g' = g"
  shows "can_access_memory t db m wg agent perm"
proof -
  let ?gs = "filter (grant_applies (isoformat t) wg agent perm) (grants db)"
  have "g_grantor g = m_workgroup_id m" using assms(4) by (simp add: grant_covers_def)
  then obtain g' where g': "find (\<lambda>g. g_grantor g = m_workgroup_id m) ?gs = Some g'"
    using assms(2,3) by (cases "find (\<lambda>g. g_grantor g = m_workgroup_id m) ?gs")
      (auto simp: find_None_iff_ball)
  from find_SomeD [OF this] have "g' = g"
    using assms(5) \<open>g_grantor g = m_workgroup_id m\<close> by auto
  then show ?thesis using assms(1,4) g' by (simp add: can_access_memory_cross)
qed

lemma create_grant_inv:
  "mem_inv db \<Longrightarrow> create_grant t gid kw db = Inr (g, db') \<Longrightarrow> mem_inv db'"
  by (auto simp: create_grant_def mem_inv_def Let_def grant_row_def image_iff split: if_splits)

lemma delete_grant_inv: "mem_inv db \<Longrightarrow> mem_inv (snd (delete_grant gid db))"
  by (auto simp: delete_grant_def mem_inv_def delete_where_def distinct_map_filter_key)

lemma get_grant_create:
  "create_grant t gid kw db = Inr (g, db') \<Longrightarrow> g = Some (grant_row (isoformat t) gid kw)"
  by (auto simp: create_grant_def Let_def get_grant_def find_append find_fresh_key grant_row_def
      split: if_splits)

lemma get_grant_delete: "get_grant (snd (delete_grant gid db)) gid = None"
  by (simp add: get_grant_def delete_grant_def find_None_iff_ball)

lemma get_grant_delete_other:
  "gid' \<noteq> gid \<Longrightarrow> get_grant (snd (delete_grant gid db)) gid' = get_grant db gid'"
  by (simp add: get_grant_def delete_grant_def find_delete_where)

section \<open>A sample grant\<close>

definition sample_grant :: "string \<Rightarrow> string \<Rightarrow> string \<Rightarrow> string option \<Rightarrow> grant" where
  "sample_grant gid grantor grantee tf =
     \<lparr>g_id = gid, g_grantor = grantor, g_grantee_agent = None, g_grantee_wg = Some grantee,
      g_type_filter = tf, g_min_importance = 0, g_permission = ''read'',
      g_valid_from = ''2025-12-01T00:00:00+00:00'', g_valid_until = None, g_created_by = ''root'',
      g_created_at = ''2025-12-01T00:00:00+00:00''\<rparr>"

end
