(* ===== verification/MemorySearch.thy ===== *)
theory MemorySearch
  imports Access
begin

text \<open>
  \<open>memory/search.py\<close>: the filtered query of one workgroup, and the search over the caller's
  own workgroup and the granted ones, with its ranking and its effect on the access counts.
\<close>

section \<open>One workgroup\<close>

record search_query =
  sq_agent_id :: "string option"
  sq_memory_type :: "string option"
  sq_access_scope :: "string option"
  sq_min_importance :: "rat option"
  sq_min_utility :: "rat option"
  sq_since :: "string option"
  sq_until :: "string option"
  sq_content_contains :: "string option"
  sq_limit :: int

text \<open>The \<open>WHERE\<close> clause. Expiry is compared as text, and concerns working memories only.\<close>

definition unexpired :: "string \<Rightarrow> memory \<Rightarrow> bool" where
  "unexpired now m =
     ((case m_expires_at m of None \<Rightarrow> True | Some e \<Rightarrow> now < e) \<or> m_type m \<noteq> ''working'')"

definition scope_visible :: "string option \<Rightarrow> bool \<Rightarrow> memory \<Rightarrow> bool" where
  "scope_visible caller exclude_private m =
     (if exclude_private then m_scope m \<noteq> ''private''
      else if truthy caller then m_scope m \<noteq> ''private'' \<or> Some (m_agent_id m) = caller
      else True)"

definition passes_filters :: "search_query \<Rightarrow> memory \<Rightarrow> bool" where
  "passes_filters q m =
     ((truthy (sq_agent_id q) \<longrightarrow> Some (m_agent_id m) = sq_agent_id q)
      \<and> (truthy (sq_memory_type q) \<longrightarrow> Some (m_type m) = sq_memory_type q)
      \<and> (truthy (sq_access_scope q) \<longrightarrow> Some (m_scope m) = sq_access_scope q)
      \<and> (case sq_min_importance q of None \<Rightarrow> True | Some i \<Rightarrow> i \<le> m_importance m)
      \<and> (case sq_min_utility q of None \<Rightarrow> True | Some u \<Rightarrow> u \<le> m_utility m)
      \<and> (truthy (sq_since q) \<longrightarrow> the (sq_since q) \<le> m_created_at m)
      \<and> (truthy (sq_until q) \<longrightarrow> m_created_at m \<le> the (sq_until q))
      \<and> (truthy (sq_content_contains q) \<longrightarrow>
           sql_like (''%'' @ the (sq_content_contains q) @ ''%'') (m_content m)))"

definition search_where ::
    "string \<Rightarrow> string \<Rightarrow> string option \<Rightarrow> bool \<Rightarrow> search_query \<Rightarrow> memory \<Rightarrow> bool" where
  "search_where now wg caller exclude_private q m =
     (m_workgroup_id m = wg \<and> live m \<and> unexpired now m
      \<and> scope_visible caller exclude_private m \<and> passes_filters q m)"

text \<open>\<open>ORDER BY utility DESC, created_at DESC LIMIT ?\<close>\<close>

definition utility_created_desc :: "memory \<Rightarrow> memory \<Rightarrow> bool" where
  "utility_created_desc a b =
     (m_utility b < m_utility a \<or> (m_utility a = m_utility b \<and> m_created_at b \<le> m_created_at a))"

definition query_workgroup ::
    "string \<Rightarrow> string \<Rightarrow> string option \<Rightarrow> bool \<Rightarrow> search_query \<Rightarrow> mem_db \<Rightarrow> memory list" where
  "query_workgroup now wg caller exclude_private q db =
     sql_limit (sq_limit q) (sort_by utility_created_desc
       (filter (search_where now wg caller exclude_private q) (memories db)))"

section \<open>The search\<close>

text \<open>A result row with the internal fields \<open>_grant_id\<close> and \<open>_source_workgroup_id\<close>.\<close>

record hit =
  h_memory :: memory
  h_grant_id :: "string option"
  h_source :: "string option"

definition own_hit :: "memory \<Rightarrow> hit" where
  "own_hit m = \<lparr>h_memory = m, h_grant_id = None, h_source = None\<rparr>"

definition grant_hit :: "wg_access \<Rightarrow> memory \<Rightarrow> hit" where
  "grant_hit e m = \<lparr>h_memory = m, h_grant_id = wa_grant_id e, h_source = Some (wa_workgroup_id e)\<rparr>"

text \<open>The filters for a granted workgroup: the grant's type filter replaces the caller's.\<close>

definition grant_query :: "wg_access \<Rightarrow> search_query \<Rightarrow> search_query" where
  "grant_query e q =
     q\<lparr>sq_memory_type := (if truthy (wa_type_filter e) then wa_type_filter e else sq_memory_type q),
       sq_min_importance := Some (max (wa_min_importance e) (get_or (sq_min_importance q) 0))\<rparr>"

definition hits_of_grant :: "string \<Rightarrow> string option \<Rightarrow> search_query \<Rightarrow> mem_db \<Rightarrow> wg_access \<Rightarrow> hit list" where
  "hits_of_grant now caller q db e =
     map (grant_hit e) (query_workgroup now (wa_workgroup_id e) caller True (grant_query e q) db)"

text \<open>The two calls of \<open>results.sort\<close>, the second one stable on the first.\<close>

definition rank_key :: "hit \<Rightarrow> hit \<Rightarrow> bool" where
  "rank_key a b =
     (m_utility (h_memory b) < m_utility (h_memory a)
      \<or> (m_utility (h_memory a) = m_utility (h_memory b)
         \<and> m_created_at (h_memory a) \<le> m_created_at (h_memory b)))"

definition rank_utility :: "hit \<Rightarrow> hit \<Rightarrow> bool" where
  "rank_utility a b = (m_utility (h_memory b) \<le> m_utility (h_memory a))"

definition touch_ids :: "string \<Rightarrow> string list \<Rightarrow> mem_db \<Rightarrow> mem_db" where
  "touch_ids now ids db =
     db\<lparr>memories := update_where (\<lambda>m. m_id m \<in> set ids)
          (\<lambda>m. m\<lparr>m_access_count := m_access_count m + 1, m_last_accessed_at := Some now\<rparr>)
          (memories db)\<rparr>"

text \<open>\<open>results[:limit]\<close> with a negative limit would drop rows at the end; the route admits
  limits from 1 to 100 only.\<close>

definition py_prefix :: "int \<Rightarrow> 'a list \<Rightarrow> 'a list" where
  "py_prefix n xs = (if 0 \<le> n then take (nat n) xs else take (length xs - nat (- n)) xs)"

definition collect_hits ::
    "string \<Rightarrow> string \<Rightarrow> string option \<Rightarrow> search_query \<Rightarrow> wg_access list \<Rightarrow> mem_db \<Rightarrow> hit list" where
  "collect_hits now wg caller q granted db =
     map own_hit (query_workgroup now wg caller False q db)
     @ concat (map (hits_of_grant now caller q db) granted)"

definition search_memories ::
    "instant \<Rightarrow> string \<Rightarrow> string option \<Rightarrow> search_query \<Rightarrow> wg_access list \<Rightarrow> mem_db \<Rightarrow>
      hit list \<times> mem_db" where
  "search_memories t wg caller q granted db =
     (let now = isoformat t;
          ranked = sort_by rank_utility (sort_by rank_key (collect_hits now wg caller q granted db));
          results = py_prefix (sq_limit q) ranked
      in (results,
          if results = [] then db else touch_ids now (map (m_id \<circ> h_memory) results) db))"

section \<open>Ranking\<close>

text \<open>Sorting a list that is already sorted does nothing, so the first sort decides the order.\<close>

lemma insert_by_sorted: "sorted_wrt le (x # xs) \<Longrightarrow> insert_by le x xs = x # xs"
  by (cases xs) auto

lemma sort_by_sorted: "sorted_wrt le xs \<Longrightarrow> sort_by le xs = xs"
  by (induction xs) (auto simp: insert_by_sorted)

lemma rank_total: "rank_key a b \<or> rank_key b a"
  by (auto simp: rank_key_def)

lemma rank_trans: "rank_key a b \<Longrightarrow> rank_key b c \<Longrightarrow> rank_key a c"
  by (auto simp: rank_key_def)

lemma sorted_rank: "sorted_wrt rank_key (sort_by rank_key hs)"
  by (rule sorted_sort_by) (use rank_total rank_trans in blast)+

lemma utility_created_total: "utility_created_desc a b \<or> utility_created_desc b a"
  by (auto simp: utility_created_desc_def)

lemma utility_created_trans:
  "utility_created_desc a b \<Longrightarrow> utility_created_desc b c \<Longrightarrow> utility_created_desc a c"
  by (auto simp: utility_created_desc_def)

lemma sorted_utility_created: "sorted_wrt utility_created_desc (sort_by utility_created_desc ms)"
  by (rule sorted_sort_by) (use utility_created_total utility_created_trans in blast)+

lemma two_sorts: "sort_by rank_utility (sort_by rank_key hs) = sort_by rank_key hs"
  by (intro sort_by_sorted sorted_wrt_mono_rel [OF _ sorted_rank])
    (auto simp: rank_key_def rank_utility_def)

lemma search_results:
  assumes "0 \<le> sq_limit q"
  shows "fst (search_memories t wg caller q granted db) =
    take (nat (sq_limit q)) (sort_by rank_key (collect_hits (isoformat t) wg caller q granted db))"
  using assms by (simp add: search_memories_def two_sorts py_prefix_def Let_def)

lemma set_search_results:
  assumes "0 \<le> sq_limit q" "h \<in> set (fst (search_memories t wg caller q granted db))"
  shows "h \<in> set (collect_hits (isoformat t) wg caller q granted db)"
  using assms by (auto simp: search_results dest: in_set_takeD)

lemma query_workgroup_where:
  "m \<in> set (query_workgroup now wg caller ex q db) \<Longrightarrow>
    m \<in> set (memories db) \<and> search_where now wg caller ex q m"
  using set_sql_limit by (fastforce simp: query_workgroup_def)

text \<open>
  The first \<open>k\<close> elements of a sorted list are at least as good as a bound that \<open>k\<close> of its
  elements reach.
\<close>

lemma top_k_reach:
  fixes u :: "'a \<Rightarrow> 'b::linorder"
  assumes "sorted_wrt (\<lambda>a b. u b \<le> u a) xs" "k \<le> length (filter (\<lambda>x. v \<le> u x) xs)"
    "x \<in> set (take k xs)"
  shows "v \<le> u x"
  using assms
proof (induction xs arbitrary: k)
  case (Cons a xs)
  show ?case
  proof (cases "v \<le> u a")
    case True
    then show ?thesis using Cons by (cases k) auto
  next
    case False
    then have "filter (\<lambda>x. v \<le> u x) (a # xs) = []"
      using Cons.prems(1) by (auto simp: filter_empty_conv)
    then show ?thesis using Cons.prems(2,3) by simp
  qed
qed simp

lemma count_reach_sort_by:
  "length (filter P (sort_by le xs)) = length (filter P xs)"
proof -
  have "length (filter P (insert_by le x ys)) = length (filter P (x # ys))" for x ys
    by (induction ys) auto
  then show ?thesis by (induction xs) auto
qed

text \<open>A row that a limited query leaves out is no better than the \<open>limit\<close> rows it answers.\<close>

lemma query_workgroup_cut:
  assumes "0 \<le> sq_limit q" "m \<in> set (memories db)" "search_where now wg caller ex q m"
    "m \<notin> set (query_workgroup now wg caller ex q db)"
  shows "length (query_workgroup now wg caller ex q db) = nat (sq_limit q) \<and>
    (\<forall>r \<in> set (query_workgroup now wg caller ex q db). m_utility m \<le> m_utility r)"
proof -
  let ?s = "sort_by utility_created_desc (filter (search_where now wg caller ex q) (memories db))"
  let ?k = "nat (sq_limit q)"
  have q: "query_workgroup now wg caller ex q db = take ?k ?s"
    using assms(1) by (simp add: query_workgroup_def sql_limit_def)
  have "m \<in> set ?s" using assms(2,3) by simp
  then have m: "m \<in> set (drop ?k ?s)"
    using assms(4) q by (metis Un_iff append_take_drop_id set_append)
  then have "length (take ?k ?s) = ?k" by (cases "?k \<le> length ?s") auto
  moreover have "m_utility m \<le> m_utility r" if "r \<in> set (take ?k ?s)" for r
  proof -
    have "utility_created_desc r m"
      using sorted_utility_created [of "filter (search_where now wg caller ex q) (memories db)"] m that
      by (metis append_take_drop_id sorted_wrt_append)
    then show ?thesis by (auto simp: utility_created_desc_def)
  qed
  ultimately show ?thesis using q by auto
qed

section \<open>The access counts\<close>

lemma search_db:
  "snd (search_memories t wg caller q granted db) =
    touch_ids (isoformat t)
      (map (m_id \<circ> h_memory) (fst (search_memories t wg caller q granted db))) db"
proof -
  have "touch_ids n [] db = db" for n
    by (simp add: touch_ids_def update_where_id)
  then show ?thesis by (simp add: search_memories_def Let_def)
qed

lemma touch_ids_inv: "mem_inv db \<Longrightarrow> mem_inv (touch_ids now ids db)"
  unfolding touch_ids_def by (rule mem_inv_update) (auto simp: row_ok_def)

lemma search_inv: "mem_inv db \<Longrightarrow> mem_inv (snd (search_memories t wg caller q granted db))"
  by (simp add: search_db touch_ids_inv)

lemma find_id_update_where:
  assumes "\<And>m. m_id (f m) = m_id m"
  shows "find (\<lambda>m. m_id m = mid) (update_where P f rs) =
    map_option (\<lambda>m. if P m then f m else m) (find (\<lambda>m. m_id m = mid) rs)"
  using assms by (induction rs) auto

section \<open>What a search answers\<close>

text \<open>
  A search answers at most \<open>limit\<close> hits, in descending order of utility and,
  among equal utilities, in ascending order of creation time (the second of the two sorts
  leaves the order of the first); and it adds one to the access count of exactly the
  memories it answers, however many grants led to them.
\<close>

theorem search_ranked_and_counted:
  assumes "0 \<le> sq_limit q" and "search_memories t wg caller q granted db = (hs, db')"
  shows "length hs \<le> nat (sq_limit q) \<and> sorted_wrt rank_key hs \<and>
    find (\<lambda>m. m_id m = mid) (memories db') =
      map_option (\<lambda>m. if mid \<in> (m_id \<circ> h_memory) ` set hs
        then m\<lparr>m_access_count := m_access_count m + 1, m_last_accessed_at := Some (isoformat t)\<rparr>
        else m) (find (\<lambda>m. m_id m = mid) (memories db))"
proof (intro conjI)
  have hs: "hs = fst (search_memories t wg caller q granted db)"
    and db': "db' = touch_ids (isoformat t) (map (m_id \<circ> h_memory) hs) db"
    using search_db [of t wg caller q granted db] assms(2) by simp_all
  show "length hs \<le> nat (sq_limit q)" using hs assms(1) by (simp add: search_results)
  show "sorted_wrt rank_key hs"
    unfolding hs search_results [OF assms(1)] using sorted_rank by (rule sorted_wrt_take)
  show "find (\<lambda>m. m_id m = mid) (memories db') =
      map_option (\<lambda>m. if mid \<in> (m_id \<circ> h_memory) ` set hs
        then m\<lparr>m_access_count := m_access_count m + 1, m_last_accessed_at := Some (isoformat t)\<rparr>
        else m) (find (\<lambda>m. m_id m = mid) (memories db))"
    unfolding db' touch_ids_def
    by (cases "find (\<lambda>m. m_id m = mid) (memories db)")
      (auto simp: find_id_update_where dest: find_SomeD)
qed


text \<open>
  A search misses nothing better: a memory of the caller's own workgroup that
  meets the \<open>WHERE\<close> clause and is not answered was crowded out by \<open>limit\<close> hits of
  at least its utility.
\<close>

theorem search_own_complete:
  assumes "0 \<le> sq_limit q" and "m \<in> set (memories db)"
    and "search_where (isoformat t) wg caller False q m"
    and "m \<notin> h_memory ` set (fst (search_memories t wg caller q granted db))"
  shows "length (fst (search_memories t wg caller q granted db)) = nat (sq_limit q) \<and>
    (\<forall>h \<in> set (fst (search_memories t wg caller q granted db)). m_utility m \<le> m_utility (h_memory h))"
proof -
  let ?c = "collect_hits (isoformat t) wg caller q granted db"
  let ?own = "query_workgroup (isoformat t) wg caller False q db"
  let ?k = "nat (sq_limit q)"
  let ?reach = "\<lambda>h. m_utility m \<le> m_utility (h_memory h)"
  have own: "map own_hit ?own @ concat (map (hits_of_grant (isoformat t) caller q db) granted) = ?c"
    by (simp add: collect_hits_def)
  note r = search_results [OF assms(1), of t wg caller granted db]
  have sorted: "sorted_wrt (\<lambda>a b. m_utility (h_memory b) \<le> m_utility (h_memory a)) (sort_by rank_key ?c)"
    by (rule sorted_wrt_mono_rel [OF _ sorted_rank]) (auto simp: rank_key_def)
  show ?thesis
  proof (cases "m \<in> set ?own")
    case True
    then have "own_hit m \<in> set (sort_by rank_key ?c)" by (simp add: collect_hits_def)
    moreover have "own_hit m \<notin> set (take ?k (sort_by rank_key ?c))"
      using assms(4) r by (force simp: own_hit_def)
    ultimately have d: "own_hit m \<in> set (drop ?k (sort_by rank_key ?c))"
      by (metis Un_iff append_take_drop_id set_append)
    then have "length (take ?k (sort_by rank_key ?c)) = ?k"
      by (cases "?k \<le> length ?c") auto
    moreover have "?reach h" if "h \<in> set (take ?k (sort_by rank_key ?c))" for h
    proof -
      have "m_utility (h_memory (own_hit m)) \<le> m_utility (h_memory h)"
        using sorted d that by (metis (no_types, lifting) append_take_drop_id sorted_wrt_append)
      then show ?thesis by (simp add: own_hit_def)
    qed
    ultimately show ?thesis using r by auto
  next
    case False
    from query_workgroup_cut [OF assms(1,2,3) this]
    have cut: "length ?own = ?k" "\<forall>r \<in> set ?own. m_utility m \<le> m_utility r" by simp_all
    then have "filter ?reach (map own_hit ?own) = map own_hit ?own"
      by (auto simp: own_hit_def filter_id_conv)
    then have k: "?k \<le> length (filter ?reach ?c)"
      using cut(1) by (simp add: own [symmetric])
    then have "?k \<le> length ?c" using length_filter_le order_trans by blast
    moreover have "?reach h" if "h \<in> set (take ?k (sort_by rank_key ?c))" for h
      using top_k_reach [OF sorted _ that] k by (simp add: count_reach_sort_by)
    ultimately show ?thesis using r by auto
  qed
qed

section \<open>Concrete instances\<close>

text \<open>
  Workgroup \<open>w1\<close> has a public and a private memory of \<open>ann\<close> and a private one of
  \<open>bob\<close>; \<open>w2\<close> grants \<open>w1\<close> its semantic memories.
\<close>

definition sample_db :: mem_db where
  "sample_db =
     \<lparr>memories = [sample_memory ''a'' ''ann'' ''w1'' ''workgroup'' (1/2),
                  sample_memory ''b'' ''bob'' ''w1'' ''private'' (9/10),
                  sample_memory ''c'' ''cat'' ''w2'' ''workgroup'' (7/10),
                  sample_memory ''d'' ''ann'' ''w1'' ''private'' (1/5)],
      grants = [sample_grant ''g'' ''w2'' ''w1'' (Some ''semantic'')], access_log = []\<rparr>"

definition sample_query :: "int \<Rightarrow> search_query" where
  "sample_query n =
     \<lparr>sq_agent_id = None, sq_memory_type = None, sq_access_scope = None, sq_min_importance = None,
      sq_min_utility = None, sq_since = None, sq_until = None, sq_content_contains = None,
      sq_limit = n\<rparr>"

definition sample_granted :: "wg_access list" where
  "sample_granted = filter (\<lambda>e. wa_grant_id e \<noteq> None)
     (get_accessible_workgroups sample_time sample_db ''w1'' (Some ''ann'') True ''read'')"

definition sample_hits :: "int \<Rightarrow> hit list" where
  "sample_hits n = fst (search_memories sample_time ''w1'' (Some ''ann'') (sample_query n)
     sample_granted sample_db)"

lemma sample_hits_ids: "map (m_id \<circ> h_memory) (sample_hits 2) = [''c'', ''a'']"
  by code_simp

theorem search_ranked_and_counted_witness:
  "length (sample_hits 2) \<le> 2 \<and> sorted_wrt rank_key (sample_hits 2)
   \<and> map_option m_access_count (find (\<lambda>m. m_id m = ''c'')
        (memories (snd (search_memories sample_time ''w1'' (Some ''ann'') (sample_query 2)
           sample_granted sample_db)))) = Some 1"
proof -
  have "0 \<le> sq_limit (sample_query 2)" "''c'' \<in> (m_id \<circ> h_memory) ` set (sample_hits 2)"
    "map_option m_access_count (find (\<lambda>m. m_id m = ''c'') (memories sample_db)) = Some 0"
    "nat (sq_limit (sample_query 2)) = 2"
    by code_simp+
  with search_ranked_and_counted [of "sample_query 2" sample_time "''w1''" "Some ''ann''"
      sample_granted sample_db "sample_hits 2" _ "''c''", OF _ surjective_pairing
      [of "search_memories sample_time ''w1'' (Some ''ann'') (sample_query 2) sample_granted sample_db",
        folded sample_hits_def]]
  show ?thesis by (auto simp: option.map_comp comp_def)
qed


theorem search_own_complete_witness:
  "length (sample_hits 2) = 2 \<and> \<not> (\<exists>h \<in> set (sample_hits 2). m_utility (h_memory h) < 1/5)"
proof -
  let ?m = "sample_memory ''d'' ''ann'' ''w1'' ''private'' (1/5)"
  have h: "0 \<le> sq_limit (sample_query 2)" "?m \<in> set (memories sample_db)"
    "search_where (isoformat sample_time) ''w1'' (Some ''ann'') False (sample_query 2) ?m"
    "?m \<notin> h_memory ` set (sample_hits 2)" "nat (sq_limit (sample_query 2)) = 2" "m_utility ?m = 1/5"
    by code_simp+
  from search_own_complete [OF h(1-3), of sample_granted, folded sample_hits_def, OF h(4)]
  show ?thesis unfolding h(5,6) by (simp add: not_less)
qed

end
