(* ===== verification/AccessLog.thy ===== *)
theory AccessLog
  imports MemoryStore
begin

text \<open>
  \<open>memory/access_log.py\<close>: the log of memory operations, which is also what the write and
  the feedback rate limits count.
\<close>

record log_args =
  la_agent_id :: string
  la_workgroup_id :: string
  la_action :: string
  la_memory_ids :: "string list option"
  la_query_text :: "string option"
  la_result_count :: "int option"
  la_grant_id :: "string option"
  la_source_workgroup_id :: "string option"
  la_execution_id :: "string option"
  la_trace_id :: "string option"
  la_span_id :: "string option"
  la_latency_ms :: "rat option"
  la_status :: string
  la_error_type :: "string option"

definition log_call :: "string \<Rightarrow> string \<Rightarrow> string \<Rightarrow> log_args" where
  "log_call agent wg action =
     \<lparr>la_agent_id = agent, la_workgroup_id = wg, la_action = action, la_memory_ids = None,
      la_query_text = None, la_result_count = None, la_grant_id = None,
      la_source_workgroup_id = None, la_execution_id = None, la_trace_id = None,
      la_span_id = None, la_latency_ms = None, la_status = ''ok'', la_error_type = None\<rparr>"

text \<open>\<open>json.dumps(memory_ids) if memory_ids else None\<close>\<close>

definition dump_ids :: "string list option \<Rightarrow> string option" where
  "dump_ids ids = (case ids of None \<Rightarrow> None | Some xs \<Rightarrow>
     if xs = [] then None else Some (json_str_list xs))"

definition log_row :: "string \<Rightarrow> string \<Rightarrow> log_args \<Rightarrow> log_entry" where
  "log_row now lid a =
     \<lparr>l_id = lid, l_agent_id = la_agent_id a, l_workgroup_id = la_workgroup_id a,
      l_action = la_action a, l_memory_ids = dump_ids (la_memory_ids a),
      l_query_text = la_query_text a, l_result_count = la_result_count a,
      l_grant_id = la_grant_id a, l_source_workgroup_id = la_source_workgroup_id a,
      l_execution_id = la_execution_id a, l_trace_id = la_trace_id a, l_span_id = la_span_id a,
      l_latency_ms = la_latency_ms a, l_status = la_status a, l_error_type = la_error_type a,
      l_created_at = now\<rparr>"

definition write_access_log ::
    "instant \<Rightarrow> string \<Rightarrow> log_args \<Rightarrow> mem_db \<Rightarrow> db_error + string \<times> mem_db" where
  "write_access_log t lid a db =
     (if lid \<in> l_id ` set (access_log db) then Inl IntegrityError
      else Inr (lid, db\<lparr>access_log := access_log db @ [log_row (isoformat t) lid a]\<rparr>))"

definition created_desc :: "log_entry \<Rightarrow> log_entry \<Rightarrow> bool" where
  "created_desc a b = (l_created_at b \<le> l_created_at a)"

definition get_access_logs ::
    "string option \<Rightarrow> string option \<Rightarrow> string option \<Rightarrow> int \<Rightarrow> mem_db \<Rightarrow> log_entry list" where
  "get_access_logs agent action since limit db =
     sql_limit limit (sort_by created_desc
       (filter (\<lambda>e. (truthy agent \<longrightarrow> Some (l_agent_id e) = agent)
                  \<and> (truthy action \<longrightarrow> Some (l_action e) = action)
                  \<and> (truthy since \<longrightarrow> the since \<le> l_created_at e)) (access_log db)))"

text \<open>\<open>memory_ids LIKE '%' || memory_id || '%'\<close>; a missing list never matches.\<close>

definition ids_like :: "string \<Rightarrow> string option \<Rightarrow> bool" where
  "ids_like mid ids =
     (case ids of None \<Rightarrow> False | Some s \<Rightarrow> sql_like (''%'' @ mid @ ''%'') s)"

definition counts_for :: "string option \<Rightarrow> string \<Rightarrow> string option \<Rightarrow> log_entry \<Rightarrow> bool" where
  "counts_for agent action mid e =
     (l_action e = action
      \<and> (truthy agent \<longrightarrow> Some (l_agent_id e) = agent)
      \<and> (truthy mid \<longrightarrow> ids_like (the mid) (l_memory_ids e)))"

definition count_recent_actions ::
    "instant \<Rightarrow> string option \<Rightarrow> string \<Rightarrow> string option \<Rightarrow> int \<Rightarrow> mem_db \<Rightarrow> nat" where
  "count_recent_actions t agent action mid window db =
     (let since = isoformat (minus_seconds t window)
      in count_where (\<lambda>e. since \<le> l_created_at e \<and> counts_for agent action mid e)
           (access_log db))"

section \<open>Counting the entries of a window\<close>

text \<open>
  An entry written at time \<open>u\<close> is counted at time \<open>t\<close> exactly when it is at most
  \<open>window\<close> seconds old: the comparison of the texts is the comparison of the times.
\<close>

lemma count_after_write:
  assumes "write_access_log u lid a db = Inr (i, db')"
    and "valid_instant u" "valid_instant (minus_seconds t window)"
  shows "count_recent_actions t agent action mid window db' =
    count_recent_actions t agent action mid window db +
    (if minus_seconds t window \<le> u \<and> counts_for agent action mid (log_row (isoformat u) lid a)
     then 1 else 0)"
  using assms isoformat_le_iff [OF assms(3,2)]
  by (auto simp: write_access_log_def count_recent_actions_def count_where_append count_where_Cons
      log_row_def split: if_splits)

lemma write_access_log_tables [simp]:
  "write_access_log u lid a db = Inr (i, db') \<Longrightarrow> memories db' = memories db"
  "write_access_log u lid a db = Inr (i, db') \<Longrightarrow> grants db' = grants db"
  by (auto simp: write_access_log_def split: if_splits)

lemma write_access_log_inv:
  "write_access_log u lid a db = Inr (i, db') \<Longrightarrow> mem_inv db' = mem_inv db"
  by (rule mem_inv_same_tables) simp_all

text \<open>A pattern \<open>%w%\<close> without wildcards in \<open>w\<close> finds \<open>w\<close> anywhere in the text.\<close>

lemma sql_like_append: "sql_like w w' \<Longrightarrow> sql_like (''%'') v \<Longrightarrow> sql_like (w @ ''%'') (w' @ v)"
proof (induction w w' rule: sql_like.induct)
  case (2 p ps)
  then show ?case by (cases v) auto
next
  case (3 p ps c t)
  then show ?case by (auto split: if_splits)
qed simp

lemma sql_like_percent [simp]: "sql_like ''%'' v"
  by (induction v) auto

lemma sql_like_skip: "sql_like (CHR ''%'' # ps) v \<Longrightarrow> sql_like (CHR ''%'' # ps) (u @ v)"
  by (induction u) auto

lemma sql_like_self: "sql_like w w"
proof (induction w)
  case (Cons c w)
  then show ?case using sql_like_skip [of w w "[c]"] by (cases w) auto
qed simp

lemma sql_like_infix: "sql_like (''%'' @ w @ ''%'') (a @ w @ b)"
proof -
  have "sql_like (w @ ''%'') (w @ b)"
    by (rule sql_like_append) (simp_all add: sql_like_self)
  then have "sql_like (CHR ''%'' # (w @ ''%'')) (w @ b)"
    by (cases "w @ b") auto
  then show ?thesis using sql_like_skip [of "w @ ''%''" "w @ b" a] by simp
qed

definition plain_char :: "char \<Rightarrow> bool" where
  "plain_char c = (json_char c = [c])"

lemma json_str_plain: "\<forall>c \<in> set s. plain_char c \<Longrightarrow> json_str s = [CHR 0x22] @ s @ [CHR 0x22]"
proof -
  assume a: "\<forall>c \<in> set s. plain_char c"
  have "concat (map json_char s) = s" using a by (induction s) (auto simp: plain_char_def)
  then show ?thesis by (simp add: json_str_def)
qed

text \<open>An entry logged for one memory is found by the search for that memory's id.\<close>

lemma ids_like_logged:
  assumes "\<forall>c \<in> set mid. plain_char c"
  shows "ids_like mid (dump_ids (Some [mid]))"
  using sql_like_infix [of mid "[CHR ''['', CHR 0x22]" "[CHR 0x22, CHR '']'']"]
  by (simp add: ids_like_def dump_ids_def json_str_list_def json_str_plain [OF assms])

end
