(* ===== verification/MemoryTasks.thy ===== *)
theory MemoryTasks
  imports MemorySearch AccessLog
begin

text \<open>
  \<open>memory/tasks.py\<close>: one round of the cleanup of expired working memories and one round
  of the utility decay. The timer loops that call them are left out.
\<close>

section \<open>\<open>MemoryCleanupTask\<close>\<close>

record cleanup_task =
  ct_last_run :: "string option"
  ct_last_count :: nat

definition new_cleanup_task :: cleanup_task where
  "new_cleanup_task = \<lparr>ct_last_run = None, ct_last_count = 0\<rparr>"

definition cleanup_where :: "string \<Rightarrow> memory \<Rightarrow> bool" where
  "cleanup_where now m =
     (m_type m = ''working'' \<and> (case m_expires_at m of None \<Rightarrow> False | Some e \<Rightarrow> e < now) \<and> live m)"

definition cleanup_log :: "nat \<Rightarrow> log_args" where
  "cleanup_log n = (log_call ''system'' ''system'' ''cleanup'')\<lparr>la_result_count := Some (int n)\<rparr>"

text \<open>\<open>run_once\<close>: \<open>t\<close> is the clock at the start, \<open>t2\<close> and \<open>lid\<close> are what the log entry uses.
  A failure to write the log entry is swallowed.\<close>

definition cleanup_run_once ::
    "instant \<Rightarrow> instant \<Rightarrow> string \<Rightarrow> mem_db \<Rightarrow> nat \<times> mem_db \<times> cleanup_task" where
  "cleanup_run_once t t2 lid db =
     (let now = isoformat t;
          count = count_where (cleanup_where now) (memories db);
          db1 = db\<lparr>memories := update_where (cleanup_where now)
                     (\<lambda>m. m\<lparr>m_deleted_at := Some now\<rparr>) (memories db)\<rparr>;
          db2 = (if 0 < count
                 then (case write_access_log t2 lid (cleanup_log count) db1 of
                         Inl _ \<Rightarrow> db1 | Inr (_, db') \<Rightarrow> db')
                 else db1)
      in (count, db2, \<lparr>ct_last_run = Some now, ct_last_count = count\<rparr>))"

definition cleanup_health :: "cleanup_task \<Rightarrow> string option \<times> nat \<times> string" where
  "cleanup_health task =
     (ct_last_run task, ct_last_count task,
      if truthy (ct_last_run task) then ''ok'' else ''not_started'')"

section \<open>\<open>UtilityDecayTask\<close>\<close>

definition seven_days :: int where
  "seven_days = 7 * 86400"

definition decay_where :: "string \<Rightarrow> memory \<Rightarrow> bool" where
  "decay_where cutoff m =
     (live m \<and> (case m_last_accessed_at m of None \<Rightarrow> True | Some a \<Rightarrow> a < cutoff))"

definition decayed :: "rat \<Rightarrow> rat" where
  "decayed u = max (1/10) (u * (99/100))"

definition decay_run_once :: "instant \<Rightarrow> mem_db \<Rightarrow> nat \<times> mem_db" where
  "decay_run_once t db =
     (let cutoff = isoformat (minus_seconds t seven_days)
      in (count_where (decay_where cutoff) (memories db),
          db\<lparr>memories := update_where (decay_where cutoff)
               (\<lambda>m. m\<lparr>m_utility := decayed (m_utility m)\<rparr>) (memories db)\<rparr>))"

section \<open>Preservation of the invariant\<close>

lemma cleanup_memories:
  "cleanup_run_once t t2 lid db = (n, db', task) \<Longrightarrow>
    memories db' = update_where (cleanup_where (isoformat t))
      (\<lambda>m. m\<lparr>m_deleted_at := Some (isoformat t)\<rparr>) (memories db)
    \<and> grants db' = grants db \<and> n = count_where (cleanup_where (isoformat t)) (memories db)"
  by (auto simp: cleanup_run_once_def Let_def split: if_splits sum.splits)

lemma cleanup_inv:
  assumes "mem_inv db" "cleanup_run_once t t2 lid db = (n, db', task)"
  shows "mem_inv db'"
proof -
  have "mem_inv (db\<lparr>memories := update_where (cleanup_where (isoformat t))
      (\<lambda>m. m\<lparr>m_deleted_at := Some (isoformat t)\<rparr>) (memories db)\<rparr>)"
    using assms(1) by (rule mem_inv_update [rotated 5]) (auto simp: row_ok_def)
  then show ?thesis
    using cleanup_memories [OF assms(2)] by (simp add: mem_inv_def)
qed

lemma decayed_bounds: "1/10 \<le> u \<Longrightarrow> decayed u \<le> u" "1/10 \<le> decayed u"
  by (auto simp: decayed_def max_def)

lemma decayed_ok: "row_ok m \<Longrightarrow> row_ok (m\<lparr>m_utility := decayed (m_utility m)\<rparr>)"
  using decayed_bounds [of "m_utility m"] unfolding row_ok_def by simp

lemma decay_inv: "mem_inv db \<Longrightarrow> mem_inv (snd (decay_run_once t db))"
  unfolding decay_run_once_def Let_def snd_conv
  by (rule mem_inv_update) (simp_all add: decayed_ok)

section \<open>What a round does\<close>

lemma cleanup_where_deleted [simp]:
  "\<not> cleanup_where now (m\<lparr>m_deleted_at := Some d\<rparr>)"
  by (simp add: cleanup_where_def)

text \<open>
  A cleanup round at \<open>t\<close> marks as deleted, with the time \<open>t\<close>, exactly the live
  working memories whose expiry text lies before \<open>t\<close>; it leaves every other row as it was,
  reports their number, and a second round at the same time finds nothing.
\<close>

theorem cleanup_exact_and_idempotent:
  assumes "cleanup_run_once t t2 lid db = (n, db', task)"
  shows "memories db' = map (\<lambda>m. if live m \<and> m_type m = ''working'' \<and>
        (\<exists>e. m_expires_at m = Some e \<and> e < isoformat t)
      then m\<lparr>m_deleted_at := Some (isoformat t)\<rparr> else m) (memories db) \<and>
    n = length (filter live (memories db)) - length (filter live (memories db')) \<and>
    fst (cleanup_run_once t t3 lid' db') = 0"
proof (intro conjI)
  let ?P = "cleanup_where (isoformat t)" and ?f = "\<lambda>m. m\<lparr>m_deleted_at := Some (isoformat t)\<rparr>"
  note c = cleanup_memories [OF assms]
  show "memories db' = map (\<lambda>m. if live m \<and> m_type m = ''working'' \<and>
        (\<exists>e. m_expires_at m = Some e \<and> e < isoformat t)
      then m\<lparr>m_deleted_at := Some (isoformat t)\<rparr> else m) (memories db)"
    using c by (auto simp: update_where_def cleanup_where_def split: option.splits)
  have "length (filter live (update_where ?P ?f ms)) + count_where ?P ms = length (filter live ms)" for ms
    by (induction ms) (auto simp: count_where_Cons cleanup_where_def)
  then show "n = length (filter live (memories db)) - length (filter live (memories db'))"
    using c by (metis add_diff_cancel_left')
  have "count_where ?P (update_where ?P ?f ms) = 0" for ms
    by (induction ms) (auto simp: count_where_Cons)
  then show "fst (cleanup_run_once t t3 lid' db') = 0"
    using c by (simp add: cleanup_run_once_def Let_def)
qed

text \<open>
  A decay round never raises a utility and never takes one below 0.1, and it
  leaves a memory that a search answered within the last seven days as it was.
\<close>

theorem decay_bounds:
  assumes "mem_inv db" and "get_memory db mid = Some m"
    and "valid_instant (minus_seconds t seven_days)"
  shows "\<exists>m'. get_memory (snd (decay_run_once t db)) mid = Some m' \<and>
    1/10 \<le> m_utility m' \<and> m_utility m' \<le> m_utility m \<and>
    (\<forall>a. m_last_accessed_at m = Some (isoformat a) \<and> valid_instant a \<and>
       minus_seconds t seven_days \<le> a \<longrightarrow> m' = m)"
proof -
  let ?cut = "isoformat (minus_seconds t seven_days)"
  let ?m' = "if decay_where ?cut m then m\<lparr>m_utility := decayed (m_utility m)\<rparr> else m"
  have "get_memory (snd (decay_run_once t db)) mid = Some ?m'"
    using assms(2) by (simp add: decay_run_once_def Let_def get_memory_update_where)
  moreover have "row_ok m"
    using get_memory_SomeD [OF assms(2)] mem_invD(3) [OF assms(1)] by blast
  moreover have "\<not> decay_where ?cut m"
    if "m_last_accessed_at m = Some (isoformat a)" "valid_instant a" "minus_seconds t seven_days \<le> a" for a
    using that isoformat_less_iff [OF that(2) assms(3)] by (simp add: decay_where_def)
  ultimately show ?thesis
    using decayed_bounds [of "m_utility m"] by (auto simp: row_ok_def)
qed

section \<open>Concrete instances\<close>

definition expiring_db :: mem_db where
  "expiring_db = empty_db\<lparr>memories :=
     [(sample_memory ''a'' ''ann'' ''w1'' ''private'' (1/2))
        \<lparr>m_type := ''working'', m_expires_at := Some ''2025-12-31T00:00:00+00:00''\<rparr>,
      (sample_memory ''b'' ''ann'' ''w1'' ''private'' (1/2))
        \<lparr>m_expires_at := Some ''2025-12-31T00:00:00+00:00''\<rparr>]\<rparr>"

theorem cleanup_exact_and_idempotent_witness:
  "\<exists>n db' task. cleanup_run_once sample_time sample_time ''l'' expiring_db = (n, db', task) \<and> n = 1 \<and>
    map m_deleted_at (memories db') = [Some ''2026-01-01T00:00:00+00:00'', None] \<and>
    fst (cleanup_run_once sample_time sample_time ''l2'' db') = 0"
proof -
  obtain n db' task where c: "cleanup_run_once sample_time sample_time ''l'' expiring_db = (n, db', task)"
    by (metis prod_cases3)
  have "fst (cleanup_run_once sample_time sample_time ''l'' expiring_db) = 1"
    "map m_deleted_at (memories (fst (snd (cleanup_run_once sample_time sample_time ''l'' expiring_db))))
      = [Some ''2026-01-01T00:00:00+00:00'', None]"
    by code_simp+
  then show ?thesis
    using cleanup_exact_and_idempotent [OF c, of sample_time "''l2''"] c by auto
qed

theorem decay_bounds_witness:
  "\<exists>m'. get_memory (snd (decay_run_once sample_time expiring_db)) ''a'' = Some m' \<and>
    1/10 \<le> m_utility m' \<and> m_utility m' \<le> 1/2"
proof -
  let ?m = "(sample_memory ''a'' ''ann'' ''w1'' ''private'' (1/2))
        \<lparr>m_type := ''working'', m_expires_at := Some ''2025-12-31T00:00:00+00:00''\<rparr>"
  have "mem_inv expiring_db" "get_memory expiring_db ''a'' = Some ?m" "m_utility ?m = 1/2"
    "valid_instant (minus_seconds sample_time seven_days)"
    by code_simp+
  with decay_bounds [of expiring_db "''a''" ?m sample_time] show ?thesis by auto
qed

end
