(* ===== verification/Http.thy ===== *)
theory Http
  imports PyText
begin

text \<open>
  What the handlers read of a request, the audit events they emit, and the claims of an
  authenticated caller.
\<close>

section \<open>Requests\<close>

text \<open>Header values; a header that is absent is \<open>None\<close>. The client host is that of the socket.\<close>

record request =
  rq_authorization :: "string option"
  rq_api_key :: "string option"
  rq_session_cookie :: "string option"
  rq_forwarded_for :: "string option"
  rq_user_agent :: "string option"
  rq_traceparent :: "string option"
  rq_client :: "string option"

definition plain_request :: request where
  "plain_request =
     \<lparr>rq_authorization = None, rq_api_key = None, rq_session_cookie = None, rq_forwarded_for = None,
      rq_user_agent = None, rq_traceparent = None, rq_client = None\<rparr>"

text \<open>The address the limits count by: \<open>_get_client_ip\<close>, and the same lines in the middlewares.\<close>

definition get_client_ip :: "request \<Rightarrow> string" where
  "get_client_ip rq =
     (if truthy (rq_forwarded_for rq) then first_forwarded (the (rq_forwarded_for rq))
      else get_or (rq_client rq) ''unknown'')"

text \<open>The detail FastAPI answers for an exception no handler catches.\<close>

definition server_error :: http_exc where
  "server_error = HTTPException 500 ''Internal Server Error''"

section \<open>Audit events\<close>

text \<open>The arguments of a call of \<open>audit_log.log_event\<close>; the insertion into PostgreSQL is outside.\<close>

record audit_event =
  ae_type :: string
  ae_tenant_id :: "string option"
  ae_ip :: "string option"
  ae_user_agent :: "string option"
  ae_detail :: "string option"

section \<open>Claims\<close>

text \<open>
  The claims dictionary of a token or of an API-key or cookie caller. \<open>d.get(k)\<close> is the
  field; a key that is missing and one that holds \<open>None\<close> are both \<open>None\<close>.
\<close>

record claims =
  c_sub :: "string option"
  c_tenant_id :: "string option"
  c_workgroup_id :: "string option"
  c_agent_id :: "string option"
  c_role :: "string option"
  c_type :: "string option"
  c_jti :: "string option"
  c_fp :: "string option"
  c_scopes :: "string list"
  c_iat :: "int option"
  c_exp :: "int option"

definition no_claims :: claims where
  "no_claims =
     \<lparr>c_sub = None, c_tenant_id = None, c_workgroup_id = None, c_agent_id = None, c_role = None,
      c_type = None, c_jti = None, c_fp = None, c_scopes = [], c_iat = None, c_exp = None\<rparr>"

section \<open>Parsing numbers\<close>

text \<open>\<open>int(s)\<close>: surrounding blanks, a sign, digits with single underscores between them;
  \<open>None\<close> where Python raises \<open>ValueError\<close>.\<close>

fun py_digits :: "int \<Rightarrow> bool \<Rightarrow> string \<Rightarrow> int option" where
  "py_digits acc after_digit [] = (if after_digit then Some acc else None)"
| "py_digits acc after_digit (c # s) =
     (if is_digit_c c then py_digits (acc * 10 + (of_char c - 48)) True s
      else if c = CHR ''_'' \<and> after_digit then py_digits acc False s
      else None)"

definition py_int :: "string \<Rightarrow> int option" where
  "py_int s =
     (case strip s of
        [] \<Rightarrow> None
      | c # r \<Rightarrow>
          if c = CHR ''-'' then map_option uminus (py_digits 0 False r)
          else if c = CHR ''+'' then py_digits 0 False r
          else py_digits 0 False (c # r))"

lemma py_int_examples:
  "py_int ''3600'' = Some 3600" "py_int '' -1_0 '' = Some (- 10)" "py_int ''abc'' = None"
  "py_int ''1_'' = None"
  by code_simp+

end
