(* ===== verification/MemoryRoutes.thy ===== *)
theory MemoryRoutes
  imports MemoryTasks Http
begin

text \<open>
  \<open>memory/routes.py\<close> with the request models of \<open>memory/models.py\<close>: one definition per
  handler. A handler takes the clock readings, fresh identifiers and the measured latency it
  uses, the request, the claims of the caller, its body and the database; it answers the
  response or the exception, the database, and the access-log entry it leaves to a
  background task, which runs later (\<^term>\<open>write_access_log\<close>).
\<close>

section \<open>Request models\<close>

definition memory_types :: "string list" where
  "memory_types = [''working'', ''episodic'', ''semantic'', ''procedural'', ''shared'']"

definition access_scopes :: "string list" where
  "access_scopes = [''private'', ''workgroup'', ''namespace'']"

definition grant_permissions :: "string list" where
  "grant_permissions = [''read'', ''write'', ''read_write'']"

text \<open>The content is a JSON object, held as the text \<open>json.dumps\<close> gives for it.\<close>

record memory_create =
  mc_agent_id :: string
  mc_memory_type :: string
  mc_content :: string
  mc_access_scope :: string
  mc_importance :: rat
  mc_memory_key :: "string option"
  mc_causal_parent_id :: "string option"
  mc_expires_at :: "string option"

record memory_update =
  mu_content :: "string option"
  mu_importance :: "rat option"

record grant_create =
  gc_grantor :: string
  gc_grantee_wg :: "string option"
  gc_grantee_agent :: "string option"
  gc_type_filter :: "string option"
  gc_min_importance :: rat
  gc_permission :: string
  gc_valid_until :: "string option"

definition unit_interval :: "rat \<Rightarrow> bool" where
  "unit_interval x = (0 \<le> x \<and> x \<le> 1)"

definition memory_create_ok :: "memory_create \<Rightarrow> bool" where
  "memory_create_ok b =
     (1 \<le> length (mc_agent_id b) \<and> length (mc_agent_id b) \<le> 200
      \<and> mc_memory_type b \<in> set memory_types \<and> mc_access_scope b \<in> set access_scopes
      \<and> unit_interval (mc_importance b))"

definition memory_update_ok :: "memory_update \<Rightarrow> bool" where
  "memory_update_ok b = (case mu_importance b of None \<Rightarrow> True | Some i \<Rightarrow> unit_interval i)"

definition feedback_ok :: "rat \<Rightarrow> bool" where
  "feedback_ok r = (- 1 \<le> r \<and> r \<le> 1)"

definition grant_create_ok :: "grant_create \<Rightarrow> bool" where
  "grant_create_ok b =
     ((case gc_type_filter b of None \<Rightarrow> True | Some x \<Rightarrow> x \<in> set memory_types)
      \<and> unit_interval (gc_min_importance b) \<and> gc_permission b \<in> set grant_permissions)"

text \<open>FastAPI's answer to a request that does not validate; its list of errors is left out.\<close>

definition validation_error :: http_exc where
  "validation_error = HTTPException 422 []"

section \<open>Helpers\<close>

definition wg_of :: "claims \<Rightarrow> string" where
  "wg_of c = (if truthy (c_workgroup_id c) then the (c_workgroup_id c)
              else get_or (c_tenant_id c) ''default'')"

definition agent_of :: "claims \<Rightarrow> string" where
  "agent_of c = (if truthy (c_agent_id c) then the (c_agent_id c)
                 else if truthy (c_sub c) then the (c_sub c) else ''unknown'')"

definition is_admin :: "claims \<Rightarrow> bool" where
  "is_admin c = (c_role c = Some ''admin'')"

definition trace_id :: "request \<Rightarrow> string option" where
  "trace_id rq =
     (if truthy (rq_traceparent rq) then
        (let tp = the (rq_traceparent rq); parts = split_on CHR ''-'' tp
         in Some (if 3 \<le> length parts then parts ! 1 else tp))
      else None)"

text \<open>The clock readings, identifiers and measurements of one request.\<close>

record call_env =
  ce_t1 :: instant
  ce_t2 :: instant
  ce_fresh :: string
  ce_latency :: rat

definition route_log ::
    "call_env \<Rightarrow> request \<Rightarrow> string \<Rightarrow> string \<Rightarrow> string \<Rightarrow> string list option \<Rightarrow> log_args" where
  "route_log e rq agent wg action ids =
     (log_call agent wg action)\<lparr>la_memory_ids := ids, la_latency_ms := Some (ce_latency e),
       la_trace_id := trace_id rq\<rparr>"

section \<open>Handlers\<close>

record created =
  cr_id :: string
  cr_agent_id :: string
  cr_memory_type :: string
  cr_created_at :: string

definition body_args :: "claims \<Rightarrow> memory_create \<Rightarrow> memory_args" where
  "body_args c b =
     \<lparr>na_id = None, na_agent_id = mc_agent_id b, na_workgroup_id = wg_of c,
      na_memory_type = mc_memory_type b, na_access_scope = Some (mc_access_scope b),
      na_content = mc_content b, na_memory_key = mc_memory_key b,
      na_importance = Some (mc_importance b), na_utility = None, na_linked = None,
      na_causal_parent_id = mc_causal_parent_id b, na_expires_at = mc_expires_at b\<rparr>"

definition post_memory ::
    "call_env \<Rightarrow> request \<Rightarrow> claims \<Rightarrow> memory_create \<Rightarrow> mem_db \<Rightarrow>
      created http \<times> mem_db \<times> log_args option" where
  "post_memory e rq c b db =
     (if \<not> memory_create_ok b then (Inl validation_error, db, None)
      else if 100 \<le> count_recent_actions (ce_t1 e) (Some (mc_agent_id b)) ''write'' None 60 db
      then (Inl (HTTPException 429 ''Write rate limit: 100/min per agent''), db, None)
      else if truthy (mc_causal_parent_id b)
              \<and> check_causal_cycle db (the (mc_causal_parent_id b)) None
      then (Inl (HTTPException 400 ''Causal parent would create a cycle (max depth 50)''), db, None)
      else
        (case create_memory (ce_t2 e) (ce_fresh e) (body_args c b) db of
           Inl _ \<Rightarrow> (Inl server_error, db, None)
         | Inr (None, db') \<Rightarrow> (Inl server_error, db', None)
         | Inr (Some m, db') \<Rightarrow>
             (Inr \<lparr>cr_id = m_id m, cr_agent_id = mc_agent_id b, cr_memory_type = mc_memory_type b,
                   cr_created_at = m_created_at m\<rparr>,
              db', Some (route_log e rq (mc_agent_id b) (wg_of c) ''write'' (Some [m_id m])))))"

text \<open>\<open>pick\<close> chooses the first element of the set of grant identifiers, whose order is Python's.\<close>

definition get_search ::
    "(string list \<Rightarrow> string) \<Rightarrow> call_env \<Rightarrow> request \<Rightarrow> claims \<Rightarrow> search_query \<Rightarrow> mem_db \<Rightarrow>
      memory list http \<times> mem_db \<times> log_args option" where
  "get_search pick e rq c q db =
     (if sq_limit q < 1 \<or> 100 < sq_limit q then (Inl validation_error, db, None)
      else
        (let wg = wg_of c; caller = agent_of c;
             accessible = get_accessible_workgroups (ce_t1 e) db wg (Some caller) True ''read'';
             granted = filter (\<lambda>a. wa_grant_id a \<noteq> None) accessible
         in case search_memories (ce_t2 e) wg (Some caller) q granted db of
              (hits, db') \<Rightarrow>
                (let ids = remdups (map the (filter truthy (map h_grant_id hits)))
                 in (Inr (map h_memory hits), db',
                     Some ((route_log e rq caller wg ''search'' None)
                       \<lparr>la_result_count := Some (int (length hits)),
                        la_grant_id := (if ids = [] then None else Some (pick ids))\<rparr>)))))"

definition get_memory_route ::
    "call_env \<Rightarrow> request \<Rightarrow> claims \<Rightarrow> string \<Rightarrow> mem_db \<Rightarrow> memory http \<times> mem_db \<times> log_args option" where
  "get_memory_route e rq c mid db =
     (case get_memory db mid of
        None \<Rightarrow> (Inl (HTTPException 404 ''Memory not found''), db, None)
      | Some m \<Rightarrow>
          if \<not> can_access_memory (ce_t1 e) db m (wg_of c) (Some (agent_of c)) ''read''
          then (Inl (HTTPException 403 ''Access denied''), db, None)
          else (Inr m, db, Some (route_log e rq (agent_of c) (wg_of c) ''read'' (Some [mid]))))"

definition put_memory ::
    "call_env \<Rightarrow> request \<Rightarrow> claims \<Rightarrow> string \<Rightarrow> memory_update \<Rightarrow> mem_db \<Rightarrow>
      memory option http \<times> mem_db \<times> log_args option" where
  "put_memory e rq c mid b db =
     (if \<not> memory_update_ok b then (Inl validation_error, db, None)
      else case get_memory db mid of
        None \<Rightarrow> (Inl (HTTPException 404 ''Memory not found''), db, None)
      | Some m \<Rightarrow>
          if \<not> can_modify_memory m (wg_of c) (Some (agent_of c)) (is_admin c)
          then (Inl (HTTPException 403 ''Only creating agent or admin can update''), db, None)
          else (case update_memory (ce_t1 e) mid (mu_content b) (mu_importance b) db of
                  (updated, db') \<Rightarrow>
                    (Inr updated, db',
                     Some (route_log e rq (agent_of c) (wg_of c) ''update'' (Some [mid])))))"

text \<open>The response holds the identifier and the time of the deletion.\<close>

definition delete_memory_route ::
    "call_env \<Rightarrow> request \<Rightarrow> claims \<Rightarrow> string \<Rightarrow> mem_db \<Rightarrow>
      (string \<times> string option) http \<times> mem_db \<times> log_args option" where
  "delete_memory_route e rq c mid db =
     (case get_memory db mid of
        None \<Rightarrow> (Inl (HTTPException 404 ''Memory not found''), db, None)
      | Some m \<Rightarrow>
          if \<not> can_modify_memory m (wg_of c) (Some (agent_of c)) (is_admin c)
          then (Inl (HTTPException 403 ''Only creating agent or admin can delete''), db, None)
          else (case soft_delete_memory (ce_t1 e) mid db of
                  (None, db') \<Rightarrow> (Inl server_error, db', None)
                | (Some r, db') \<Rightarrow>
                    (Inr (mid, m_deleted_at r), db',
                     Some (route_log e rq (agent_of c) (wg_of c) ''delete'' (Some [mid])))))"

text \<open>The response holds the identifier, the old and the new utility.\<close>

definition memory_feedback ::
    "call_env \<Rightarrow> request \<Rightarrow> claims \<Rightarrow> string \<Rightarrow> rat \<Rightarrow> mem_db \<Rightarrow>
      (string \<times> rat \<times> rat) http \<times> mem_db \<times> log_args option" where
  "memory_feedback e rq c mid reward db =
     (if \<not> feedback_ok reward then (Inl validation_error, db, None)
      else case get_memory db mid of
        None \<Rightarrow> (Inl (HTTPException 404 ''Memory not found''), db, None)
      | Some m \<Rightarrow>
          if 10 \<le> count_recent_actions (ce_t1 e) None ''feedback'' (Some mid) 3600 db
          then (Inl (HTTPException 429 ''Feedback rate limit: 10/hour per memory''), db, None)
          else (case update_utility (ce_t2 e) mid reward db of
                  (None, db') \<Rightarrow> (Inl server_error, db', None)
                | (Some (old, new, _), db') \<Rightarrow>
                    (Inr (mid, old, new), db',
                     Some (route_log e rq (agent_of c) (wg_of c) ''feedback'' (Some [mid])))))"

definition post_grant ::
    "call_env \<Rightarrow> request \<Rightarrow> claims \<Rightarrow> grant_create \<Rightarrow> mem_db \<Rightarrow>
      grant http \<times> mem_db \<times> log_args option" where
  "post_grant e rq c b db =
     (if \<not> grant_create_ok b then (Inl validation_error, db, None)
      else if \<not> is_admin c \<and> wg_of c \<noteq> gc_grantor b
      then (Inl (HTTPException 403 ''Only namespace admin or grantor WG admin can create grants''),
            db, None)
      else if \<not> truthy (gc_grantee_wg b) \<and> \<not> truthy (gc_grantee_agent b)
      then (Inl (HTTPException 400 ''Must specify grantee_workgroup_id or grantee_agent_id''), db, None)
      else if gc_grantee_wg b = Some (gc_grantor b)
      then (Inl (HTTPException 400 ''Cannot grant access to your own workgroup''), db, None)
      else
        (case create_grant (ce_t1 e) (ce_fresh e)
                \<lparr>ga_grantor = gc_grantor b, ga_grantee_agent = gc_grantee_agent b,
                 ga_grantee_wg = gc_grantee_wg b, ga_type_filter = gc_type_filter b,
                 ga_min_importance = Some (gc_min_importance b), ga_permission = gc_permission b,
                 ga_valid_from = None, ga_valid_until = gc_valid_until b,
                 ga_created_by = agent_of c\<rparr> db of
           Inl _ \<Rightarrow> (Inl server_error, db, None)
         | Inr (None, db') \<Rightarrow> (Inl server_error, db', None)
         | Inr (Some g, db') \<Rightarrow>
             (Inr g, db',
              Some ((log_call (agent_of c) (wg_of c) ''write'')
                \<lparr>la_grant_id := Some (g_id g), la_trace_id := trace_id rq\<rparr>))))"

definition revoke_grant ::
    "request \<Rightarrow> claims \<Rightarrow> string \<Rightarrow> mem_db \<Rightarrow> string http \<times> mem_db \<times> log_args option" where
  "revoke_grant rq c gid db =
     (case get_grant db gid of
        None \<Rightarrow> (Inl (HTTPException 404 ''Grant not found''), db, None)
      | Some g \<Rightarrow>
          if \<not> is_admin c \<and> wg_of c \<noteq> g_grantor g
          then (Inl (HTTPException 403 ''Only namespace admin or grantor WG admin can revoke grants''),
                db, None)
          else
            (Inr gid, snd (delete_grant gid db),
             Some ((log_call (agent_of c) (wg_of c) ''delete'')
               \<lparr>la_grant_id := Some gid, la_trace_id := trace_id rq\<rparr>)))"

lemmas [route_defs] = post_memory_def get_search_def get_memory_route_def put_memory_def
  delete_memory_route_def memory_feedback_def post_grant_def revoke_grant_def

end
