(* ===== verification/MemorySystem.thy ===== *)
theory MemorySystem
  imports MemoryRoutes
begin

text \<open>
  The memory service as a state machine: the handlers, the background tasks they leave, and
  the two periodic tasks, in any order. The invariant of the store holds in every reachable
  state; the properties of the single handlers follow.
\<close>

section \<open>Events\<close>

text \<open>The database and the access-log entries whose background task has not run yet.\<close>

record mem_sys =
  ms_db :: mem_db
  ms_pending :: "log_args list"

datatype mem_event =
    PostMemory call_env request claims memory_create
  | Search "string list \<Rightarrow> string" call_env request claims search_query
  | GetMemory call_env request claims string
  | PutMemory call_env request claims string memory_update
  | DeleteMemory call_env request claims string
  | Feedback call_env request claims string rat
  | PostGrant call_env request claims grant_create
  | RevokeGrant request claims string
  | RunLog instant string
  | Cleanup instant instant string
  | Decay instant

definition after_call :: "mem_sys \<Rightarrow> 'r \<times> mem_db \<times> log_args option \<Rightarrow> mem_sys" where
  "after_call s r =
     (case r of (_, db', task) \<Rightarrow>
        \<lparr>ms_db = db', ms_pending = ms_pending s @ (case task of None \<Rightarrow> [] | Some a \<Rightarrow> [a])\<rparr>)"

text \<open>A log entry that cannot be written is lost: the task fails after the response.\<close>

fun apply_event :: "mem_event \<Rightarrow> mem_sys \<Rightarrow> mem_sys" where
  "apply_event (PostMemory e rq c b) s = after_call s (post_memory e rq c b (ms_db s))"
| "apply_event (Search pick e rq c q) s = after_call s (get_search pick e rq c q (ms_db s))"
| "apply_event (GetMemory e rq c mid) s = after_call s (get_memory_route e rq c mid (ms_db s))"
| "apply_event (PutMemory e rq c mid b) s = after_call s (put_memory e rq c mid b (ms_db s))"
| "apply_event (DeleteMemory e rq c mid) s = after_call s (delete_memory_route e rq c mid (ms_db s))"
| "apply_event (Feedback e rq c mid r) s = after_call s (memory_feedback e rq c mid r (ms_db s))"
| "apply_event (PostGrant e rq c b) s = after_call s (post_grant e rq c b (ms_db s))"
| "apply_event (RevokeGrant rq c gid) s = after_call s (revoke_grant rq c gid (ms_db s))"
| "apply_event (RunLog t lid) s =
     (case ms_pending s of
        [] \<Rightarrow> s
      | a # as \<Rightarrow>
          (case write_access_log t lid a (ms_db s) of
             Inl _ \<Rightarrow> s\<lparr>ms_pending := as\<rparr>
           | Inr (_, db') \<Rightarrow> \<lparr>ms_db = db', ms_pending = as\<rparr>))"
| "apply_event (Cleanup t t2 lid) s = s\<lparr>ms_db := fst (snd (cleanup_run_once t t2 lid (ms_db s)))\<rparr>"
| "apply_event (Decay t) s = s\<lparr>ms_db := snd (decay_run_once t (ms_db s))\<rparr>"

definition initial_sys :: mem_sys where
  "initial_sys = \<lparr>ms_db = empty_db, ms_pending = []\<rparr>"

inductive mem_step :: "mem_sys \<Rightarrow> mem_event \<Rightarrow> mem_sys \<Rightarrow> bool" where
  step: "mem_step s ev (apply_event ev s)"

inductive_simps mem_step_simp: "mem_step s ev s'"

inductive mem_reachable :: "mem_sys \<Rightarrow> bool" where
  start: "mem_reachable initial_sys"
| next_state: "mem_reachable s \<Longrightarrow> mem_step s ev s' \<Longrightarrow> mem_reachable s'"

section \<open>Every event keeps the invariant\<close>

lemma args_ok_body: "memory_create_ok b \<Longrightarrow> args_ok (body_args c b)"
  by (simp add: memory_create_ok_def args_ok_def body_args_def unit_interval_def)

lemma create_memory_pair_inv:
  "mem_inv db \<Longrightarrow> args_ok kw \<Longrightarrow> create_memory t fresh kw db = Inr r \<Longrightarrow> mem_inv (snd r)"
  using create_memory_inv by (cases r) auto

lemma create_grant_pair_inv: "mem_inv db \<Longrightarrow> create_grant t gid kw db = Inr r \<Longrightarrow> mem_inv (snd r)"
  using create_grant_inv by (cases r) auto

lemma post_memory_inv: "mem_inv db \<Longrightarrow> mem_inv (fst (snd (post_memory e rq c b db)))"
  using create_memory_pair_inv [OF _ args_ok_body]
  by (fastforce simp: post_memory_def split: sum.splits prod.splits option.splits)

lemma get_search_inv: "mem_inv db \<Longrightarrow> mem_inv (fst (snd (get_search pick e rq c q db)))"
  using search_inv [of db]
  by (auto simp: get_search_def Let_def split: prod.splits dest!: arg_cong [where f = snd])

lemma put_memory_inv: "mem_inv db \<Longrightarrow> mem_inv (fst (snd (put_memory e rq c mid b db)))"
  using update_memory_inv [of db "mu_importance b"]
  by (auto simp: put_memory_def memory_update_ok_def unit_interval_def
      split: prod.splits option.splits dest!: arg_cong [where f = snd])

lemma delete_memory_route_inv: "mem_inv db \<Longrightarrow> mem_inv (fst (snd (delete_memory_route e rq c mid db)))"
  using soft_delete_inv [of db]
  by (auto simp: delete_memory_route_def split: prod.splits option.splits dest!: arg_cong [where f = snd])

lemma memory_feedback_inv: "mem_inv db \<Longrightarrow> mem_inv (fst (snd (memory_feedback e rq c mid r db)))"
  using update_utility_inv [of db]
  by (auto simp: memory_feedback_def split: prod.splits option.splits dest!: arg_cong [where f = snd])

lemma post_grant_inv: "mem_inv db \<Longrightarrow> mem_inv (fst (snd (post_grant e rq c b db)))"
  using create_grant_pair_inv
  by (fastforce simp: post_grant_def split: sum.splits prod.splits option.splits)

lemma revoke_grant_inv: "mem_inv db \<Longrightarrow> mem_inv (fst (snd (revoke_grant rq c gid db)))"
  using delete_grant_inv by (auto simp: revoke_grant_def split: option.splits)

lemma after_call_db [simp]: "ms_db (after_call s r) = fst (snd r)"
  by (cases r) (auto simp: after_call_def)

lemmas route_inv = post_memory_inv get_search_inv put_memory_inv delete_memory_route_inv
  memory_feedback_inv post_grant_inv revoke_grant_inv

lemma apply_event_inv: "mem_inv (ms_db s) \<Longrightarrow> mem_inv (ms_db (apply_event ev s))"
proof (induction ev s rule: apply_event.induct)
  case (3 e rq c mid s)
  then show ?case by (auto simp: get_memory_route_def split: option.splits)
next
  case (9 t lid s)
  then show ?case by (auto split: list.splits sum.splits simp: write_access_log_inv)
next
  case (10 t t2 lid s)
  then show ?case using cleanup_inv by (metis apply_event.simps(10) mem_sys.select_convs(1)
      mem_sys.surjective mem_sys.update_convs(1) prod.collapse)
next
  case (11 t s)
  then show ?case by (simp add: decay_inv)
qed (simp_all add: route_inv)

lemma reachable_inv: "mem_reachable s \<Longrightarrow> mem_inv (ms_db s)"
  by (induction rule: mem_reachable.induct)
    (auto simp: initial_sys_def mem_step_simp apply_event_inv)

text \<open>
  Property C1. In every state the service can reach, through any interleaving of requests,
  of the log entries they leave and of the two periodic tasks, memory identifiers are unique,
  a workgroup has at most one live memory per key, importances lie between 0 and 1,
  utilities between 0.1 and 0.9, access counts are not negative, and grant identifiers are
  unique.
\<close>

theorem memory_service_invariant:
  assumes "mem_reachable s"
  shows "distinct (map m_id (memories (ms_db s))) \<and> distinct (map g_id (grants (ms_db s))) \<and>
    (\<forall>m \<in> set (memories (ms_db s)). 1/10 \<le> m_utility m \<and> m_utility m \<le> 9/10 \<and>
       0 \<le> m_importance m \<and> m_importance m \<le> 1 \<and> 0 \<le> m_access_count m) \<and>
    (\<forall>m \<in> set (memories (ms_db s)). \<forall>m' \<in> set (memories (ms_db s)).
       live m \<and> live m' \<and> m_key m \<noteq> None \<and> m_key m = m_key m' \<and>
       m_workgroup_id m = m_workgroup_id m' \<longrightarrow> m = m')"
proof -
  have inv: "mem_inv (ms_db s)" by (rule reachable_inv [OF assms])
  then show ?thesis
    using key_uniqueD [OF mem_invD(2) [OF inv]] unfolding mem_inv_def row_ok_def by blast
qed

section \<open>Creating a memory\<close>

lemma get_memory_append:
  assumes "m_id r \<notin> m_id ` set ms" "mid \<noteq> m_id r"
  shows "get_memory (db\<lparr>memories := ms @ [r]\<rparr>) mid = get_memory (db\<lparr>memories := ms\<rparr>) mid"
  using assms by (simp add: get_memory_def find_append split: option.splits)

lemma post_memory_success:
  assumes "post_memory e rq c b db = (Inr r, db', task)"
  obtains m where "create_memory (ce_t2 e) (ce_fresh e) (body_args c b) db = Inr (Some m, db')"
    "cr_id r = m_id m" "cr_created_at r = m_created_at m" "memory_create_ok b"
    "task = Some (route_log e rq (mc_agent_id b) (wg_of c) ''write'' (Some [m_id m]))"
    "count_recent_actions (ce_t1 e) (Some (mc_agent_id b)) ''write'' None 60 db < 100"
  using assms
  by (auto simp: post_memory_def split: if_splits sum.splits option.splits prod.splits)

text \<open>
  Property C5. A memory whose creation was answered with 201 is there: it is live under the
  answered identifier in the caller's workgroup, with the content, the importance and the key
  of the request. With a key that a live memory of the workgroup holds it is that memory, whose
  identifier, owner, type, scope and creation time stay; otherwise it is a new row of the
  requesting agent with utility 0.5. No other memory changes.
\<close>

theorem created_memory_readable:
  assumes "mem_inv db" and "post_memory e rq c b db = (Inr r, db', task)"
  shows "\<exists>m. get_memory db' (cr_id r) = Some m \<and> m_content m = mc_content b \<and>
    m_importance m = mc_importance b \<and> m_workgroup_id m = wg_of c \<and>
    (m_key m = mc_memory_key b) \<and> cr_created_at r = m_created_at m \<and>
    (case keyed_match (body_args c b) db of
       Some old \<Rightarrow> m = old\<lparr>m_content := mc_content b, m_importance := mc_importance b,
                        m_updated_at := isoformat (ce_t2 e)\<rparr>
     | None \<Rightarrow> cr_id r = ce_fresh e \<and> m_agent_id m = mc_agent_id b \<and> m_utility m = 1/2 \<and>
         m_type m = mc_memory_type b \<and> m_scope m = mc_access_scope b) \<and>
    (\<forall>mid. mid \<noteq> cr_id r \<longrightarrow> get_memory db' mid = get_memory db mid)"
proof (cases "keyed_match (body_args c b) db")
  case (Some old)
  from assms(2) obtain m where m: "create_memory (ce_t2 e) (ce_fresh e) (body_args c b) db = Inr (Some m, db')"
    "cr_id r = m_id m" "cr_created_at r = m_created_at m"
    by (elim post_memory_success) blast
  from Some have old: "old \<in> set (memories db)" "live old" "m_workgroup_id old = wg_of c"
      "m_key old = mc_memory_key b"
    by (auto simp: keyed_match_def body_args_def split: if_splits dest: find_by_key_SomeD)
  have g: "get_memory db (m_id old) = Some old" using get_memory_iff [OF assms(1)] old by simp
  note u = create_memory_update_case [OF assms(1) Some, of "ce_t2 e" "ce_fresh e"]
  then have db': "m = old\<lparr>m_content := mc_content b, m_importance := mc_importance b,
        m_updated_at := isoformat (ce_t2 e)\<rparr>"
      "db' = db\<lparr>memories := update_where (\<lambda>m. m_id m = m_id old)
        (\<lambda>m. m\<lparr>m_content := mc_content b, m_importance := mc_importance b,
               m_updated_at := isoformat (ce_t2 e)\<rparr>) (memories db)\<rparr>"
    using m(1) by (simp_all add: body_args_def)
  have "get_memory db' mid = get_memory db mid" if "mid \<noteq> m_id old" for mid
    unfolding db'(2) by (rule get_memory_update_other) (use that in auto)
  moreover have "get_memory db' (m_id old) = Some m"
    unfolding db' by (simp add: get_memory_update_where g)
  ultimately show ?thesis using m(2,3) old Some db'(1) by simp
next
  case None
  from assms(2) obtain m where m: "create_memory (ce_t2 e) (ce_fresh e) (body_args c b) db = Inr (Some m, db')"
    "cr_id r = m_id m" "cr_created_at r = m_created_at m"
    by (elim post_memory_success) blast
  let ?r = "new_row (isoformat (ce_t2 e)) (or_else None (ce_fresh e)) (body_args c b)"
  have nc: "\<not> memory_conflict ?r (memories db)" and eq: "m = ?r" "db' = db\<lparr>memories := memories db @ [?r]\<rparr>"
    using create_memory_insert_case [OF assms(1) None, of "ce_t2 e" "ce_fresh e"] m(1)
    by (auto simp: Let_def body_args_def split: if_splits)
  have fresh: "m_id ?r \<notin> m_id ` set (memories db)" using nc by (auto simp: memory_conflict_def)
  then have "find (\<lambda>m. m_id m = m_id ?r \<and> live m) (memories db) = None"
    unfolding find_None_iff_ball by (metis image_eqI)
  then have "get_memory db' (m_id ?r) = Some ?r"
    by (simp add: get_memory_def eq(2) find_append new_row_def)
  moreover have "get_memory db' mid = get_memory db mid" if "mid \<noteq> m_id ?r" for mid
    using get_memory_append [OF fresh that, of db] eq(2) by simp
  ultimately show ?thesis using m(2,3) eq(1) None
    by (simp add: new_row_def body_args_def)
qed

text \<open>
  Property C6. The errors of a creation, in the order of the checks: 422 for a body that does
  not validate, 429 when the agent has logged 100 writes within the minute, 400 when the
  causal chain of the parent runs into a cycle, and 500 in exactly one remaining case, an
  empty key that a live memory of the workgroup already holds (the empty key is inserted as
  it is and violates the unique index). Every refused creation leaves the database as it
  was and leaves no log entry.
\<close>

theorem create_error_characterisation:
  assumes "mem_inv db" and "ce_fresh e \<noteq> []" and "ce_fresh e \<notin> m_id ` set (memories db)"
  shows "status_of (fst (post_memory e rq c b db)) =
      (if \<not> memory_create_ok b then Some 422
       else if 100 \<le> count_recent_actions (ce_t1 e) (Some (mc_agent_id b)) ''write'' None 60 db then Some 429
       else if truthy (mc_causal_parent_id b) \<and> check_causal_cycle db (the (mc_causal_parent_id b)) None
         then Some 400
       else if mc_memory_key b = Some [] \<and> (\<exists>m \<in> set (memories db). live m \<and>
           m_workgroup_id m = wg_of c \<and> m_key m = Some []) then Some 500
       else None) \<and>
    (fst (post_memory e rq c b db) = Inl x \<longrightarrow> snd (post_memory e rq c b db) = (db, None))"
proof (cases "keyed_match (body_args c b) db")
  case (Some old)
  then have "mc_memory_key b \<noteq> Some []" by (auto simp: keyed_match_def body_args_def)
  then show ?thesis
    using create_memory_update_case [OF assms(1) Some, of "ce_t2 e" "ce_fresh e"]
    by (simp add: post_memory_def validation_error_def)
next
  case None
  have "na_id (body_args c b) = None" by (simp add: body_args_def)
  then show ?thesis
    using create_memory_insert_case [OF assms(1) None, of "ce_t2 e" "ce_fresh e"]
      keyed_match_None_conflict [OF None assms(3)]
    by (simp add: post_memory_def validation_error_def server_error_def Let_def)
      (auto simp: body_args_def)
qed

section \<open>Reading, changing and deleting a memory\<close>

lemma get_memory_route_sound:
  assumes "get_memory_route e rq c mid db = (Inr m, db', task)"
  shows "get_memory db mid = Some m \<and> db' = db \<and>
    (if m_workgroup_id m = wg_of c
     then m_scope m \<noteq> ''private'' \<or> m_agent_id m = agent_of c
     else \<exists>g \<in> set (grants db). grant_active (isoformat (ce_t1 e)) g \<and>
       g_permission g \<in> {''read'', ''read_write''} \<and>
       (g_grantee_wg g = Some (wg_of c) \<or> g_grantee_agent g = Some (agent_of c)) \<and> grant_covers g m)"
proof -
  from assms have m: "get_memory db mid = Some m" "db' = db"
    and a: "can_access_memory (ce_t1 e) db m (wg_of c) (Some (agent_of c)) ''read''"
    by (auto simp: get_memory_route_def split: option.splits if_splits)
  show ?thesis
  proof (cases "m_workgroup_id m = wg_of c")
    case True
    then show ?thesis using m a by (auto simp: can_access_memory_def split: if_splits)
  next
    case False
    from can_access_memory_crossD [OF False a] obtain g where "g \<in> set (grants db)"
      "grant_applies (isoformat (ce_t1 e)) (wg_of c) (Some (agent_of c)) ''read'' g" "grant_covers g m" .
    then show ?thesis using m False
      by (auto simp: grant_applies_def permission_matches_def grantee_matches_def)
  qed
qed

text \<open>
  Property C2. \<open>GET /memories/{id}\<close> answers a memory only to those who may see it: it is live;
  within its own workgroup it is not private, or the caller is the agent that created it;
  to another workgroup it is shown only if it is not private and a grant that is active
  now, allows reading and names the caller's workgroup or agent covers it.
\<close>

theorem read_is_authorised:
  assumes "get_memory_route e rq c mid db = (Inr m, db', task)"
  shows "get_memory db mid = Some m \<and> db' = db \<and>
    (if m_workgroup_id m = wg_of c
     then m_scope m \<noteq> ''private'' \<or> m_agent_id m = agent_of c
     else \<exists>g \<in> set (grants db). grant_active (isoformat (ce_t1 e)) g \<and>
       g_permission g \<in> {''read'', ''read_write''} \<and>
       (g_grantee_wg g = Some (wg_of c) \<or> g_grantee_agent g = Some (agent_of c)) \<and> grant_covers g m)"
  using assms by (rule get_memory_route_sound)

text \<open>
  Revoking a grant is effective at once: after \<open>DELETE /memory-grants/{id}\<close> was
  answered with success, a caller of another workgroup reads a memory only through some
  other grant, and the grant is gone; grants are revoked only by administrators and by
  callers of the granting workgroup.
\<close>

theorem revoked_grant_gives_no_access:
  assumes "revoke_grant rq c gid db = (Inr x, db', task)"
  shows "get_grant db' gid = None \<and>
    (\<forall>gid'. gid' \<noteq> gid \<longrightarrow> get_grant db' gid' = get_grant db gid') \<and>
    (\<exists>g. get_grant db gid = Some g \<and> (is_admin c \<or> wg_of c = g_grantor g)) \<and>
    (\<forall>e rq' c' mid m d t. get_memory_route e rq' c' mid db' = (Inr m, d, t) \<longrightarrow>
       m_workgroup_id m \<noteq> wg_of c' \<longrightarrow>
       (\<exists>g \<in> set (grants db). g_id g \<noteq> gid \<and> grant_active (isoformat (ce_t1 e)) g \<and> grant_covers g m))"
proof -
  from assms obtain g where g: "get_grant db gid = Some g" "is_admin c \<or> wg_of c = g_grantor g"
    and db': "db' = snd (delete_grant gid db)"
    by (auto simp: revoke_grant_def split: option.splits if_splits)
  have "set (grants db') = {g \<in> set (grants db). g_id g \<noteq> gid}"
    by (simp add: db' delete_grant_def)
  moreover have "\<exists>g \<in> set (grants db'). grant_active (isoformat (ce_t1 e)) g \<and> grant_covers g m"
    if "get_memory_route e rq' c' mid db' = (Inr m, d, t)" "m_workgroup_id m \<noteq> wg_of c'"
    for e rq' c' mid m d t
    using get_memory_route_sound [OF that(1)] that(2) by auto
  ultimately show ?thesis
    using g get_grant_delete [of gid db] get_grant_delete_other [of _ gid db]
    unfolding db' by fast
qed

text \<open>
  Property C11. Deletion: after \<open>DELETE /memories/{id}\<close> was answered with success, the memory is
  answered with 404 to everybody and no search finds it, whatever grants are passed; all other
  memories are what they were, and only the creating agent or an administrator of the
  memory's own workgroup can have asked for it.
\<close>

theorem deleted_memory_is_gone:
  assumes "delete_memory_route e rq c mid db = (Inr x, db', task)"
  shows "status_of (fst (get_memory_route e' rq' c' mid db')) = Some 404 \<and>
    (0 \<le> sq_limit q \<longrightarrow>
       mid \<notin> (m_id \<circ> h_memory) ` set (fst (search_memories t wg caller q granted db'))) \<and>
    (\<forall>other. other \<noteq> mid \<longrightarrow> get_memory db' other = get_memory db other) \<and>
    (\<exists>m. get_memory db mid = Some m \<and> m_workgroup_id m = wg_of c \<and>
       (is_admin c \<or> m_agent_id m = agent_of c))"
proof -
  from assms obtain m where m: "get_memory db mid = Some m"
    "can_modify_memory m (wg_of c) (Some (agent_of c)) (is_admin c)"
    and db': "db' = snd (soft_delete_memory (ce_t1 e) mid db)"
    by (auto simp: delete_memory_route_def split: option.splits if_splits prod.splits)
  have dead: "\<not> live r" if "r \<in> set (memories db')" "m_id r = mid" for r
  proof -
    let ?P = "\<lambda>m. m_id m = mid \<and> live m" and ?f = "\<lambda>m. m\<lparr>m_deleted_at := Some (isoformat (ce_t1 e))\<rparr>"
    have "memories db' = update_where ?P ?f (memories db)"
      by (simp add: db' soft_delete_memory_def Let_def)
    then have "r \<in> (\<lambda>m. if ?P m then ?f m else m) ` set (memories db)"
      using that(1) by (simp only: set_update_where)
    then obtain r0 where "r = (if ?P r0 then ?f r0 else r0)" by (rule imageE)
    then show ?thesis using that(2) by (cases "?P r0") auto
  qed
  then have none: "get_memory db' mid = None"
    unfolding get_memory_def find_None_iff_ball by blast
  have "mid \<notin> (m_id \<circ> h_memory) ` set (fst (search_memories t wg caller q granted db'))"
    if l: "0 \<le> sq_limit q"
  proof
    assume "mid \<in> (m_id \<circ> h_memory) ` set (fst (search_memories t wg caller q granted db'))"
    then obtain h where f: "h \<in> set (fst (search_memories t wg caller q granted db'))"
      and h: "m_id (h_memory h) = mid" by auto
    from set_search_results [OF l f] have "h_memory h \<in> set (memories db') \<and> live (h_memory h)"
      by (auto simp: collect_hits_def hits_of_grant_def own_hit_def grant_hit_def search_where_def
          dest!: query_workgroup_where)
    then show False using dead h by blast
  qed
  moreover have "get_memory db' other = get_memory db other" if "other \<noteq> mid" for other
    unfolding db' soft_delete_memory_def Let_def snd_conv
    by (rule get_memory_update_other) (use that in auto)
  moreover have "m_workgroup_id m = wg_of c \<and> (is_admin c \<or> m_agent_id m = agent_of c)"
    using m(2) by (auto simp: can_modify_memory_def split: if_splits)
  ultimately show ?thesis using none m(1) by (simp add: get_memory_route_def)
qed

text \<open>
  Property C12. The guard of an update: \<open>PUT /memories/{id}\<close> by a caller of another workgroup,
  or by an agent of the same workgroup that neither created the memory nor is an
  administrator, is refused with 403 and changes nothing; by the others it sets exactly the
  given fields, and leaves the owner, the workgroup, the scope and the key of the memory
  and all other memories alone.
\<close>

theorem update_is_guarded:
  assumes "memory_update_ok b" and "get_memory db mid = Some m"
    and "put_memory e rq c mid b db = (r, db', task)"
  shows "if m_workgroup_id m = wg_of c \<and> (is_admin c \<or> m_agent_id m = agent_of c)
    then r = Inr (get_memory db' mid) \<and>
      get_memory db' mid = Some (if mu_content b = None \<and> mu_importance b = None then m
        else m\<lparr>m_content := get_or (mu_content b) (m_content m),
               m_importance := get_or (mu_importance b) (m_importance m),
               m_updated_at := isoformat (ce_t1 e)\<rparr>) \<and>
      (\<forall>other. other \<noteq> mid \<longrightarrow> get_memory db' other = get_memory db other)
    else status_of r = Some 403 \<and> db' = db \<and> task = None"
proof (cases "m_workgroup_id m = wg_of c \<and> (is_admin c \<or> m_agent_id m = agent_of c)")
  case False
  then have "\<not> can_modify_memory m (wg_of c) (Some (agent_of c)) (is_admin c)"
    by (auto simp: can_modify_memory_def)
  then show ?thesis using assms False by (auto simp: put_memory_def)
next
  case True
  then have "can_modify_memory m (wg_of c) (Some (agent_of c)) (is_admin c)"
    by (auto simp: can_modify_memory_def)
  then have u: "r = Inr (fst (update_memory (ce_t1 e) mid (mu_content b) (mu_importance b) db))"
    "db' = snd (update_memory (ce_t1 e) mid (mu_content b) (mu_importance b) db)"
    using assms by (auto simp: put_memory_def split: prod.splits)
  show ?thesis
  proof (cases "mu_content b = None \<and> mu_importance b = None")
    case True
    then show ?thesis using u assms(2) \<open>m_workgroup_id m = wg_of c \<and> _\<close>
      by (simp add: update_memory_def)
  next
    case False
    let ?P = "\<lambda>m. m_id m = mid \<and> live m"
    let ?f = "\<lambda>m. m\<lparr>m_content := get_or (mu_content b) (m_content m),
      m_importance := get_or (mu_importance b) (m_importance m), m_updated_at := isoformat (ce_t1 e)\<rparr>"
    have db': "db' = db\<lparr>memories := update_where ?P ?f (memories db)\<rparr>" "r = Inr (get_memory db' mid)"
      using u False by (auto simp: update_memory_def Let_def)
    have "get_memory db' mid = Some (?f m)"
      unfolding db'(1) using assms(2) get_memory_SomeD [OF assms(2)] by (simp add: get_memory_update_where)
    moreover have "get_memory db' other = get_memory db other" if "other \<noteq> mid" for other
      unfolding db'(1) by (rule get_memory_update_other) (use that in auto)
    ultimately show ?thesis
      unfolding if_P [OF \<open>m_workgroup_id m = wg_of c \<and> _\<close>] if_not_P [OF False] using db'(2) by blast
  qed
qed

section \<open>Feedback\<close>

lemma clamp_utility_between:
  assumes "1/10 \<le> u" "u \<le> 9/10"
  shows "min u (max (1/10) (min (9/10) r)) \<le> clamp_utility u r"
    "clamp_utility u r \<le> max u (max (1/10) (min (9/10) r))"
proof -
  define cl :: "rat \<Rightarrow> rat" where "cl x = max (1/10) (min (9/10) x)" for x
  have mono: "cl x \<le> cl y" if "x \<le> y" for x y
    using that unfolding cl_def by (intro max.mono min.mono) auto
  have u: "cl u = u" using assms by (simp add: cl_def max_def min_def)
  have v: "u \<le> u + 1/10 * (r - u) \<and> u + 1/10 * (r - u) \<le> r" if "u \<le> r"
    using that by (simp add: field_simps)
  have v': "r \<le> u + 1/10 * (r - u) \<and> u + 1/10 * (r - u) \<le> u" if "r \<le> u"
    using that by (simp add: field_simps)
  have "min u (cl r) \<le> cl (u + 1/10 * (r - u)) \<and> cl (u + 1/10 * (r - u)) \<le> max u (cl r)"
  proof (cases "u \<le> r")
    case True
    then show ?thesis using mono v u by (metis max.coboundedI2 min.coboundedI1)
  next
    case False
    then show ?thesis using mono v' u by (metis linear max.coboundedI1 min.coboundedI2)
  qed
  then show "min u (max (1/10) (min (9/10) r)) \<le> clamp_utility u r"
    "clamp_utility u r \<le> max u (max (1/10) (min (9/10) r))"
    by (simp_all add: clamp_utility_def cl_def)
qed

text \<open>
  Feedback moves the utility of a live memory from its old value towards the
  reward, never past it and never out of the range from 0.1 to 0.9, and changes no other
  memory; it is accepted only while fewer than ten feedback entries for the memory lie
  within the hour.
\<close>

theorem feedback_moves_towards_reward:
  assumes "mem_inv db" and "memory_feedback e rq c mid r db = (Inr (i, old, new), db', task)"
  shows "\<exists>m. get_memory db mid = Some m \<and> old = m_utility m \<and>
    get_memory db' mid = Some (m\<lparr>m_utility := new, m_updated_at := isoformat (ce_t2 e)\<rparr>) \<and>
    1/10 \<le> new \<and> new \<le> 9/10 \<and>
    min old (max (1/10) (min (9/10) r)) \<le> new \<and> new \<le> max old (max (1/10) (min (9/10) r)) \<and>
    (\<forall>other. other \<noteq> mid \<longrightarrow> get_memory db' other = get_memory db other) \<and>
    count_recent_actions (ce_t1 e) None ''feedback'' (Some mid) 3600 db < 10"
proof -
  from assms(2) obtain m where m: "get_memory db mid = Some m"
    by (auto simp: memory_feedback_def split: option.splits if_splits)
  have ok: "row_ok m" using get_memory_SomeD [OF m] mem_invD(3) [OF assms(1)] by blast
  have r: "old = m_utility m" "new = clamp_utility (m_utility m) r"
    "db' = db\<lparr>memories := update_where (\<lambda>m. m_id m = mid)
       (\<lambda>x. x\<lparr>m_utility := clamp_utility (m_utility m) r, m_updated_at := isoformat (ce_t2 e)\<rparr>)
       (memories db)\<rparr>"
    "count_recent_actions (ce_t1 e) None ''feedback'' (Some mid) 3600 db < 10"
    using assms(2) m
    by (auto simp: memory_feedback_def update_utility_def Let_def split: if_splits)
  have "get_memory db' mid =
      Some (m\<lparr>m_utility := new, m_updated_at := isoformat (ce_t2 e)\<rparr>)"
    unfolding r(3) r(2) using get_memory_SomeD [OF m] by (simp add: get_memory_update_where m)
  moreover have "get_memory db' other = get_memory db other" if "other \<noteq> mid" for other
    unfolding r(3) by (rule get_memory_update_other) (use that in auto)
  ultimately show ?thesis
    using m r(1,2,4) clamp_utility_bounds clamp_utility_between ok unfolding row_ok_def by blast
qed

section \<open>The causal chain\<close>

text \<open>
  What the cycle check of a creation decides: the chain of parents that starts
  at the given parent repeats a memory within its first 50 links. Deleted memories are part
  of the chain; a missing parent, or an empty one, ends it.
\<close>

theorem cycle_check_iff_repeats:
  "check_causal_cycle db parent None \<longleftrightarrow>
    (\<exists>j<50. \<exists>i<j. \<exists>x. ancestor db j (Some parent) = Some x \<and> ancestor db i (Some parent) = Some x)"
  unfolding check_causal_cycle_def causal_walk_iff by fastforce

text \<open>
  Rows refer to earlier rows only. With identifiers that no row refers to yet, which is
  what a random identifier is, this is kept.
\<close>

definition causal_order :: "memory list \<Rightarrow> bool" where
  "causal_order ms = (\<forall>i<length ms. \<forall>j<length ms.
     m_causal_parent_id (ms ! i) = Some (m_id (ms ! j)) \<longrightarrow> j < i)"

lemma causal_order_update:
  assumes "\<And>m. m_id (f m) = m_id m" "\<And>m. m_causal_parent_id (f m) = m_causal_parent_id m"
    and "causal_order ms"
  shows "causal_order (update_where P f ms)"
  using assms by (simp add: causal_order_def update_where_def)

lemma causal_order_append:
  assumes "causal_order ms" "m_causal_parent_id r \<noteq> Some (m_id r)"
    "\<And>m. m \<in> set ms \<Longrightarrow> m_causal_parent_id m \<noteq> Some (m_id r)"
  shows "causal_order (ms @ [r])"
  using assms unfolding causal_order_def by (auto simp: nth_append less_Suc_eq)

lemma causal_parent_index:
  assumes "causal_order (memories db)" "distinct (map m_id (memories db))"
    "i < length (memories db)" "causal_parent db (m_id (memories db ! i)) = Some p"
    "j < length (memories db)" "m_id (memories db ! j) = p"
  shows "j < i"
proof -
  have "find (\<lambda>m. m_id m = m_id (memories db ! i)) (memories db) = Some (memories db ! i)"
    using assms(2,3) by (simp add: find_unique_key)
  then show ?thesis using assms unfolding causal_order_def by (auto simp: causal_parent_def)
qed

text \<open>The chain leaves the table or descends in it.\<close>

lemma ancestor_descends:
  assumes ord: "causal_order (memories db)" and dist: "distinct (map m_id (memories db))"
  shows "0 < n \<Longrightarrow> ancestor db n (Some x) = Some y \<Longrightarrow>
    (\<forall>k<length (memories db). m_id (memories db ! k) = y \<longrightarrow>
      (\<exists>i<length (memories db). m_id (memories db ! i) = x \<and> k < i)) \<and>
    x \<in> m_id ` set (memories db)"
proof (induction n arbitrary: x)
  case (Suc n)
  have "causal_parent db x \<noteq> None"
  proof
    assume "causal_parent db x = None"
    then have "ancestor db n (causal_parent db x) = None" by (cases n) auto
    then show False using Suc.prems(2) by (simp split: if_splits)
  qed
  then obtain p where p: "causal_parent db x = Some p" by blast
  then have x: "x \<in> m_id ` set (memories db)"
    by (auto simp: causal_parent_def split: option.splits dest!: find_SomeD)
  then obtain i where i: "i < length (memories db)" "m_id (memories db ! i) = x"
    by (metis imageE in_set_conv_nth)
  note down = causal_parent_index [OF ord dist i(1)]
  have tail: "ancestor db n (Some p) = Some y"
    using Suc.prems(2) p by (simp split: if_splits)
  show ?case
  proof (cases n)
    case 0
    then have "y = p" using tail by (simp split: if_splits)
    then show ?thesis using down p i x by blast
  next
    case (Suc n')
    then show ?thesis using Suc.IH [OF _ tail] down p i x by (metis less_trans zero_less_Suc)
  qed
qed simp

lemma ancestor_false: "\<not> truthy cur \<Longrightarrow> ancestor db k cur = None"
  by (cases k) auto

lemma ancestor_add: "ancestor db (i + k) cur = ancestor db k (ancestor db i cur)"
proof (induction i arbitrary: cur)
  case 0
  then show ?case by (cases "truthy cur") (simp_all add: ancestor_false)
next
  case (Suc i)
  then show ?case by (cases "truthy cur") (simp_all add: ancestor_false)
qed

lemma no_repeat:
  assumes "causal_order (memories db)" "distinct (map m_id (memories db))"
    "i < j" "ancestor db i cur = Some x"
  shows "ancestor db j cur \<noteq> Some x"
proof
  assume "ancestor db j cur = Some x"
  with ancestor_add [of db i "j - i" cur] assms(3,4) have "ancestor db (j - i) (Some x) = Some x" by simp
  from ancestor_descends [OF assms(1,2) _ this] assms(3) obtain k where
    k: "k < length (memories db)" "m_id (memories db ! k) = x"
    and d: "\<And>k. k < length (memories db) \<Longrightarrow> m_id (memories db ! k) = x \<Longrightarrow>
      \<exists>i<length (memories db). m_id (memories db ! i) = x \<and> k < i"
    by (auto simp: in_set_conv_nth)
  from d [OF k] k assms(2) show False
    by (metis distinct_conv_nth length_map less_irrefl nth_map)
qed

text \<open>A run in which every new identifier is one that no memory, and not the new one itself,
  names as its parent.\<close>

definition fresh_event :: "mem_sys \<Rightarrow> mem_event \<Rightarrow> bool" where
  "fresh_event s ev =
     (case ev of
        PostMemory e rq c b \<Rightarrow>
          mc_causal_parent_id b \<noteq> Some (ce_fresh e) \<and>
          (\<forall>m \<in> set (memories (ms_db s)). m_causal_parent_id m \<noteq> Some (ce_fresh e))
      | _ \<Rightarrow> True)"

inductive fresh_run :: "mem_sys \<Rightarrow> bool" where
  "fresh_run initial_sys"
| "fresh_run s \<Longrightarrow> fresh_event s ev \<Longrightarrow> fresh_run (apply_event ev s)"

lemma causal_order_create:
  assumes "causal_order (memories db)" "create_memory t fresh kw db = Inr (m, db')"
    "na_id kw = None" "na_causal_parent_id kw \<noteq> Some fresh"
    "\<forall>m \<in> set (memories db). m_causal_parent_id m \<noteq> Some fresh"
  shows "causal_order (memories db')"
proof -
  let ?r = "new_row (isoformat t) fresh kw"
  have "causal_order (memories db @ [?r])"
    by (rule causal_order_append) (use assms in \<open>auto simp: new_row_def\<close>)
  then show ?thesis using assms
    by (auto simp: create_memory_def insert_memory_def Let_def causal_order_update
        split: if_splits option.splits sum.splits)
qed

lemma causal_order_touch: "causal_order (memories db) \<Longrightarrow> causal_order (memories (touch_ids now ids db))"
  by (simp add: touch_ids_def causal_order_update)

lemma causal_order_event:
  assumes "causal_order (memories (ms_db s))" "fresh_event s ev"
  shows "causal_order (memories (ms_db (apply_event ev s)))"
  using assms
proof (induction ev s rule: apply_event.induct)
  case (1 e rq c b s)
  then show ?case using causal_order_create [of "ms_db s" "ce_t2 e" "ce_fresh e" "body_args c b"]
    by (auto simp: fresh_event_def post_memory_def body_args_def split: sum.splits option.splits)
next
  case (2 pick e rq c q s)
  then show ?case
    by (auto simp: get_search_def Let_def causal_order_touch search_db split: prod.splits
        dest!: arg_cong [where f = snd])
next
  case (3 e rq c mid s)
  then show ?case by (auto simp: get_memory_route_def split: option.splits)
next
  case (4 e rq c mid b s)
  then show ?case
    by (auto simp: put_memory_def update_memory_def Let_def causal_order_update
        split: prod.splits option.splits if_splits)
next
  case (5 e rq c mid s)
  then show ?case
    by (auto simp: delete_memory_route_def soft_delete_memory_def Let_def causal_order_update
        split: prod.splits option.splits)
next
  case (6 e rq c mid r s)
  then show ?case
    by (auto simp: memory_feedback_def update_utility_def Let_def causal_order_update
        split: prod.splits option.splits if_splits)
next
  case (7 e rq c b s)
  then show ?case
    by (auto simp: post_grant_def create_grant_def Let_def split: sum.splits option.splits if_splits)
next
  case (8 rq c gid s)
  then show ?case by (auto simp: revoke_grant_def delete_grant_def split: option.splits)
next
  case (9 t lid s)
  then show ?case by (auto split: list.splits sum.splits)
next
  case (10 t t2 lid s)
  obtain n db' task where c: "cleanup_run_once t t2 lid (ms_db s) = (n, db', task)"
    by (metis prod_cases3)
  then show ?case using 10 cleanup_memories [OF c] by (simp add: causal_order_update)
next
  case (11 t s)
  then show ?case by (simp add: decay_run_once_def Let_def causal_order_update)
qed

lemma fresh_run_reachable: "fresh_run s \<Longrightarrow> mem_reachable s"
  by (induction rule: fresh_run.induct) (auto intro: mem_reachable.intros mem_step.intros)

lemma fresh_run_order: "fresh_run s \<Longrightarrow> causal_order (memories (ms_db s))"
proof (induction rule: fresh_run.induct)
  case 1
  show ?case by (simp add: initial_sys_def empty_db_def causal_order_def)
next
  case (2 s ev)
  then show ?case by (blast intro: causal_order_event)
qed

text \<open>
  With identifiers that nothing refers to before they are handed out, causal
  chains never run into a cycle: in every state such a run reaches no chain of parents
  visits a memory twice, so the cycle check accepts every parent.
\<close>

theorem causal_chains_acyclic:
  assumes "fresh_run s"
  shows "\<not> check_causal_cycle (ms_db s) parent None \<and>
    (i < j \<and> ancestor (ms_db s) i (Some parent) = Some x \<longrightarrow>
       ancestor (ms_db s) j (Some parent) \<noteq> Some x)"
proof -
  note inv = reachable_inv [OF fresh_run_reachable [OF assms]]
  note nr = no_repeat [OF fresh_run_order [OF assms] mem_invD(1) [OF inv]]
  show ?thesis
    unfolding check_causal_cycle_def causal_walk_iff using nr by fastforce
qed

section \<open>Concrete instances\<close>

definition sample_call :: "string \<Rightarrow> call_env" where
  "sample_call fresh =
     \<lparr>ce_t1 = sample_time, ce_t2 = sample_time, ce_fresh = fresh, ce_latency = 1\<rparr>"

definition sample_claims :: "string \<Rightarrow> string \<Rightarrow> claims" where
  "sample_claims wg agent = no_claims\<lparr>c_workgroup_id := Some wg, c_agent_id := Some agent\<rparr>"

definition sample_body :: "string option \<Rightarrow> string option \<Rightarrow> memory_create" where
  "sample_body key parent =
     \<lparr>mc_agent_id = ''ann'', mc_memory_type = ''semantic'', mc_content = ''{}'',
      mc_access_scope = ''workgroup'', mc_importance = 1/2, mc_memory_key = key,
      mc_causal_parent_id = parent, mc_expires_at = None\<rparr>"

definition sample_event :: "string \<Rightarrow> string option \<Rightarrow> string option \<Rightarrow> mem_event" where
  "sample_event fresh key parent =
     PostMemory (sample_call fresh) plain_request (sample_claims ''w1'' ''ann'') (sample_body key parent)"

definition sample_state :: mem_sys where
  "sample_state = apply_event (sample_event ''y'' None (Some ''x''))
     (apply_event (sample_event ''x'' (Some ''k'') None) initial_sys)"

lemma sample_state_fresh: "fresh_run sample_state"
proof -
  have "fresh_event initial_sys (sample_event ''x'' (Some ''k'') None)"
    "fresh_event (apply_event (sample_event ''x'' (Some ''k'') None) initial_sys)
       (sample_event ''y'' None (Some ''x''))"
    by code_simp+
  then show ?thesis unfolding sample_state_def by (intro fresh_run.intros)
qed

lemma sample_db_inv: "mem_inv sample_db"
  by code_simp

theorem memory_service_invariant_witness:
  "distinct (map m_id (memories (ms_db sample_state))) \<and>
   map m_id (memories (ms_db sample_state)) = [''x'', ''y'']"
proof -
  have "map m_id (memories (ms_db sample_state)) = [''x'', ''y'']" by code_simp
  with memory_service_invariant [OF fresh_run_reachable [OF sample_state_fresh]] show ?thesis by blast
qed

theorem created_memory_readable_witness:
  "\<exists>r db' task m. post_memory (sample_call ''n'') plain_request (sample_claims ''w1'' ''ann'')
      (sample_body (Some ''k'') None) (ms_db sample_state) = (Inr r, db', task) \<and>
    get_memory db' (cr_id r) = Some m \<and> m_content m = ''{}''"
proof -
  let ?p = "post_memory (sample_call ''n'') plain_request (sample_claims ''w1'' ''ann'')
      (sample_body (Some ''k'') None) (ms_db sample_state)"
  have "is_ok (fst ?p)" by code_simp
  then obtain r db' task where p: "?p = (Inr r, db', task)"
    by (metis is_okE prod.collapse)
  from created_memory_readable [OF reachable_inv [OF fresh_run_reachable [OF sample_state_fresh]] p]
  obtain m where "get_memory db' (cr_id r) = Some m" "m_content m = mc_content (sample_body (Some ''k'') None)"
    by blast
  then show ?thesis using p by (auto simp: sample_body_def)
qed

theorem create_error_characterisation_witness:
  "status_of (fst (post_memory (sample_call ''n'') plain_request (sample_claims ''w1'' ''ann'')
      ((sample_body None None)\<lparr>mc_importance := 2\<rparr>) sample_db)) = Some 422"
proof -
  let ?e = "sample_call ''n''" and ?b = "(sample_body None None)\<lparr>mc_importance := 2\<rparr>"
  have "ce_fresh ?e \<noteq> []" "ce_fresh ?e \<notin> m_id ` set (memories sample_db)" "\<not> memory_create_ok ?b"
    by code_simp+
  with create_error_characterisation [OF sample_db_inv, of ?e plain_request
      "sample_claims ''w1'' ''ann''" ?b]
  show ?thesis by simp
qed

theorem read_is_authorised_witness:
  "\<exists>m g. fst (get_memory_route (sample_call []) plain_request (sample_claims ''w1'' ''ann'') ''c'' sample_db)
      = Inr m \<and> m_workgroup_id m = ''w2'' \<and> g \<in> set (grants sample_db) \<and> grant_covers g m"
proof -
  let ?p = "get_memory_route (sample_call []) plain_request (sample_claims ''w1'' ''ann'') ''c'' sample_db"
  have h: "is_ok (fst ?p)" "map_option m_workgroup_id (get_memory sample_db ''c'') = Some ''w2''"
    "wg_of (sample_claims ''w1'' ''ann'') = ''w1''"
    by code_simp+
  then obtain m db' task where p: "?p = (Inr m, db', task)"
    by (metis is_okE prod.collapse)
  from read_is_authorised [OF p] h(2,3) p show ?thesis by fastforce
qed

theorem revoked_grant_gives_no_access_witness:
  "get_grant (fst (snd (revoke_grant plain_request (sample_claims ''w2'' ''cat'') ''g'' sample_db))) ''g'' = None"
proof -
  let ?p = "revoke_grant plain_request (sample_claims ''w2'' ''cat'') ''g'' sample_db"
  have "is_ok (fst ?p)" by code_simp
  then obtain x db' task where p: "?p = (Inr x, db', task)"
    by (metis is_okE prod.collapse)
  from revoked_grant_gives_no_access [OF p] p show ?thesis by simp
qed

theorem deleted_memory_is_gone_witness:
  "status_of (fst (get_memory_route (sample_call []) plain_request (sample_claims ''w1'' ''ann'') ''a''
     (fst (snd (delete_memory_route (sample_call []) plain_request (sample_claims ''w1'' ''ann'') ''a''
        sample_db))))) = Some 404"
proof -
  let ?p = "delete_memory_route (sample_call []) plain_request (sample_claims ''w1'' ''ann'') ''a'' sample_db"
  have "is_ok (fst ?p)" by code_simp
  then obtain x db' task where p: "?p = (Inr x, db', task)"
    by (metis is_okE prod.collapse)
  from deleted_memory_is_gone [OF p] p show ?thesis by simp
qed

theorem update_is_guarded_witness:
  "status_of (fst (put_memory (sample_call []) plain_request (sample_claims ''w1'' ''bob'') ''a''
     \<lparr>mu_content = Some ''{}'', mu_importance = None\<rparr> sample_db)) = Some 403"
proof -
  let ?b = "\<lparr>mu_content = Some ''{}'', mu_importance = None\<rparr>"
  let ?c = "sample_claims ''w1'' ''bob''" and ?m = "sample_memory ''a'' ''ann'' ''w1'' ''workgroup'' (1/2)"
  obtain r db' task where p: "put_memory (sample_call []) plain_request ?c ''a'' ?b sample_db = (r, db', task)"
    by (metis prod_cases3)
  have "memory_update_ok ?b" "get_memory sample_db ''a'' = Some ?m" "wg_of ?c = ''w1''"
    "\<not> (m_workgroup_id ?m = wg_of ?c \<and> (is_admin ?c \<or> m_agent_id ?m = agent_of ?c))"
    by code_simp+
  with update_is_guarded [OF _ _ p, of ?m] p show ?thesis by simp
qed

theorem feedback_moves_towards_reward_witness:
  "\<exists>i old new db' task. memory_feedback (sample_call []) plain_request (sample_claims ''w1'' ''ann'') ''a'' 1
      sample_db = (Inr (i, old, new), db', task) \<and> old = 1/2 \<and> old \<le> new \<and> new \<le> 9/10"
proof -
  let ?p = "memory_feedback (sample_call []) plain_request (sample_claims ''w1'' ''ann'') ''a'' 1 sample_db"
  have h: "is_ok (fst ?p)" "map_option m_utility (get_memory sample_db ''a'') = Some (1/2)" by code_simp+
  then obtain i old new db' task where p: "?p = (Inr (i, old, new), db', task)"
    by (metis is_okE prod.collapse prod_cases3)
  from feedback_moves_towards_reward [OF sample_db_inv p] h(2) p show ?thesis by auto
qed

theorem cycle_check_iff_repeats_witness:
  "check_causal_cycle (empty_db\<lparr>memories :=
     [(sample_memory ''a'' ''ann'' ''w1'' ''private'' (1/2))\<lparr>m_causal_parent_id := Some ''a''\<rparr>]\<rparr>) ''a'' None"
  (is "check_causal_cycle ?db _ _")
proof -
  have "ancestor ?db 1 (Some ''a'') = Some ''a''" "ancestor ?db 0 (Some ''a'') = Some ''a''"
    by code_simp+
  then show ?thesis unfolding cycle_check_iff_repeats
    by (intro exI [of _ 1] conjI exI [of _ 0] exI [of _ "''a''"]) simp_all
qed

theorem causal_chains_acyclic_witness:
  "\<not> check_causal_cycle (ms_db sample_state) ''y'' None \<and>
   ancestor (ms_db sample_state) 1 (Some ''y'') = Some ''x''"
proof -
  have "ancestor (ms_db sample_state) 1 (Some ''y'') = Some ''x''" by code_simp
  with causal_chains_acyclic [OF sample_state_fresh, of "''y''"] show ?thesis by blast
qed

end
