(* ===== verification/Limiter.thy ===== *)
theory Limiter
  imports Prelude
begin

text \<open>
  Sliding-window rate limiting as an interface. Four parts of the program limit how often
  something happens: writes per agent, feedback per memory, requests for a share link per
  address and submitted executions per tenant. Each keeps its own record of what it admitted;
  what they share is stated here once, and each proves the laws for its own operations.
\<close>

section \<open>Runs\<close>

text \<open>
  A run at non-decreasing times: \<open>hit t s s'\<close> is an admitted request at time \<open>t\<close>,
  \<open>other t s s'\<close> anything else that happens. The run collects the times of the hits and the
  time of the last event.
\<close>

inductive limited_run ::
    "(int \<Rightarrow> 's \<Rightarrow> 's \<Rightarrow> bool) \<Rightarrow> (int \<Rightarrow> 's \<Rightarrow> 's \<Rightarrow> bool) \<Rightarrow> 's \<Rightarrow> int list \<Rightarrow> int \<Rightarrow> 's \<Rightarrow> bool"
  for hit other s0 where
  init: "limited_run hit other s0 [] t s0"
| admitted: "limited_run hit other s0 ts t s \<Longrightarrow> t \<le> t' \<Longrightarrow> hit t' s s' \<Longrightarrow>
    limited_run hit other s0 (ts @ [t']) t' s'"
| unrelated: "limited_run hit other s0 ts t s \<Longrightarrow> t \<le> t' \<Longrightarrow> other t' s s' \<Longrightarrow>
    limited_run hit other s0 ts t' s'"

inductive_cases limited_run_nilE: "limited_run hit other s0 [] t s"

definition in_window :: "int \<Rightarrow> int \<Rightarrow> int list \<Rightarrow> nat" where
  "in_window x w ts = length (filter (\<lambda>u. x < u \<and> u \<le> x + w) ts)"

lemma limited_run_times: "limited_run hit other s0 ts t s \<Longrightarrow> u \<in> set ts \<Longrightarrow> u \<le> t"
  by (induction rule: limited_run.induct) auto

lemma length_filter_mono:
  "(\<And>u. u \<in> set ts \<Longrightarrow> P u \<Longrightarrow> Q u) \<Longrightarrow> length (filter P ts) \<le> length (filter Q ts)"
  by (induction ts) auto

section \<open>A window limiter never admits too many\<close>

text \<open>
  \<open>count_after s x\<close> is the number of recorded hits after time \<open>x\<close>; \<open>ok_time\<close> are the times
  the record can tell apart. A hit happens only below the limit; it is recorded; and nothing
  that lies within the window is forgotten.
\<close>

locale window_limiter =
  fixes hit other :: "int \<Rightarrow> 's \<Rightarrow> 's \<Rightarrow> bool"
    and count_after :: "'s \<Rightarrow> int \<Rightarrow> nat"
    and limit :: nat and window :: int
    and ok_time :: "int \<Rightarrow> bool"
  assumes hit_ok: "hit t s s' \<Longrightarrow> ok_time (t - window)"
    and hit_admits: "hit t s s' \<Longrightarrow> count_after s (t - window) < limit"
    and hit_counts: "hit t s s' \<Longrightarrow> ok_time x \<Longrightarrow> t - window \<le> x \<Longrightarrow> x < t \<Longrightarrow>
      Suc (count_after s x) \<le> count_after s' x"
    and other_keeps: "other t s s' \<Longrightarrow> ok_time x \<Longrightarrow> t - window \<le> x \<Longrightarrow> x < t \<Longrightarrow>
      count_after s x \<le> count_after s' x"
    and hit_keeps: "hit t s s' \<Longrightarrow> ok_time x \<Longrightarrow> t - window \<le> x \<Longrightarrow> count_after s x \<le> count_after s' x"
begin

lemma recorded:
  assumes "limited_run hit other s0 ts t s" "ok_time x" "t - window \<le> x"
  shows "length (filter (\<lambda>u. x < u) ts) \<le> count_after s x"
  using assms
proof (induction rule: limited_run.induct)
  case (admitted ts t s t' s')
  then have IH: "length (filter (\<lambda>u. x < u) ts) \<le> count_after s x" by simp
  show ?case
  proof (cases "x < t'")
    case True
    then show ?thesis using hit_counts [OF admitted(3), of x] admitted.prems IH by simp
  next
    case False
    then show ?thesis using hit_keeps [OF admitted(3), of x] admitted.prems IH by simp
  qed
next
  case (unrelated ts t s t' s')
  then have IH: "length (filter (\<lambda>u. x < u) ts) \<le> count_after s x" by simp
  show ?case
  proof (cases "x < t'")
    case True
    then show ?thesis using other_keeps [OF unrelated(3), of x] unrelated.prems IH by simp
  next
    case False
    then have "filter (\<lambda>u. x < u) ts = []"
      using limited_run_times [OF unrelated(1)] unrelated(2) by (fastforce simp: filter_empty_conv)
    then show ?thesis by simp
  qed
qed simp

lemma never_exceeded:
  assumes "limited_run hit other s0 ts t s"
  shows "in_window x window ts \<le> limit"
  using assms
proof (induction rule: limited_run.induct)
  case (admitted ts t s t' s')
  show ?case
  proof (cases "x < t' \<and> t' \<le> x + window")
    case True
    have "length (filter (\<lambda>u. x < u \<and> u \<le> x + window) ts)
        \<le> length (filter (\<lambda>u. t' - window < u) ts)"
      using True by (intro length_filter_mono) auto
    also have "\<dots> \<le> count_after s (t' - window)"
      using recorded [OF admitted(1) hit_ok [OF admitted(3)]] admitted(2) by simp
    also have "\<dots> < limit" by (rule hit_admits [OF admitted(3)])
    finally show ?thesis using True by (simp add: in_window_def)
  next
    case False
    then show ?thesis using admitted.IH by (auto simp: in_window_def)
  qed
qed (simp_all add: in_window_def)

end

section \<open>A fair limiter denies only when the window is full\<close>

text \<open>
  \<open>count_from s x\<close> counts at most the hits since \<open>x\<close>; \<open>ok t s\<close> is what the record always
  satisfies at time \<open>t\<close>; a denial finds the count at the limit.
\<close>

locale fair_limiter = window_limiter +
  fixes deny :: "int \<Rightarrow> 'a \<Rightarrow> bool"
    and start :: 'a
    and count_from :: "'a \<Rightarrow> int \<Rightarrow> nat"
    and ok :: "int \<Rightarrow> 'a \<Rightarrow> bool"
  assumes from_start: "count_from start x = 0"
    and from_hit: "hit t s s' \<Longrightarrow> count_from s' x \<le> count_from s x + (if x \<le> t then 1 else 0)"
    and from_other: "other t s s' \<Longrightarrow> count_from s' x \<le> count_from s x"
    and ok_start: "ok t start"
    and ok_hit: "ok t s \<Longrightarrow> t \<le> t' \<Longrightarrow> hit t' s s' \<Longrightarrow> ok t' s'"
    and ok_other: "ok t s \<Longrightarrow> t \<le> t' \<Longrightarrow> other t' s s' \<Longrightarrow> ok t' s'"
    and deny_full: "ok t s \<Longrightarrow> t \<le> t' \<Longrightarrow> deny t' s \<Longrightarrow> limit \<le> count_from s (t' - window)"
begin

lemma from_run:
  "limited_run hit other start ts t s \<Longrightarrow> count_from s x \<le> length (filter (\<lambda>u. x \<le> u) ts)"
proof (induction rule: limited_run.induct)
  case (admitted ts t s t' s')
  then show ?case using from_hit [OF admitted(3), of x] by (auto split: if_splits)
next
  case (unrelated ts t s t' s')
  then show ?case using from_other [OF unrelated(3), of x] by simp
qed (simp add: from_start)

lemma ok_run: "limited_run hit other start ts t s \<Longrightarrow> ok t s"
  by (induction rule: limited_run.induct) (auto intro: ok_start ok_hit ok_other)

lemma denied_only_when_full:
  assumes "limited_run hit other start ts t s" "t \<le> t'" "deny t' s"
  shows "limit \<le> length (filter (\<lambda>u. t' - window \<le> u) ts)"
  using deny_full [OF ok_run [OF assms(1)] assms(2,3)] from_run [OF assms(1), of "t' - window"]
  by simp

end

section \<open>Sorted records\<close>

text \<open>The two in-process limiters keep the times of the admitted requests in a list per caller.\<close>

definition recorded_until :: "int \<Rightarrow> int list \<Rightarrow> bool" where
  "recorded_until t ts = (sorted ts \<and> (\<forall>u \<in> set ts. u \<le> t))"

lemma recorded_until_later: "recorded_until t ts \<Longrightarrow> t \<le> t' \<Longrightarrow> recorded_until t' ts"
  by (auto simp: recorded_until_def)

lemma recorded_until_append: "recorded_until t ts \<Longrightarrow> t \<le> t' \<Longrightarrow> recorded_until t' (ts @ [t'])"
  by (auto simp: recorded_until_def sorted_append intro: order_trans)

lemma recorded_until_filter: "recorded_until t ts \<Longrightarrow> recorded_until t (filter P ts)"
  by (auto simp: recorded_until_def sorted_wrt_filter)

lemma recorded_until_dropWhile: "recorded_until t ts \<Longrightarrow> recorded_until t (dropWhile P ts)"
  by (auto simp: recorded_until_def sorted_dropWhile dest: set_dropWhileD)

lemma dropWhile_sorted_filter:
  "sorted ts \<Longrightarrow> dropWhile (\<lambda>u. u < x) ts = filter (\<lambda>u. x \<le> u) (ts :: int list)"
proof (induction ts)
  case (Cons a ts)
  then show ?case by (cases "a < x") (auto intro!: filter_True [symmetric])
qed simp

end
