(* ===== verification/MemoryLimits.thy ===== *)
theory MemoryLimits
  imports MemorySystem Limiter
begin

text \<open>
  The two rate limits of the memory service, on writes of an agent and on feedback for a
  memory, count entries of the access log. The log only grows, its entries carry the time at
  which they were written, and the textual comparison of the count is one of times; so the
  limits hold of every run in which the entry of a request is written before the next request
  of the same kind is checked.
\<close>

section \<open>The log only grows\<close>

lemma create_memory_log: "create_memory t f kw db = Inr (m, db') \<Longrightarrow> access_log db' = access_log db"
  by (auto simp: create_memory_def insert_memory_def Let_def split: option.splits if_splits sum.splits)

lemma post_memory_log: "access_log (fst (snd (post_memory e rq c b db))) = access_log db"
  by (auto simp: post_memory_def split: sum.splits prod.splits option.splits dest: create_memory_log)

lemma get_search_log: "access_log (fst (snd (get_search pick e rq c q db))) = access_log db"
  by (auto simp: get_search_def search_memories_def touch_ids_def Let_def split: prod.splits if_splits)

lemma get_memory_route_log: "access_log (fst (snd (get_memory_route e rq c mid db))) = access_log db"
  by (auto simp: get_memory_route_def split: option.splits)

lemma put_memory_log: "access_log (fst (snd (put_memory e rq c mid b db))) = access_log db"
  by (auto simp: put_memory_def update_memory_def Let_def split: option.splits prod.splits if_splits)

lemma delete_memory_route_log: "access_log (fst (snd (delete_memory_route e rq c mid db))) = access_log db"
  by (auto simp: delete_memory_route_def soft_delete_memory_def Let_def split: option.splits prod.splits)

lemma update_utility_log: "update_utility t mid r db = (x, db') \<Longrightarrow> access_log db' = access_log db"
  by (auto simp: update_utility_def Let_def split: option.splits)

lemma memory_feedback_log: "access_log (fst (snd (memory_feedback e rq c mid r db))) = access_log db"
  by (auto simp: memory_feedback_def split: option.splits prod.splits dest: update_utility_log)

lemma post_grant_log: "access_log (fst (snd (post_grant e rq c b db))) = access_log db"
  by (auto simp: post_grant_def create_grant_def Let_def split: option.splits prod.splits sum.splits if_splits)

lemma revoke_grant_log: "access_log (fst (snd (revoke_grant rq c gid db))) = access_log db"
  by (auto simp: revoke_grant_def delete_grant_def Let_def split: option.splits)

lemma write_access_log_log:
  "write_access_log t lid a db = Inr (i, db') \<Longrightarrow> access_log db' = access_log db @ [log_row (isoformat t) lid a]"
  unfolding write_access_log_def by (cases "lid \<in> l_id ` set (access_log db)") (simp, clarsimp)

lemmas handler_logs = post_memory_log get_search_log get_memory_route_log put_memory_log
  delete_memory_route_log memory_feedback_log post_grant_log revoke_grant_log

lemma log_grows: "\<exists>ls. access_log (ms_db (apply_event ev s)) = access_log (ms_db s) @ ls"
proof (cases ev)
  case (RunLog t lid)
  then show ?thesis
    by (auto simp: RunLog dest!: write_access_log_log split: list.splits sum.splits prod.splits)
next
  case (Cleanup t t2 lid)
  then show ?thesis
    by (auto simp: cleanup_run_once_def Let_def dest!: write_access_log_log split: sum.splits prod.splits)
next
  case (Decay t)
  then show ?thesis by (auto simp: decay_run_once_def Let_def)
qed (simp_all add: handler_logs)

section \<open>Counting after a time\<close>

definition logged_after :: "(log_entry \<Rightarrow> bool) \<Rightarrow> mem_db \<Rightarrow> int \<Rightarrow> nat" where
  "logged_after P db x = count_where (\<lambda>e. isoformat x < l_created_at e \<and> P e) (access_log db)"

lemma logged_after_mono:
  "access_log db' = access_log db @ ls \<Longrightarrow> logged_after P db x \<le> logged_after P db' x"
  by (simp add: logged_after_def count_where_append)

lemma logged_after_entry:
  assumes "write_access_log u lid a db = Inr (i, db')" "P (log_row (isoformat u) lid a)"
    and "valid_instant x" "valid_instant u" "x < u"
  shows "Suc (logged_after P db x) \<le> logged_after P db' x"
  using assms isoformat_less_iff [of x u]
  by (simp add: logged_after_def write_access_log_log count_where_append count_where_Cons log_row_def)

lemma logged_after_recent:
  assumes "valid_instant (minus_seconds t w)" "valid_instant u" "t \<le> u" "0 \<le> w"
  shows "logged_after (counts_for agent action mid) db (u - w * 1000000)
    \<le> count_recent_actions t agent action mid w db"
proof -
  have v: "valid_instant (u - w * 1000000)"
    using assms by (auto simp: valid_instant_def minus_seconds_def)
  have "isoformat (minus_seconds t w) \<le> isoformat (u - w * 1000000)"
    unfolding isoformat_le_iff [OF assms(1) v] using assms(3) by (simp add: minus_seconds_def)
  then show ?thesis
    unfolding logged_after_def count_recent_actions_def count_where_def Let_def
    by (intro length_filter_mono) auto
qed

section \<open>Writes of an agent\<close>

text \<open>
  A write of the agent that is answered with success, checked at \<open>ce_t1 e\<close>, with its entry
  written at \<open>u\<close>; and every other event of the service.
\<close>

definition agent_write :: "string \<Rightarrow> int \<Rightarrow> mem_db \<Rightarrow> mem_db \<Rightarrow> bool" where
  "agent_write agent u db db' =
     (\<exists>e rq c b r db1 a lid i. post_memory e rq c b db = (Inr r, db1, Some a) \<and>
        mc_agent_id b = agent \<and> ce_t1 e \<le> u \<and> valid_instant (minus_seconds (ce_t1 e) 60) \<and>
        valid_instant u \<and> write_access_log u lid a db1 = Inr (i, db'))"

definition no_agent_write :: "string \<Rightarrow> int \<Rightarrow> mem_db \<Rightarrow> mem_db \<Rightarrow> bool" where
  "no_agent_write agent t db db' =
     (\<exists>ev s. ms_db s = db \<and> db' = ms_db (apply_event ev s) \<and>
        \<not> (\<exists>e rq c b. ev = PostMemory e rq c b \<and> mc_agent_id b = agent \<and>
              is_ok (fst (post_memory e rq c b db))))"

definition memory_fed_back :: "string \<Rightarrow> int \<Rightarrow> mem_db \<Rightarrow> mem_db \<Rightarrow> bool" where
  "memory_fed_back mid u db db' =
     (\<exists>e rq c rew r db1 a lid i. memory_feedback e rq c mid rew db = (Inr r, db1, Some a) \<and>
        (\<forall>x \<in> set mid. plain_char x) \<and> ce_t1 e \<le> u \<and> valid_instant (minus_seconds (ce_t1 e) 3600) \<and>
        valid_instant u \<and> write_access_log u lid a db1 = Inr (i, db'))"

definition no_feedback_on :: "string \<Rightarrow> int \<Rightarrow> mem_db \<Rightarrow> mem_db \<Rightarrow> bool" where
  "no_feedback_on mid t db db' =
     (\<exists>ev s. ms_db s = db \<and> db' = ms_db (apply_event ev s) \<and>
        \<not> (\<exists>e rq c rew. ev = Feedback e rq c mid rew \<and> is_ok (fst (memory_feedback e rq c mid rew db))))"

lemma agent_write_facts:
  assumes "agent_write agent u db db'"
  shows "valid_instant u" "valid_instant (u - 60 * 1000000)"
    "logged_after (counts_for (Some agent) ''write'' None) db (u - 60 * 1000000) < 100"
    "\<exists>ls. access_log db' = access_log db @ ls"
    "\<And>x. valid_instant x \<Longrightarrow> x < u \<Longrightarrow>
      Suc (logged_after (counts_for (Some agent) ''write'' None) db x)
      \<le> logged_after (counts_for (Some agent) ''write'' None) db' x"
proof -
  obtain e rq c b r db1 a lid i where w: "post_memory e rq c b db = (Inr r, db1, Some a)"
    "mc_agent_id b = agent" "ce_t1 e \<le> u" "valid_instant (minus_seconds (ce_t1 e) 60)"
    "valid_instant u" "write_access_log u lid a db1 = Inr (i, db')"
    using assms unfolding agent_write_def by blast
  from w(5) show "valid_instant u" .
  from w(3-5) show "valid_instant (u - 60 * 1000000)" by (auto simp: valid_instant_def minus_seconds_def)
  have log: "access_log db1 = access_log db" using post_memory_log [of e rq c b db] w(1) by simp
  from write_access_log_log [OF w(6)] log show "\<exists>ls. access_log db' = access_log db @ ls" by auto
  have low: "count_recent_actions (ce_t1 e) (Some agent) ''write'' None 60 db < 100"
    and la: "la_action a = ''write''" "la_agent_id a = agent"
    using w(1,2) by (auto simp: post_memory_def route_log_def log_call_def
        split: if_splits sum.splits option.splits)
  from logged_after_recent [OF w(4,5,3)] low
  show "logged_after (counts_for (Some agent) ''write'' None) db (u - 60 * 1000000) < 100"
    by (smt (verit) le_less_trans)
  fix x assume x: "valid_instant x" "x < u"
  have "counts_for (Some agent) ''write'' None (log_row (isoformat u) lid a)"
    using la by (simp add: counts_for_def log_row_def)
  from logged_after_entry [where P = "counts_for _ _ _", OF w(6) this x(1) w(5) x(2)]
  show "Suc (logged_after (counts_for (Some agent) ''write'' None) db x)
      \<le> logged_after (counts_for (Some agent) ''write'' None) db' x"
    using log by (simp add: logged_after_def)
qed

lemma memory_fed_back_facts:
  assumes "memory_fed_back mid u db db'"
  shows "valid_instant u" "valid_instant (u - 3600 * 1000000)"
    "logged_after (counts_for None ''feedback'' (Some mid)) db (u - 3600 * 1000000) < 10"
    "\<exists>ls. access_log db' = access_log db @ ls"
    "\<And>x. valid_instant x \<Longrightarrow> x < u \<Longrightarrow>
      Suc (logged_after (counts_for None ''feedback'' (Some mid)) db x)
      \<le> logged_after (counts_for None ''feedback'' (Some mid)) db' x"
proof -
  obtain e rq c rew r db1 a lid i where w: "memory_feedback e rq c mid rew db = (Inr r, db1, Some a)"
    "\<forall>x \<in> set mid. plain_char x" "ce_t1 e \<le> u" "valid_instant (minus_seconds (ce_t1 e) 3600)"
    "valid_instant u" "write_access_log u lid a db1 = Inr (i, db')"
    using assms unfolding memory_fed_back_def by blast
  from w(5) show "valid_instant u" .
  from w(3-5) show "valid_instant (u - 3600 * 1000000)" by (auto simp: valid_instant_def minus_seconds_def)
  have log: "access_log db1 = access_log db" using memory_feedback_log [of e rq c mid rew db] w(1) by simp
  from write_access_log_log [OF w(6)] log show "\<exists>ls. access_log db' = access_log db @ ls" by auto
  have low: "count_recent_actions (ce_t1 e) None ''feedback'' (Some mid) 3600 db < 10"
    and la: "la_action a = ''feedback''" "la_memory_ids a = Some [mid]"
    using w(1) by (auto simp: memory_feedback_def route_log_def log_call_def
        split: if_splits prod.splits option.splits)
  from logged_after_recent [OF w(4,5,3)] low
  show "logged_after (counts_for None ''feedback'' (Some mid)) db (u - 3600 * 1000000) < 10"
    by (smt (verit) le_less_trans)
  fix x assume x: "valid_instant x" "x < u"
  have "counts_for None ''feedback'' (Some mid) (log_row (isoformat u) lid a)"
    using la ids_like_logged [OF w(2)] by (simp add: counts_for_def log_row_def)
  from logged_after_entry [where P = "counts_for _ _ _", OF w(6) this x(1) w(5) x(2)]
  show "Suc (logged_after (counts_for None ''feedback'' (Some mid)) db x)
      \<le> logged_after (counts_for None ''feedback'' (Some mid)) db' x"
    using log by (simp add: logged_after_def)
qed

interpretation write_limiter: window_limiter "agent_write agent" "no_agent_write agent"
  "logged_after (counts_for (Some agent) ''write'' None)" 100 "60 * 1000000" valid_instant
proof (unfold_locales, goal_cases)
  case (4 t s s' x)
  then show ?case using log_grows logged_after_mono unfolding no_agent_write_def by metis
next
  case (5 t s s' x)
  then show ?case using agent_write_facts(4) [OF 5(1)] logged_after_mono by blast
qed (use agent_write_facts in auto)

interpretation feedback_limiter: window_limiter "memory_fed_back mid" "no_feedback_on mid"
  "logged_after (counts_for None ''feedback'' (Some mid))" 10 "3600 * 1000000" valid_instant
proof (unfold_locales, goal_cases)
  case (4 t s s' x)
  then show ?case using log_grows logged_after_mono unfolding no_feedback_on_def by metis
next
  case (5 t s s' x)
  then show ?case using memory_fed_back_facts(4) [OF 5(1)] logged_after_mono by blast
qed (use memory_fed_back_facts in auto)


section \<open>Witnesses\<close>

lemma one_feedback:
  "\<exists>db'. memory_fed_back ''a'' sample_time sample_db db'"
proof -
  let ?p = "memory_feedback (sample_call []) plain_request (sample_claims ''w1'' ''ann'') ''a'' 1 sample_db"
  let ?a = "the (snd (snd ?p))" and ?db1 = "fst (snd ?p)"
  have h: "is_ok (fst ?p)" "snd (snd ?p) \<noteq> None" "is_ok (write_access_log sample_time ''l'' ?a ?db1)"
    "\<forall>x \<in> set ''a''. plain_char x" "ce_t1 (sample_call []) \<le> sample_time"
    "valid_instant (minus_seconds (ce_t1 (sample_call [])) 3600)" "valid_instant sample_time"
    by code_simp+
  obtain r where r: "fst ?p = Inr r" using h(1) by (rule is_okE)
  obtain a where a: "snd (snd ?p) = Some a" using h(2) by blast
  obtain i db' where l: "write_access_log sample_time ''l'' ?a ?db1 = Inr (i, db')"
    using h(3) by (metis is_okE prod.collapse)
  have "?p = (Inr r, ?db1, Some a)" using r a by (simp add: prod_eq_iff)
  moreover have "write_access_log sample_time ''l'' a ?db1 = Inr (i, db')" using l a by simp
  ultimately show ?thesis unfolding memory_fed_back_def using h(4-7) by blast
qed


end
