(* ===== verification/MetaStore.thy ===== *)
theory MetaStore
  imports Clock
begin

text \<open>
  \<open>store/metadata_store.py\<close> and \<open>store/query_store.py\<close>: the tables of the metadata database
  and their operations, and the interface by which the session manager mirrors its sessions
  into the store.
\<close>

section \<open>Tables\<close>

record session_row =
  sr_id :: string
  sr_namespace :: string
  sr_state :: string
  sr_created_at :: string
  sr_last_active :: string

record mount_row =
  mr_session_id :: string
  mr_path :: string
  mr_alias :: string
  mr_mount_type :: string

record compute_row =
  cs_session_id :: string
  cs_query_hash :: string
  cs_wall_ms :: rat
  cs_mem_delta_kb :: rat
  cs_timestamp :: string

record query_row =
  qr_slug :: string
  qr_title :: string
  qr_description :: string
  qr_sql :: string
  qr_created_by :: string
  qr_tenant_id :: string
  qr_created_at :: string
  qr_visibility :: string

record history_row =
  hr_namespace :: string
  hr_tenant_id :: string
  hr_sql :: string
  hr_duration_ms :: rat
  hr_rows_returned :: int
  hr_status :: string
  hr_error_message :: "string option"
  hr_executed_at :: string

record invite_row =
  ir_token :: string
  ir_email :: string
  ir_tenant_id :: string
  ir_role :: string
  ir_status :: string
  ir_created_by :: string
  ir_created_at :: string
  ir_expires_at :: string
  ir_accepted_at :: "string option"

record meta_db =
  md_sessions :: "session_row list"
  md_mounts :: "mount_row list"
  md_compute :: "compute_row list"
  md_queries :: "query_row list"
  md_history :: "history_row list"
  md_invites :: "invite_row list"

definition empty_meta :: meta_db where
  "empty_meta = \<lparr>md_sessions = [], md_mounts = [], md_compute = [], md_queries = [],
     md_history = [], md_invites = []\<rparr>"

section \<open>Sessions\<close>

text \<open>\<open>INSERT ... ON CONFLICT(session_id) DO UPDATE\<close>: the row is replaced in its place.\<close>

definition upsert_session :: "session_row \<Rightarrow> session_row list \<Rightarrow> session_row list" where
  "upsert_session r rs = upsert_by sr_id r rs"

definition save_session ::
    "string \<Rightarrow> string \<Rightarrow> string \<Rightarrow> instant \<Rightarrow> instant \<Rightarrow> meta_db \<Rightarrow> meta_db" where
  "save_session sid ns state created active db =
     db\<lparr>md_sessions := upsert_session
       \<lparr>sr_id = sid, sr_namespace = ns, sr_state = state, sr_created_at = isoformat created,
        sr_last_active = isoformat active\<rparr> (md_sessions db)\<rparr>"

definition load_sessions :: "meta_db \<Rightarrow> session_row list" where
  "load_sessions db = filter (\<lambda>r. sr_state r \<noteq> ''DESTROYED'') (md_sessions db)"

definition delete_session :: "string \<Rightarrow> meta_db \<Rightarrow> meta_db" where
  "delete_session sid db =
     db\<lparr>md_sessions := delete_where (\<lambda>r. sr_id r = sid) (md_sessions db)\<rparr>"

section \<open>Mounts and compute samples\<close>

definition save_mount :: "mount_row \<Rightarrow> meta_db \<Rightarrow> meta_db" where
  "save_mount r db = db\<lparr>md_mounts := md_mounts db @ [r]\<rparr>"

definition list_mounts :: "string \<Rightarrow> meta_db \<Rightarrow> mount_row list" where
  "list_mounts sid db = filter (\<lambda>r. mr_session_id r = sid) (md_mounts db)"

definition delete_mounts :: "string \<Rightarrow> meta_db \<Rightarrow> meta_db" where
  "delete_mounts sid db = db\<lparr>md_mounts := delete_where (\<lambda>r. mr_session_id r = sid) (md_mounts db)\<rparr>"

definition log_compute_sample :: "compute_row \<Rightarrow> meta_db \<Rightarrow> meta_db" where
  "log_compute_sample r db = db\<lparr>md_compute := md_compute db @ [r]\<rparr>"

definition get_compute_samples :: "string option \<Rightarrow> meta_db \<Rightarrow> compute_row list" where
  "get_compute_samples sid db =
     (case sid of None \<Rightarrow> md_compute db
      | Some s \<Rightarrow> filter (\<lambda>r. cs_session_id r = s) (md_compute db))"

section \<open>Query history\<close>

definition log_query_history :: "history_row \<Rightarrow> meta_db \<Rightarrow> meta_db" where
  "log_query_history r db = db\<lparr>md_history := md_history db @ [r]\<rparr>"

definition executed_desc :: "history_row \<Rightarrow> history_row \<Rightarrow> bool" where
  "executed_desc a b = (hr_executed_at b \<le> hr_executed_at a)"

text \<open>\<open>first\<close> and \<open>until\<close> are the texts \<open>_to_iso\<close> gives for the bounds. The namespace is looked
  at only when there is no tenant.\<close>

definition history_matches ::
    "string option \<Rightarrow> string option \<Rightarrow> string option \<Rightarrow> string option \<Rightarrow> string option \<Rightarrow>
      history_row \<Rightarrow> bool" where
  "history_matches ns tenant status since until r =
     ((case tenant of Some t \<Rightarrow> hr_tenant_id r = t
       | None \<Rightarrow> (case ns of Some n \<Rightarrow> hr_namespace r = n | None \<Rightarrow> True))
      \<and> (case status of Some s \<Rightarrow> hr_status r = s | None \<Rightarrow> True)
      \<and> (case since of Some s \<Rightarrow> s \<le> hr_executed_at r | None \<Rightarrow> True)
      \<and> (case until of Some u \<Rightarrow> hr_executed_at r \<le> u | None \<Rightarrow> True))"

definition get_query_history ::
    "string option \<Rightarrow> string option \<Rightarrow> string option \<Rightarrow> string option \<Rightarrow> string option \<Rightarrow>
      int \<Rightarrow> int \<Rightarrow> meta_db \<Rightarrow> history_row list" where
  "get_query_history ns tenant status since until limit offset db =
     sql_limit_offset limit offset (sort_by executed_desc
       (filter (history_matches ns tenant status since until) (md_history db)))"

section \<open>Named queries\<close>

text \<open>\<open>re.sub('[^a-z0-9]+', '-', s)\<close>: each run of other characters becomes one hyphen.\<close>

definition slug_char :: "char \<Rightarrow> bool" where
  "slug_char c = (is_lower_az c \<or> is_digit_c c)"

fun collapse_runs :: "bool \<Rightarrow> string \<Rightarrow> string" where
  "collapse_runs in_run [] = []"
| "collapse_runs in_run (c # s) =
     (if slug_char c then c # collapse_runs False s
      else if in_run then collapse_runs True s
      else CHR ''-'' # collapse_runs True s)"

definition make_slug :: "string \<Rightarrow> string" where
  "make_slug title =
     (let slug = strip_with (\<lambda>c. c = CHR ''-'') (collapse_runs False (lower title))
      in if slug = [] then ''query'' else slug)"

datatype query_error = DuplicateQuery string | QueryNotFound string | PermissionDenied string

definition save_query ::
    "instant \<Rightarrow> string \<Rightarrow> string \<Rightarrow> string \<Rightarrow> string \<Rightarrow> string \<Rightarrow> string \<Rightarrow> meta_db \<Rightarrow>
      query_error + string \<times> meta_db" where
  "save_query t title descr sql created_by tenant visibility db =
     (let slug = make_slug title in
      if slug \<in> qr_slug ` set (md_queries db) then Inl (DuplicateQuery slug)
      else Inr (slug, db\<lparr>md_queries := md_queries db @
        [\<lparr>qr_slug = slug, qr_title = title, qr_description = descr, qr_sql = sql,
          qr_created_by = created_by, qr_tenant_id = tenant, qr_created_at = isoformat t,
          qr_visibility = visibility\<rparr>]\<rparr>))"

definition get_query_by_slug :: "string \<Rightarrow> string \<Rightarrow> bool \<Rightarrow> meta_db \<Rightarrow> query_error + query_row" where
  "get_query_by_slug slug tenant enforce db =
     (case find (\<lambda>r. qr_slug r = slug) (md_queries db) of
        None \<Rightarrow> Inl (QueryNotFound slug)
      | Some r \<Rightarrow>
          if enforce \<and> qr_visibility r = ''private'' \<and> qr_tenant_id r \<noteq> tenant
          then Inl (PermissionDenied slug) else Inr r)"

definition created_asc :: "query_row \<Rightarrow> query_row \<Rightarrow> bool" where
  "created_asc a b = (qr_created_at a \<le> qr_created_at b)"

definition list_queries ::
    "string option \<Rightarrow> bool \<Rightarrow> int \<Rightarrow> int \<Rightarrow> string option \<Rightarrow> meta_db \<Rightarrow> query_row list" where
  "list_queries tenant include_public limit offset created_by db =
     sql_limit_offset limit offset (sort_by created_asc
       (filter (\<lambda>r. case tenant of
            Some t \<Rightarrow> qr_tenant_id r = t \<or> (include_public \<and> qr_visibility r = ''public'')
          | None \<Rightarrow> (case created_by of Some c \<Rightarrow> qr_created_by r = c | None \<Rightarrow> True))
         (md_queries db)))"

section \<open>Slugs\<close>

lemma collapse_runs_chars: "c \<in> set (collapse_runs b s) \<Longrightarrow> slug_char c \<or> c = CHR ''-''"
  by (induction b s rule: collapse_runs.induct) (auto split: if_splits)

lemma slug_char_hyphen [simp]: "\<not> slug_char (CHR ''-'')"
  by (simp add: slug_char_def is_lower_az_def is_digit_c_def)

lemma collapse_runs_single:
  "no_double CHR ''-'' (collapse_runs b s) \<and>
    (b \<longrightarrow> (case collapse_runs b s of [] \<Rightarrow> True | c # _ \<Rightarrow> c \<noteq> CHR ''-''))"
proof (induction b s rule: collapse_runs.induct)
  case (2 b c s)
  have cons: "no_double CHR ''-'' (a # t)" if "no_double CHR ''-'' t"
    "a = CHR ''-'' \<longrightarrow> (case t of [] \<Rightarrow> True | c # _ \<Rightarrow> c \<noteq> CHR ''-'')" for a t
    using that by (cases t) auto
  show ?case
  proof (cases "slug_char c")
    case True
    then have "c \<noteq> CHR ''-''" by auto
    then show ?thesis using 2 True cons by simp
  next
    case False
    then show ?thesis using 2 cons by (cases b) simp_all
  qed
qed simp

lemma slug_char_lower: "slug_char c \<Longrightarrow> lower_c c = c"
  by (auto simp: slug_char_def is_lower_az_def is_digit_c_def lower_c_def is_upper_az_def Let_def)

lemma collapse_runs_id:
  assumes "\<forall>c \<in> set s. slug_char c \<or> c = CHR ''-''" "no_double CHR ''-'' s"
    "b \<longrightarrow> (case s of [] \<Rightarrow> True | c # _ \<Rightarrow> c \<noteq> CHR ''-'')"
  shows "collapse_runs b s = s"
  using assms
proof (induction b s rule: collapse_runs.induct)
  case (2 b c s)
  then show ?case by (cases s) auto
qed simp

lemma strip_with_id:
  assumes "s \<noteq> []" "\<not> p (hd s)" "\<not> p (last s)"
  shows "strip_with p s = s"
proof -
  have "dropWhile p s = s" using assms by (cases s) auto
  moreover have "dropWhile p (rev s) = rev s"
    using assms by (cases s rule: rev_cases) auto
  ultimately show ?thesis by (simp add: strip_with_def)
qed

text \<open>The route's pattern \<open>^[a-z0-9][a-z0-9-]*$\<close>\<close>

definition slug_pattern :: pattern where
  "slug_pattern = [Bol, One slug_char, Many (\<lambda>c. slug_char c \<or> c = CHR ''-''), Eol]"

lemma rx_many_eol: "\<forall>c \<in> set s. f c \<Longrightarrow> rx_match [Many f, Eol] p s"
  by (induction s arbitrary: p) auto

lemma make_slug_shape:
  "make_slug title \<noteq> [] \<and> (\<forall>c \<in> set (make_slug title). slug_char c \<or> c = CHR ''-'') \<and>
    hd (make_slug title) \<noteq> CHR ''-'' \<and> last (make_slug title) \<noteq> CHR ''-'' \<and>
    no_double CHR ''-'' (make_slug title) \<and> rx_match_start slug_pattern (make_slug title) \<and>
    make_slug (make_slug title) = make_slug title"
proof -
  let ?s = "make_slug title" and ?h = "\<lambda>c. c = CHR ''-''"
  have base: "?s \<noteq> [] \<and> (\<forall>c \<in> set ?s. slug_char c \<or> c = CHR ''-'') \<and>
      hd ?s \<noteq> CHR ''-'' \<and> last ?s \<noteq> CHR ''-'' \<and> no_double CHR ''-'' ?s"
  proof (cases "strip_with ?h (collapse_runs False (lower title)) = []")
    case True
    then have "?s = ''query''" by (simp add: make_slug_def)
    moreover have "\<forall>c \<in> set ''query''. slug_char c" by code_simp
    ultimately show ?thesis by simp
  next
    case False
    then have s: "?s = strip_with ?h (collapse_runs False (lower title))" by (simp add: make_slug_def)
    have "no_double CHR ''-'' (collapse_runs False (lower title))"
      using collapse_runs_single by blast
    then have "no_double CHR ''-'' ?s"
      using strip_with_take_drop [of ?h "collapse_runs False (lower title)"] s
        no_double_take no_double_drop by metis
    moreover have "slug_char c \<or> c = CHR ''-''" if "c \<in> set ?s" for c
      using that s set_strip_with collapse_runs_chars by (metis subsetD)
    ultimately show ?thesis
      using strip_with_ends [OF False] False s by simp
  qed
  then have low: "lower ?s = ?s"
  proof -
    have "lower_c c = c" if "c \<in> set ?s" for c
    proof (cases "c = CHR ''-''")
      case False
      then show ?thesis using base that slug_char_lower by blast
    next
      case True
      have "lower_c (CHR ''-'') = CHR ''-''" by code_simp
      then show ?thesis using True by simp
    qed
    then show ?thesis by (simp add: lower_def map_idI)
  qed
  have "collapse_runs False ?s = ?s" using base by (intro collapse_runs_id) auto
  then have "strip_with ?h (collapse_runs False (lower ?s)) = ?s"
    using base low by (simp add: strip_with_id)
  then have "make_slug ?s = ?s" using base by (simp add: make_slug_def)
  moreover have "rx_match_start slug_pattern ?s"
  proof (cases ?s)
    case (Cons c t)
    then have "slug_char c" using base by auto
    moreover have "rx_match [Many (\<lambda>c. slug_char c \<or> c = CHR ''-''), Eol] (Some c) t"
      using base Cons by (intro rx_many_eol) auto
    ultimately show ?thesis using Cons by (simp add: rx_match_start_def slug_pattern_def)
  qed (use base in simp)
  ultimately show ?thesis using base by blast
qed

text \<open>
  Property C16. The slug of a title consists of lower-case letters, digits and single hyphens,
  neither begins nor ends with a hyphen, is accepted by the pattern of the route that reads
  a query back, and is its own slug.
\<close>

theorem slug_wellformed:
  "make_slug title \<noteq> [] \<and> (\<forall>c \<in> set (make_slug title). slug_char c \<or> c = CHR ''-'') \<and>
    hd (make_slug title) \<noteq> CHR ''-'' \<and> last (make_slug title) \<noteq> CHR ''-'' \<and>
    no_double CHR ''-'' (make_slug title) \<and> rx_match_start slug_pattern (make_slug title) \<and>
    make_slug (make_slug title) = make_slug title"
  by (rule make_slug_shape)

theorem slug_wellformed_witness:
  "make_slug ''  Daily Sales (v2)!'' = ''daily-sales-v2'' \<and>
   make_slug ''daily-sales-v2'' = ''daily-sales-v2'' \<and> rx_match_start slug_pattern ''daily-sales-v2''"
proof -
  have "make_slug ''  Daily Sales (v2)!'' = ''daily-sales-v2''" by code_simp
  with slug_wellformed [of "''  Daily Sales (v2)!''"] show ?thesis by simp
qed

section \<open>A keyed store as an interface\<close>

text \<open>
  What a cache in memory needs of the store behind it: a saved row is found under its key, as
  far as the view of it goes, a removed one is not found, and other keys are not touched.
\<close>

locale keyed_store =
  fixes save :: "'r \<Rightarrow> 's \<Rightarrow> 's"
    and remove :: "string \<Rightarrow> 's \<Rightarrow> 's"
    and find_key :: "string \<Rightarrow> 's \<Rightarrow> 'v option"
    and key :: "'r \<Rightarrow> string"
    and view :: "'r \<Rightarrow> 'v"
  assumes find_save: "find_key k (save r s) = (if k = key r then Some (view r) else find_key k s)"
    and find_remove: "find_key k (remove j s) = (if k = j then None else find_key k s)"

text \<open>The entries in memory, seen through \<open>proj\<close>, are the rows of the store.\<close>

definition mirrors ::
    "(string \<Rightarrow> 's \<Rightarrow> 'v option) \<Rightarrow> ('m \<Rightarrow> 'v) \<Rightarrow> (string \<Rightarrow> 'm option) \<Rightarrow> 's \<Rightarrow> bool" where
  "mirrors find_key proj mem s = (\<forall>k. find_key k s = map_option proj (mem k))"

context keyed_store
begin

lemma mirrors_save:
  assumes "mirrors find_key proj mem s" "proj v = view r"
    "\<And>k. mem' k = (if k = key r then Some v else mem k)"
  shows "mirrors find_key proj mem' (save r s)"
  using assms by (simp add: mirrors_def find_save)

lemma mirrors_remove:
  assumes "mirrors find_key proj mem s" "\<And>k. mem' k = (if k = j then None else mem k)"
  shows "mirrors find_key proj mem' (remove j s)"
  using assms by (simp add: mirrors_def find_remove)

lemma mirrors_keep:
  assumes "mirrors find_key proj mem s" "\<And>k. map_option proj (mem' k) = map_option proj (mem k)"
  shows "mirrors find_key proj mem' s"
  using assms by (simp add: mirrors_def)

end

section \<open>The sessions table is a keyed store\<close>

text \<open>The view of a session row leaves out the time of the last activity, which the session
  manager does not write back on every query.\<close>

definition session_view :: "session_row \<Rightarrow> string \<times> string \<times> string" where
  "session_view r = (sr_namespace r, sr_state r, sr_created_at r)"

definition find_session :: "string \<Rightarrow> meta_db \<Rightarrow> (string \<times> string \<times> string) option" where
  "find_session sid db = map_option session_view (find (\<lambda>r. sr_id r = sid) (md_sessions db))"

definition put_session :: "session_row \<Rightarrow> meta_db \<Rightarrow> meta_db" where
  "put_session r db = db\<lparr>md_sessions := upsert_session r (md_sessions db)\<rparr>"

lemma save_session_put:
  "save_session sid ns state created active db = put_session
     \<lparr>sr_id = sid, sr_namespace = ns, sr_state = state, sr_created_at = isoformat created,
      sr_last_active = isoformat active\<rparr> db"
  by (simp add: save_session_def put_session_def)

interpretation sessions_table: keyed_store put_session delete_session find_session sr_id session_view
  by unfold_locales
    (auto simp: find_session_def put_session_def upsert_session_def find_upsert_by delete_session_def
      find_delete_key)

end
