(* ===== verification/IsoParse.thy ===== *)
theory IsoParse
  imports Clock
begin

text \<open>
  \<open>datetime.fromisoformat\<close> on the texts the program writes: a date, \<open>T\<close>, a time with or without
  six digits of fraction, and the offset \<open>+00:00\<close>. Other forms Python accepts are read as
  \<open>None\<close> here. The result of the theory is that reading what \<^term>\<open>isoformat\<close> wrote gives the
  instant back.
\<close>

definition digit_val :: "char \<Rightarrow> int" where
  "digit_val c = of_char c - 48"

fun read_digits :: "int \<Rightarrow> string \<Rightarrow> int option" where
  "read_digits acc [] = Some acc"
| "read_digits acc (c # s) =
     (if is_digit_c c then read_digits (acc * 10 + digit_val c) s else None)"

text \<open>A number of \<open>k\<close> digits at the front, and the rest.\<close>

definition take_number :: "nat \<Rightarrow> string \<Rightarrow> (int \<times> string) option" where
  "take_number k s =
     (if length s < k then None
      else map_option (\<lambda>n. (n, drop k s)) (read_digits 0 (take k s)))"

definition expect :: "char \<Rightarrow> string \<Rightarrow> string option" where
  "expect c s = (case s of [] \<Rightarrow> None | x # r \<Rightarrow> if x = c then Some r else None)"

text \<open>A number of \<open>k\<close> digits followed by the character \<open>c\<close>.\<close>

definition number_then :: "nat \<Rightarrow> char \<Rightarrow> string \<Rightarrow> (int \<times> string) option" where
  "number_then k c s =
     (case take_number k s of None \<Rightarrow> None
      | Some (n, r) \<Rightarrow> map_option (\<lambda>r'. (n, r')) (expect c r))"

definition parse_fraction :: "string \<Rightarrow> int option" where
  "parse_fraction s =
     (if s = ''+00:00'' then Some 0
      else case expect CHR ''.'' s of
        None \<Rightarrow> None
      | Some r \<Rightarrow>
          (case take_number 6 r of
             None \<Rightarrow> None
           | Some (f, r') \<Rightarrow> if r' = ''+00:00'' then Some f else None))"

definition parse_time :: "string \<Rightarrow> int option" where
  "parse_time s =
     (case number_then 2 CHR '':'' s of None \<Rightarrow> None | Some (h, s1) \<Rightarrow>
        (case number_then 2 CHR '':'' s1 of None \<Rightarrow> None | Some (m, s2) \<Rightarrow>
           (case take_number 2 s2 of None \<Rightarrow> None | Some (x, s3) \<Rightarrow>
              (case parse_fraction s3 of None \<Rightarrow> None | Some f \<Rightarrow>
                 if h < 24 \<and> m < 60 \<and> x < 60
                 then Some ((h * 3600 + m * 60 + x) * 1000000 + f) else None))))"

definition fromisoformat :: "string \<Rightarrow> instant option" where
  "fromisoformat s =
     (case number_then 4 CHR ''-'' s of None \<Rightarrow> None | Some (y, s1) \<Rightarrow>
        (case number_then 2 CHR ''-'' s1 of None \<Rightarrow> None | Some (m, s2) \<Rightarrow>
           (case number_then 2 CHR ''T'' s2 of None \<Rightarrow> None | Some (d, s3) \<Rightarrow>
              if valid_ymd y m d
              then map_option (\<lambda>us. (ymd2ord y m d - 1) * us_per_day + us) (parse_time s3)
              else None)))"

section \<open>Reading back\<close>

lemma read_digits_append:
  "read_digits acc (s @ t) = (case read_digits acc s of None \<Rightarrow> None | Some a \<Rightarrow> read_digits a t)"
  by (induction s arbitrary: acc) auto

lemma digit_char:
  assumes "0 \<le> d" "d < 10"
  shows "is_digit_c (char_of (nat (48 + d)))" "digit_val (char_of (nat (48 + d))) = d"
proof -
  have n: "nat (48 + d) < 256" using assms by simp
  then have c: "of_char (char_of (nat (48 + d)) :: char) = nat (48 + d)" by simp
  show "is_digit_c (char_of (nat (48 + d)))" using assms c by (simp add: is_digit_c_def Let_def) linarith
  have "(of_char (char_of (nat (48 + d)) :: char) :: int) = int (of_char (char_of (nat (48 + d)) :: char))"
    by (rule of_nat_of_char [symmetric])
  then show "digit_val (char_of (nat (48 + d))) = d"
    unfolding digit_val_def c using assms by simp
qed

lemma read_pad:
  assumes "0 \<le> n" "n < 10 ^ k"
  shows "read_digits acc (pad k n) = Some (acc * 10 ^ k + n)"
  using assms
proof (induction k arbitrary: n acc)
  case (Suc k)
  have q: "0 \<le> n div 10 ^ k" "n div 10 ^ k < 10"
    using digit_range [OF Suc.prems] by simp_all
  have "read_digits acc (pad (Suc k) n) = read_digits (acc * 10 + n div 10 ^ k) (pad k (n mod 10 ^ k))"
    using digit_char [OF q] by simp
  also have "\<dots> = Some ((acc * 10 + n div 10 ^ k) * 10 ^ k + n mod 10 ^ k)"
    by (rule Suc.IH) simp_all
  also have "(acc * 10 + n div 10 ^ k) * 10 ^ k + n mod 10 ^ k = acc * 10 ^ Suc k + n"
    using div_mult_mod_eq [of n "10 ^ k"] by (simp add: algebra_simps)
  finally show ?case .
qed simp

lemma take_number_pad:
  "0 \<le> n \<Longrightarrow> n < 10 ^ k \<Longrightarrow> take_number k (pad k n @ r) = Some (n, r)"
  by (simp add: take_number_def read_pad)

lemma number_then_pad:
  "0 \<le> n \<Longrightarrow> n < 10 ^ k \<Longrightarrow> number_then k c (pad k n @ c # r) = Some (n, r)"
  by (simp add: number_then_def take_number_pad expect_def)

lemma parse_time_str:
  assumes "0 \<le> us" "us < us_per_day"
  shows "parse_time (time_str us @ ''+00:00'') = Some us"
proof -
  define s f where "s = us div 1000000" and "f = us mod 1000000"
  have us: "us = s * 1000000 + f" by (simp add: s_def f_def)
  have f: "0 \<le> f" "f < 1000000" by (simp_all add: f_def)
  have s: "0 \<le> s" "s < 86400"
    using assms by (auto simp: s_def us_per_day_def pos_imp_zdiv_nonneg_iff)
  define h m x where "h = s div 3600" and "m = s mod 3600 div 60" and "x = s mod 60"
  have dec: "s = h * 3600 + m * 60 + x"
  proof -
    have "60 * m + x = s mod 3600"
      using mult_div_mod_eq [of 60 "s mod 3600"] mod_mod_cancel [of 60 3600 s]
      by (simp add: m_def x_def)
    then show ?thesis using mult_div_mod_eq [of 3600 s] unfolding h_def by linarith
  qed
  have r: "0 \<le> h" "h < 24" "0 \<le> m" "m < 60" "0 \<le> x" "x < 60"
    using s by (auto simp: h_def m_def x_def pos_imp_zdiv_nonneg_iff)
  have fr: "parse_fraction ((if f = 0 then [] else ''.'' @ pad 6 f) @ ''+00:00'') = Some f"
    using f take_number_pad [of f 6 "''+00:00''"] by (simp add: parse_fraction_def expect_def)
  have "time_str us @ ''+00:00'' = pad 2 h @ CHR '':'' # pad 2 m @ CHR '':'' # pad 2 x
      @ ((if f = 0 then [] else ''.'' @ pad 6 f) @ ''+00:00'')"
    by (simp add: time_str_def Let_def s_def f_def h_def m_def x_def)
  then show ?thesis
    using r fr unfolding parse_time_def
    by (simp add: number_then_pad take_number_pad dec us)
qed

lemma read_isoformat:
  assumes "valid_instant t"
  shows "fromisoformat (isoformat t) = Some t"
proof -
  define D T where "D = t div us_per_day" and "T = t mod us_per_day"
  have pos: "0 < us_per_day" by (simp add: us_per_day_def)
  have t: "t = D * us_per_day + T" by (simp add: D_def T_def)
  have D: "0 \<le> D" "D < 3652059"
    using assms pos by (auto simp: D_def valid_instant_def max_instant_def us_per_day_def)
  have T: "0 \<le> T" "T < us_per_day" using pos by (simp_all add: T_def)
  obtain y m d where o1: "ord2ymd (D + 1) = (y, m, d)" by (cases "ord2ymd (D + 1)")
  have v: "valid_ymd y m d" "ymd2ord y m d = D + 1"
    using ord2ymd_correct [OF _ o1] D by auto
  have "y \<le> 9999" using ord2ymd_year_bound [OF _ _ o1] D by simp
  note g = month_day_digits [OF v(1) this]
  have "isoformat t = pad 4 y @ CHR ''-'' # pad 2 m @ CHR ''-'' # pad 2 d @ CHR ''T''
      # (time_str T @ ''+00:00'')"
    by (simp add: isoformat_def date_str_def o1 D_def [symmetric] T_def [symmetric])
  then show ?thesis
    unfolding fromisoformat_def
    by (simp add: number_then_pad [OF g(1,2)] number_then_pad [OF g(3,4)] number_then_pad [OF g(5,6)]
        v parse_time_str [OF T] t)
qed

text \<open>
  Timestamps survive the round trip through the database: reading the text
  written for an instant gives that instant, with or without a fraction of a second.
\<close>

theorem fromisoformat_isoformat:
  assumes "valid_instant t"
  shows "fromisoformat (isoformat t) = Some t"
  using assms by (rule read_isoformat)

theorem fromisoformat_isoformat_witness:
  "isoformat 63902822400000001 = ''2026-01-01T00:00:00.000001+00:00'' \<and>
   fromisoformat ''2026-01-01T00:00:00.000001+00:00'' = Some 63902822400000001"
proof -
  have "isoformat 63902822400000001 = ''2026-01-01T00:00:00.000001+00:00''"
    "valid_instant 63902822400000001"
    by code_simp+
  with fromisoformat_isoformat [of 63902822400000001] show ?thesis by simp
qed

end
