(* ===== verification/Sandbox.thy ===== *)
theory Sandbox
  imports PyText
begin

text \<open>
  \<open>security/sql_sandbox.py\<close>: the blocked patterns of the query endpoint, as lists of regular
  expression atoms, and \<open>check_sql\<close>.
\<close>

text \<open>\<open>^\s*word\b\<close> for a keyword at the start of the text\<close>

definition leading :: "string \<Rightarrow> pattern" where
  "leading w = [Bol] @ spaces0 @ lit_ic w @ [Boundary]"

definition leading2 :: "string \<Rightarrow> string \<Rightarrow> pattern" where
  "leading2 v w = [Bol] @ spaces0 @ lit_ic v @ spaces1 @ lit_ic w @ [Boundary]"

definition pattern_defs :: "(string \<times> pattern) list" where
  "pattern_defs =
     [(''COPY'', leading ''copy''),
      (''LOAD'', leading ''load''),
      (''INSTALL'', leading ''install''),
      (''ATTACH'', leading ''attach''),
      (''EXPORT DATABASE'', leading2 ''export'' ''database''),
      (''IMPORT DATABASE'', leading2 ''import'' ''database''),
      (''CREATE SECRET'', leading2 ''create'' ''secret''),
      (''SET'', leading ''set''),
      (''PRAGMA'', leading ''pragma''),
      (''read_csv'', [Boundary] @ lit_ic ''read_csv''),
      (''read_parquet'', [Boundary] @ lit_ic ''read_parquet'' @ [Boundary]),
      (''read_json'', [Boundary] @ lit_ic ''read_json''),
      (''read_text'', [Boundary] @ lit_ic ''read_text'' @ [Boundary]),
      (''read_blob'', [Boundary] @ lit_ic ''read_blob'' @ [Boundary]),
      (''glob'', [Boundary] @ lit_ic ''glob'' @ spaces0 @ [One (\<lambda>c. c = CHR ''('')])]"

text \<open>The name of the first pattern that matches, \<open>None\<close> when the text is allowed.\<close>

definition check_sql :: "string \<Rightarrow> string option" where
  "check_sql sql =
     (if blank sql then None
      else map_option fst (find (\<lambda>(name, regex). rx_search regex sql) pattern_defs))"

section \<open>What the patterns match\<close>

lemma rx_search_Bol: "rx_search (Bol # r) s = rx_match r None s"
proof -
  have "\<not> rx_search_from (Bol # r) (Some c) t" for c t
    by (induction t arbitrary: c) auto
  then show ?thesis by (cases s) (auto simp: rx_search_def)
qed

lemma rx_match_Many:
  "rx_match (Many f # r) p s \<longleftrightarrow>
    (\<exists>u v. s = u @ v \<and> (\<forall>c \<in> set u. f c) \<and> rx_match r (if u = [] then p else Some (last u)) v)"
proof (induction s arbitrary: p)
  case (Cons c s)
  show ?case (is "?l = ?r")
  proof
    assume ?l
    then consider "rx_match r p (c # s)" | "f c" "rx_match (Many f # r) (Some c) s" by auto
    then show ?r
    proof cases
      case 2
      then obtain u v where "s = u @ v" "\<forall>c \<in> set u. f c"
        "rx_match r (if u = [] then Some c else Some (last u)) v"
        using Cons by blast
      then show ?thesis using 2 by (intro exI [of _ "c # u"] exI [of _ v]) auto
    qed (force intro: exI [of _ "[]"])
  next
    assume ?r
    then obtain u v where uv: "c # s = u @ v" "\<forall>c \<in> set u. f c"
      "rx_match r (if u = [] then p else Some (last u)) v" by blast
    show ?l
    proof (cases u)
      case Nil
      then have "v = c # s" using uv(1) by simp
      then show ?thesis using uv(3) Nil by simp
    next
      case (Cons c' u')
      then have "rx_match (Many f # r) (Some c) s"
        using uv \<open>\<And>p. rx_match (Many f # r) p s \<longleftrightarrow> _\<close> by (auto split: if_splits)
      then show ?thesis using Cons uv by simp
    qed
  qed
qed auto

lemma rx_match_lit:
  "lower u = w \<Longrightarrow> rx_match r (if u = [] then p else Some (last u)) v \<Longrightarrow>
    rx_match (lit_ic w @ r) p (u @ v)"
proof (induction u arbitrary: w p)
  case Nil
  then show ?case by (simp add: lit_ic_def lower_def)
next
  case (Cons c u)
  then obtain w' where w: "w = lower_c c # w'" "lower u = w'" by (auto simp: lower_def)
  then have "rx_match (lit_ic w' @ r) (Some c) (u @ v)"
    using Cons by (cases u) auto
  then show ?case using w by (simp add: lit_ic_def)
qed

lemma rx_search_from_append:
  "rx_match r (if u = [] then p else Some (last u)) v \<Longrightarrow> rx_search_from r p (u @ v)"
proof (induction u arbitrary: p)
  case Nil
  then show ?case by (cases v) auto
next
  case (Cons c u)
  then show ?case by (cases u) auto
qed

lemma check_sql_blocks:
  assumes "(name, regex) \<in> set pattern_defs" "rx_search regex sql" "\<not> blank sql"
  shows "check_sql sql \<noteq> None"
  using assms by (auto simp: check_sql_def find_None_iff_ball)

text \<open>The first word of a statement.\<close>

definition first_word :: "string \<Rightarrow> string" where
  "first_word s = takeWhile is_word (dropWhile is_space s)"

definition blocked_words :: "string list" where
  "blocked_words = [''copy'', ''load'', ''install'', ''attach'', ''set'', ''pragma'']"

lemma is_word_not_space: "is_word c \<Longrightarrow> \<not> is_space c"
  by (auto simp: is_word_def is_space_def is_upper_az_def is_lower_az_def is_digit_c_def Let_def)

lemma leading_matches:
  assumes "lower (first_word s) = w" "w \<noteq> []"
  shows "rx_search (leading w) s"
proof -
  let ?v = "dropWhile is_space s"
  let ?rest = "dropWhile is_word ?v"
  have fw: "first_word s \<noteq> []" using assms by (auto simp: lower_def)
  then have "last (first_word s) \<in> set (first_word s)" by simp
  then have word: "is_word (last (first_word s))"
    unfolding first_word_def by (rule set_takeWhileD [THEN conjunct2])
  have "\<not> word_at (head_opt ?rest)"
  proof (cases ?rest)
    case (Cons c t)
    then show ?thesis using hd_dropWhile [of is_word ?v] by (simp add: word_at_def head_opt_def)
  next
    case Nil
    show ?thesis unfolding Nil by (simp add: word_at_def head_opt_def)
  qed
  then have "rx_match [Boundary] (Some (last (first_word s))) ?rest"
    using word by (simp add: word_at_def)
  moreover have v: "?v = first_word s @ ?rest" by (simp add: first_word_def)
  ultimately have "rx_match (lit_ic w @ [Boundary]) q ?v" for q
    using assms fw rx_match_lit [of "first_word s" w "[Boundary]" q ?rest] by simp
  moreover have "\<forall>c \<in> set (takeWhile is_space s). is_space c" by (auto dest: set_takeWhileD)
  moreover have "s = takeWhile is_space s @ ?v" by simp
  ultimately have "rx_match (Many is_space # lit_ic w @ [Boundary]) None s"
    unfolding rx_match_Many by blast
  then show ?thesis by (simp add: leading_def spaces0_def rx_search_Bol)
qed

lemma reader_patterns:
  "f \<in> {''read_csv'', ''read_json''} \<Longrightarrow> (f, [Boundary] @ lit_ic f) \<in> set pattern_defs"
  "f \<in> {''read_parquet'', ''read_text'', ''read_blob''} \<Longrightarrow>
    (f, [Boundary] @ lit_ic f @ [Boundary]) \<in> set pattern_defs"
  unfolding pattern_defs_def by (elim insertE emptyE; simp)+

lemma lower_c_word: "is_word (lower_c c) \<Longrightarrow> is_word c"
  by (auto simp: lower_c_def is_word_def split: if_splits)

lemma embedded_matches:
  assumes "lower f = w" "w \<noteq> []" "is_word (hd w)" "a = [] \<or> \<not> is_word (last a)"
    and "rx_match r (Some (last f)) b"
  shows "rx_search (Boundary # lit_ic w @ r) (a @ f @ b)"
proof -
  obtain c f' where f: "f = c # f'" using assms(1,2) by (cases f) (auto simp: lower_def)
  have "is_word c" using assms(1,3) f by (auto simp: lower_def intro: lower_c_word)
  then have "word_at (if a = [] then None else Some (last a)) \<noteq> word_at (head_opt (f @ b))"
    using assms(4) f by (auto simp: word_at_def head_opt_def)
  moreover have "rx_match (lit_ic w @ r) q (f @ b)" for q
    using rx_match_lit [OF assms(1), of r q b] assms(5) f by simp
  ultimately show ?thesis
    unfolding rx_search_def by (intro rx_search_from_append) simp
qed

lemma word_not_blank: "is_word c \<Longrightarrow> c \<in> set s \<Longrightarrow> \<not> blank s"
proof
  assume c: "is_word c" "c \<in> set s" and "blank s"
  then have sp: "\<forall>c \<in> set (dropWhile is_space s). is_space c"
    by (auto simp: blank_def strip_def strip_with_def)
  have "c \<in> set (takeWhile is_space s) \<or> c \<in> set (dropWhile is_space s)"
    using c(2) by (metis Un_iff set_append takeWhile_dropWhile_id)
  then show False using c(1) sp is_word_not_space by (auto dest: set_takeWhileD)
qed

lemma embedded_not_blank:
  assumes "lower f = w" "w \<noteq> []" "is_word (hd w)"
  shows "\<not> blank (a @ f @ b)"
proof -
  obtain c f' where f: "f = c # f'" using assms(1,2) by (cases f) (auto simp: lower_def)
  have "is_word c" using assms(1,3) f by (auto simp: lower_def intro: lower_c_word)
  then show ?thesis using word_not_blank [of c "a @ f @ b"] f by simp
qed

text \<open>
  Property C15. The sandbox refuses every statement whose first word, in any case and after any
  white space, is one of COPY, LOAD, INSTALL, ATTACH, SET and PRAGMA, and every text in
  which one of the file readers occurs as a word (or, for CSV and JSON, begins one),
  wherever it stands. An empty statement passes, and so does everything that no pattern
  matches.
\<close>

theorem sandbox_blocks:
  "(lower (first_word sql) \<in> set blocked_words \<longrightarrow> check_sql sql \<noteq> None) \<and>
   (\<forall>a f b. sql = a @ f @ b \<longrightarrow> (a = [] \<or> \<not> is_word (last a)) \<longrightarrow>
      lower f \<in> {''read_csv'', ''read_json''} \<longrightarrow> check_sql sql \<noteq> None) \<and>
   (\<forall>a f b. sql = a @ f @ b \<longrightarrow> (a = [] \<or> \<not> is_word (last a)) \<longrightarrow> (b = [] \<or> \<not> is_word (hd b)) \<longrightarrow>
      lower f \<in> {''read_parquet'', ''read_text'', ''read_blob''} \<longrightarrow> check_sql sql \<noteq> None) \<and>
   (check_sql sql = None \<longleftrightarrow> blank sql \<or> (\<forall>(name, regex) \<in> set pattern_defs. \<not> rx_search regex sql))"
proof (intro conjI allI impI)
  assume w: "lower (first_word sql) \<in> set blocked_words"
  then have ne: "lower (first_word sql) \<noteq> []" by (auto simp: blocked_words_def)
  have "list_all (\<lambda>w. leading w \<in> snd ` set pattern_defs) blocked_words"
    unfolding blocked_words_def pattern_defs_def by simp
  then obtain name where n: "(name, leading (lower (first_word sql))) \<in> set pattern_defs"
    using w by (auto simp: list_all_iff)
  have "\<not> blank sql"
  proof
    assume "blank sql"
    then have "\<forall>c \<in> set (dropWhile is_space sql). is_space c"
      by (auto simp: blank_def strip_def strip_with_def)
    then have "dropWhile is_space sql = []"
      using hd_dropWhile [of is_space sql] hd_in_set by blast
    then show False using ne by (simp only: first_word_def lower_def takeWhile.simps list.map)
  qed
  then show "check_sql sql \<noteq> None"
    using check_sql_blocks [OF n leading_matches [OF refl ne]] by blast
next
  fix a f b
  assume s: "sql = a @ f @ b" "a = [] \<or> \<not> is_word (last a)" "lower f \<in> {''read_csv'', ''read_json''}"
  have "(lower f, [Boundary] @ lit_ic (lower f)) \<in> set pattern_defs"
    by (rule reader_patterns(1) [OF s(3)])
  moreover have w: "lower f \<noteq> []" "is_word (hd (lower f))"
    using s(3) by (auto simp: is_word_def is_lower_az_def)
  have "rx_search ([Boundary] @ lit_ic (lower f)) sql"
    using embedded_matches [OF refl w s(2), of "[]" b] s(1) by simp
  ultimately show "check_sql sql \<noteq> None"
    using check_sql_blocks embedded_not_blank [OF refl w] s(1) by blast
next
  fix a f b
  assume s: "sql = a @ f @ b" "a = [] \<or> \<not> is_word (last a)" "b = [] \<or> \<not> is_word (hd b)"
    "lower f \<in> {''read_parquet'', ''read_text'', ''read_blob''}"
  have "(lower f, [Boundary] @ lit_ic (lower f) @ [Boundary]) \<in> set pattern_defs"
    by (rule reader_patterns(2) [OF s(4)])
  moreover have w: "lower f \<noteq> []" "is_word (hd (lower f))" "is_word (last (lower f))"
    using s(4) by (auto simp: is_word_def is_lower_az_def)
  have "is_word (last f)" using w by (auto simp: lower_def last_map intro: lower_c_word)
  then have "rx_match [Boundary] (Some (last f)) b"
    using s(3) by (cases b) (auto simp: word_at_def head_opt_def)
  then have "rx_search ([Boundary] @ lit_ic (lower f) @ [Boundary]) sql"
    using embedded_matches [OF refl w(1,2) s(2), of "[Boundary]" b] s(1) by simp
  ultimately show "check_sql sql \<noteq> None"
    using check_sql_blocks embedded_not_blank [OF refl w(1,2)] s(1) by blast
next
  show "check_sql sql = None \<longleftrightarrow>
      blank sql \<or> (\<forall>(name, regex) \<in> set pattern_defs. \<not> rx_search regex sql)"
    by (auto simp: check_sql_def find_None_iff_ball)
qed

theorem sandbox_blocks_witness:
  "check_sql '' CoPy t TO f'' \<noteq> None \<and> check_sql ''select * from read_csv_auto(f)'' \<noteq> None \<and>
   check_sql ''select * from READ_BLOB (f)'' \<noteq> None"
proof -
  have "lower (first_word '' CoPy t TO f'') \<in> set blocked_words"
    "lower ''read_csv'' \<in> {''read_csv'', ''read_json''}" "\<not> is_word (last ''select * from '')"
    "lower ''READ_BLOB'' \<in> {''read_parquet'', ''read_text'', ''read_blob''}" "\<not> is_word (hd '' (f)'')"
    by code_simp+
  note p = this
  have q: "''select * from read_csv_auto(f)'' = ''select * from '' @ ''read_csv'' @ ''_auto(f)''"
    "''select * from READ_BLOB (f)'' = ''select * from '' @ ''READ_BLOB'' @ '' (f)''"
    by simp_all
  show ?thesis
  proof (intro conjI)
    show "check_sql '' CoPy t TO f'' \<noteq> None"
      by (rule sandbox_blocks [THEN conjunct1, rule_format, OF p(1)])
    show "check_sql ''select * from read_csv_auto(f)'' \<noteq> None"
      by (rule sandbox_blocks [THEN conjunct2, THEN conjunct1, rule_format, OF q(1) disjI2 [OF p(3)] p(2)])
    show "check_sql ''select * from READ_BLOB (f)'' \<noteq> None"
      by (rule sandbox_blocks [THEN conjunct2, THEN conjunct2, THEN conjunct1, rule_format,
            OF q(2) disjI2 [OF p(3)] disjI2 [OF p(5)] p(4)])
  qed
qed

text \<open>
  The keyword patterns are anchored at the start of the text: a second statement of the same
  request, or a leading comment, is not looked at.
\<close>

lemma second_statement_passes:
  "check_sql ''x;COPY t'' = None"
  by code_simp+

end
