(* ===== verification/Sessions.thy ===== *)
theory Sessions
  imports MetaStore IsoParse Sandbox
begin

text \<open>
  \<open>engine/session_manager.py\<close>: the DuckDB sessions of the server, their life cycle, the queries
  that run in them, and their mirror in the metadata store. DuckDB is outside: a connection
  is a value of an arbitrary type, opened and changed by the operations of the record
  \<open>duck\<close>. The dictionary of sessions is the list of its values in insertion order.
\<close>

section \<open>DuckDB\<close>

text \<open>A successful statement answers \<open>None\<close>, or columns and rows (cells as text). The left value
  is the text of a \<open>duckdb.Error\<close>. \<open>dk_isolated\<close> is \<open>run_query_isolated\<close>, a child process.\<close>

type_synonym rows = "string list list"

record query_result =
  qs_columns :: "string list"
  qs_rows :: rows
  qs_rowcount :: int
  qs_elapsed_ms :: rat

record 'c duck =
  dk_connect :: 'c
  dk_exec :: "'c \<Rightarrow> string \<Rightarrow> (string + (string list \<times> rows) option) \<times> 'c"
  dk_isolated :: "string \<Rightarrow> string + query_result"

record dataset_info =
  di_name :: string
  di_file_path :: string
  di_format :: string
  di_size_bytes :: int
  di_row_count :: int
  di_columns :: "string list"
  di_created_at :: string

section \<open>Sessions\<close>

datatype session_status = ACTIVE | SUSPENDED | DESTROYED

instantiation session_status :: enum
begin

definition enum_session_status :: "session_status list" where
  "enum_session_status = [ACTIVE, SUSPENDED, DESTROYED]"

definition enum_all_session_status :: "(session_status \<Rightarrow> bool) \<Rightarrow> bool" where
  "enum_all_session_status P = (P ACTIVE \<and> P SUSPENDED \<and> P DESTROYED)"

definition enum_ex_session_status :: "(session_status \<Rightarrow> bool) \<Rightarrow> bool" where
  "enum_ex_session_status P = (P ACTIVE \<or> P SUSPENDED \<or> P DESTROYED)"

instance
proof
  have univ: "UNIV = {ACTIVE, SUSPENDED, DESTROYED}"
    using session_status.exhaust by blast
  show "(UNIV :: session_status set) = set enum_class.enum"
    unfolding univ enum_session_status_def by simp
  show "distinct (enum_class.enum :: session_status list)"
    by (simp add: enum_session_status_def)
  show "enum_class.enum_all P \<longleftrightarrow> Ball UNIV P" for P :: "session_status \<Rightarrow> bool"
    unfolding univ enum_all_session_status_def by simp
  show "enum_class.enum_ex P \<longleftrightarrow> Bex UNIV P" for P :: "session_status \<Rightarrow> bool"
    unfolding univ enum_ex_session_status_def by simp
qed

end

text \<open>The value of a status, and \<open>SessionStatus(text)\<close>, which raises on other texts.\<close>

fun status_text :: "session_status \<Rightarrow> string" where
  "status_text ACTIVE = ''ACTIVE''"
| "status_text SUSPENDED = ''SUSPENDED''"
| "status_text DESTROYED = ''DESTROYED''"

definition parse_status :: "string \<Rightarrow> session_status option" where
  "parse_status s = find (\<lambda>st. status_text st = s) [ACTIVE, SUSPENDED, DESTROYED]"

lemma parse_status_text: "parse_status (status_text st) = Some st"
  by (cases st) (simp_all add: parse_status_def)

datatype session_error =
    KeyError string
  | ValueError string
  | WorkgroupQuotaExceeded string
  | WorkgroupAccessError string
  | BlockedSqlError string
  | QueryError string
  | ConnectionError string
  | IsolationError string

record 'c session =
  s_id :: string
  s_status :: session_status
  s_created_at :: instant
  s_last_active :: instant
  s_namespace :: string
  s_conn :: "'c option"
  s_workgroup_id :: string
  s_suspended_at :: "instant option"

record 'c manager =
  sm_sessions :: "'c session list"
  sm_store :: "meta_db option"

text \<open>The idle timeout is in microseconds; the datasets are those of the dataset manager, if
  there is one.\<close>

record session_cfg =
  cf_idle_timeout :: int
  cf_datasets :: "dataset_info list option"
  cf_memory_limit :: string
  cf_threads :: int
  cf_isolation :: bool

definition find_sess :: "string \<Rightarrow> 'c manager \<Rightarrow> 'c session option" where
  "find_sess sid m = find (\<lambda>s. s_id s = sid) (sm_sessions m)"

text \<open>\<open>self._sessions[sid] = s\<close>\<close>

definition put_sess :: "'c session \<Rightarrow> 'c session list \<Rightarrow> 'c session list" where
  "put_sess s ss = upsert_by s_id s ss"

definition set_sess :: "'c session \<Rightarrow> 'c manager \<Rightarrow> 'c manager" where
  "set_sess s m = m\<lparr>sm_sessions := put_sess s (sm_sessions m)\<rparr>"

definition save_sess :: "'c session \<Rightarrow> 'c manager \<Rightarrow> 'c manager" where
  "save_sess s m = m\<lparr>sm_store := map_option
     (save_session (s_id s) (s_namespace s) (status_text (s_status s)) (s_created_at s)
        (s_last_active s)) (sm_store m)\<rparr>"

section \<open>Opening a connection\<close>

fun run_statements :: "'c duck \<Rightarrow> 'c \<Rightarrow> string list \<Rightarrow> string + 'c" where
  "run_statements D c [] = Inr c"
| "run_statements D c (s # ss) =
     (case dk_exec D c s of
        (Inl e, _) \<Rightarrow> Inl e
      | (Inr _, c') \<Rightarrow> run_statements D c' ss)"

definition register_statement :: "dataset_info \<Rightarrow> string" where
  "register_statement d =
     ''CREATE TABLE IF NOT EXISTS '' @ di_name d @ '' AS SELECT * FROM ''
     @ (if di_format d = ''csv'' then ''read_csv_auto('' else ''read_parquet('')
     @ [CHR 0x27] @ di_file_path d @ [CHR 0x27] @ '')''"

text \<open>\<open>register_in_session\<close>: a dataset that cannot be loaded is skipped.\<close>

definition register_in_session :: "'c duck \<Rightarrow> dataset_info list \<Rightarrow> 'c \<Rightarrow> 'c" where
  "register_in_session D ds c = foldl (\<lambda>c d. snd (dk_exec D c (register_statement d))) c ds"

definition access_off :: string where
  "access_off = ''SET enable_external_access = false''"

definition config_lock :: string where
  "config_lock = ''SET lock_configuration = true''"

definition create_hardened_connection :: "'c duck \<Rightarrow> session_cfg \<Rightarrow> string + 'c" where
  "create_hardened_connection D cfg =
     (case run_statements D (dk_connect D)
             [''SET memory_limit = '' @ [CHR 0x27] @ cf_memory_limit cfg @ [CHR 0x27],
              ''SET threads = '' @ int_str (cf_threads cfg)] of
        Inl e \<Rightarrow> Inl e
      | Inr c \<Rightarrow>
          run_statements D
            (case cf_datasets cfg of None \<Rightarrow> c | Some ds \<Rightarrow> register_in_session D ds c)
            [access_off, config_lock])"

section \<open>Operations\<close>

definition active_count_for_workgroup :: "string \<Rightarrow> 'c manager \<Rightarrow> nat" where
  "active_count_for_workgroup wg m =
     count_where (\<lambda>s. s_workgroup_id s = wg \<and> s_status s = ACTIVE) (sm_sessions m)"

definition find_suspended_in_workgroup :: "string \<Rightarrow> 'c manager \<Rightarrow> string option" where
  "find_suspended_in_workgroup wg m =
     map_option s_id (find (\<lambda>s. s_workgroup_id s = wg \<and> s_status s = SUSPENDED) (sm_sessions m))"

definition unknown_session :: "string \<Rightarrow> session_error" where
  "unknown_session sid = KeyError (''Unknown session: '' @ sid)"

definition suspend_session :: "instant \<Rightarrow> string \<Rightarrow> 'c manager \<Rightarrow> (session_error + unit) \<times> 'c manager" where
  "suspend_session t sid m =
     (case find_sess sid m of
        None \<Rightarrow> (Inl (unknown_session sid), m)
      | Some s \<Rightarrow>
          if s_status s = SUSPENDED
          then (Inl (ValueError (''Session already suspended: '' @ sid)), m)
          else (let s' = s\<lparr>s_conn := None, s_status := SUSPENDED, s_suspended_at := Some t\<rparr>
                in (Inr (), save_sess s' (set_sess s' m))))"

definition resume_session ::
    "'c duck \<Rightarrow> session_cfg \<Rightarrow> instant \<Rightarrow> string \<Rightarrow> 'c manager \<Rightarrow> (session_error + unit) \<times> 'c manager" where
  "resume_session D cfg t sid m =
     (case find_sess sid m of
        None \<Rightarrow> (Inl (unknown_session sid), m)
      | Some s \<Rightarrow>
          if s_status s = ACTIVE
          then (Inl (ValueError (''Session already active: '' @ sid)), m)
          else (case create_hardened_connection D cfg of
                  Inl e \<Rightarrow> (Inl (ConnectionError e), m)
                | Inr c \<Rightarrow>
                    (let s' = s\<lparr>s_conn := Some c, s_status := ACTIVE, s_suspended_at := None,
                               s_last_active := t\<rparr>
                     in (Inr (), save_sess s' (set_sess s' m)))))"

definition create_session ::
    "'c duck \<Rightarrow> session_cfg \<Rightarrow> instant \<Rightarrow> string \<Rightarrow> string \<Rightarrow> string \<Rightarrow> int option \<Rightarrow> 'c manager \<Rightarrow>
      (session_error + string) \<times> 'c manager" where
  "create_session D cfg t fresh ns wg max_sessions m =
     (if (case max_sessions of None \<Rightarrow> False
          | Some k \<Rightarrow> wg \<noteq> ''default'' \<and> k \<le> int (active_count_for_workgroup wg m)) then
        (case find_suspended_in_workgroup wg m of
           Some sid \<Rightarrow>
             (case resume_session D cfg t sid m of
                (Inl e, m') \<Rightarrow> (Inl e, m')
              | (Inr _, m') \<Rightarrow> (Inr sid, m'))
         | None \<Rightarrow>
             (Inl (WorkgroupQuotaExceeded (''Workgroup '' @ [CHR 0x27] @ wg @ [CHR 0x27]
                @ '' at max concurrent sessions ('' @ int_str (the max_sessions)
                @ ''). Terminate idle sessions or try later.'')), m))
      else
        (case create_hardened_connection D cfg of
           Inl e \<Rightarrow> (Inl (ConnectionError e), m)
         | Inr c \<Rightarrow>
             (let s = \<lparr>s_id = fresh, s_status = ACTIVE, s_created_at = t, s_last_active = t,
                       s_namespace = ns, s_conn = Some c, s_workgroup_id = wg,
                       s_suspended_at = None\<rparr>
              in (Inr fresh, save_sess s (set_sess s m)))))"

definition destroy_session :: "string \<Rightarrow> 'c manager \<Rightarrow> (session_error + unit) \<times> 'c manager" where
  "destroy_session sid m =
     (case find_sess sid m of
        None \<Rightarrow> (Inl (unknown_session sid), m)
      | Some s \<Rightarrow>
          (Inr (), m\<lparr>sm_sessions := delete_where (\<lambda>s. s_id s = sid) (sm_sessions m),
                    sm_store := map_option (delete_session sid) (sm_store m)\<rparr>))"

record session_info =
  si_id :: string
  si_status :: string
  si_created_at :: string
  si_last_active :: string
  si_namespace :: string
  si_workgroup_id :: string

definition session_info_of :: "'c session \<Rightarrow> session_info" where
  "session_info_of s =
     \<lparr>si_id = s_id s, si_status = status_text (s_status s),
      si_created_at = isoformat (s_created_at s), si_last_active = isoformat (s_last_active s),
      si_namespace = s_namespace s, si_workgroup_id = s_workgroup_id s\<rparr>"

definition get_session :: "string \<Rightarrow> 'c manager \<Rightarrow> session_error + session_info" where
  "get_session sid m =
     (case find_sess sid m of
        None \<Rightarrow> Inl (unknown_session sid) | Some s \<Rightarrow> Inr (session_info_of s))"

definition list_sessions :: "string option \<Rightarrow> string option \<Rightarrow> 'c manager \<Rightarrow> session_info list" where
  "list_sessions ns wg m =
     filter (\<lambda>i. (case ns of None \<Rightarrow> True | Some n \<Rightarrow> si_namespace i = n)
               \<and> (case wg of None \<Rightarrow> True | Some w \<Rightarrow> si_workgroup_id i = w))
       (map session_info_of (sm_sessions m))"

definition check_workgroup_access :: "string \<Rightarrow> string option \<Rightarrow> 'c manager \<Rightarrow> session_error + unit" where
  "check_workgroup_access sid caller m =
     (case find_sess sid m of
        None \<Rightarrow> Inl (unknown_session sid)
      | Some s \<Rightarrow>
          (case caller of
             None \<Rightarrow> Inr ()
           | Some wg \<Rightarrow>
               if s_workgroup_id s \<noteq> wg
               then Inl (WorkgroupAccessError
                      (''Access denied: session belongs to workgroup '' @ [CHR 0x27]
                       @ s_workgroup_id s @ [CHR 0x27] @ '', caller asserts workgroup ''
                       @ [CHR 0x27] @ wg @ [CHR 0x27]))
               else Inr ()))"

text \<open>The result of a statement; \<open>ms\<close> is the measured time.\<close>

definition result_of :: "rat \<Rightarrow> (string list \<times> rows) option \<Rightarrow> query_result" where
  "result_of ms r =
     (case r of
        None \<Rightarrow> \<lparr>qs_columns = [], qs_rows = [], qs_rowcount = 0, qs_elapsed_ms = ms\<rparr>
      | Some (cols, rows) \<Rightarrow>
          \<lparr>qs_columns = cols, qs_rows = rows, qs_rowcount = int (length rows), qs_elapsed_ms = ms\<rparr>)"

text \<open>The part of \<open>execute_query\<close> after the checks: an active session runs the statement on its
  connection, and a success refreshes the time of the last activity.\<close>

definition run_in_session ::
    "'c duck \<Rightarrow> session_cfg \<Rightarrow> instant \<Rightarrow> rat \<Rightarrow> string \<Rightarrow> string \<Rightarrow> 'c manager \<Rightarrow>
      (session_error + query_result) \<times> 'c manager" where
  "run_in_session D cfg t ms sid sql m =
     (if cf_isolation cfg then
        (case dk_isolated D sql of
           Inl e \<Rightarrow> (Inl (IsolationError e), m) | Inr r \<Rightarrow> (Inr r, m))
      else
        (case find_sess sid m of
           None \<Rightarrow> (Inl (unknown_session sid), m)
         | Some s \<Rightarrow>
             (case s_conn s of
                None \<Rightarrow> (Inl (ConnectionError ''NoneType''), m)
              | Some c \<Rightarrow>
                  (case dk_exec D c sql of
                     (Inl e, c') \<Rightarrow> (Inl (QueryError e), set_sess (s\<lparr>s_conn := Some c'\<rparr>) m)
                   | (Inr r, c') \<Rightarrow>
                       (Inr (result_of ms r),
                        set_sess (s\<lparr>s_conn := Some c', s_last_active := t\<rparr>) m)))))"

definition execute_query ::
    "'c duck \<Rightarrow> session_cfg \<Rightarrow> instant \<Rightarrow> instant \<Rightarrow> rat \<Rightarrow> string \<Rightarrow> string \<Rightarrow> 'c manager \<Rightarrow>
      (session_error + query_result) \<times> 'c manager" where
  "execute_query D cfg t t2 ms sid sql m =
     (case find_sess sid m of
        None \<Rightarrow> (Inl (unknown_session sid), m)
      | Some s \<Rightarrow>
          if blank sql then (Inl (ValueError ''SQL must not be empty''), m)
          else
            (case check_sql sql of
               Some name \<Rightarrow> (Inl (BlockedSqlError name), m)
             | None \<Rightarrow>
                 if s_status s = SUSPENDED then
                   (case resume_session D cfg t sid m of
                      (Inl e, m') \<Rightarrow> (Inl e, m')
                    | (Inr _, m') \<Rightarrow> run_in_session D cfg t2 ms sid sql m')
                 else run_in_session D cfg t2 ms sid sql m))"

section \<open>The watchdog, the reaper and the restart\<close>

text \<open>\<open>clk\<close> gives the clock reading at the suspension of each session.\<close>

fun suspend_all ::
    "(string \<Rightarrow> instant) \<Rightarrow> string list \<Rightarrow> 'c manager \<Rightarrow> string list \<times> 'c manager" where
  "suspend_all clk [] m = ([], m)"
| "suspend_all clk (sid # sids) m =
     (case suspend_session (clk sid) sid m of
        (Inl _, m') \<Rightarrow> suspend_all clk sids m'
      | (Inr _, m') \<Rightarrow> (case suspend_all clk sids m' of (done, m'') \<Rightarrow> (sid # done, m'')))"

definition run_watchdog_once ::
    "session_cfg \<Rightarrow> instant \<Rightarrow> (string \<Rightarrow> instant) \<Rightarrow> 'c manager \<Rightarrow> string list \<times> 'c manager" where
  "run_watchdog_once cfg t clk m =
     suspend_all clk
       (map s_id (filter (\<lambda>s. s_status s = ACTIVE \<and> cf_idle_timeout cfg < t - s_last_active s)
          (sm_sessions m))) m"

fun destroy_all :: "string list \<Rightarrow> 'c manager \<Rightarrow> string list \<times> 'c manager" where
  "destroy_all [] m = ([], m)"
| "destroy_all (sid # sids) m =
     (case destroy_session sid m of
        (Inl _, m') \<Rightarrow> destroy_all sids m'
      | (Inr _, m') \<Rightarrow> (case destroy_all sids m' of (done, m'') \<Rightarrow> (sid # done, m'')))"

definition run_reaper_once :: "int \<Rightarrow> instant \<Rightarrow> 'c manager \<Rightarrow> string list \<times> 'c manager" where
  "run_reaper_once max_age t m =
     destroy_all
       (map s_id (filter (\<lambda>s. s_status s = SUSPENDED \<and>
           (case s_suspended_at s of None \<Rightarrow> False | Some u \<Rightarrow> max_age < t - u)) (sm_sessions m))) m"

text \<open>One row at the restart; a row with an unknown state or an unreadable time raises (the
  message is left out). The row does not hold the workgroup and the time of the
  suspension, so the session gets their defaults.\<close>

definition load_row ::
    "'c duck \<Rightarrow> session_cfg \<Rightarrow> session_row \<Rightarrow> 'c manager \<Rightarrow> (session_error + unit) \<times> 'c manager" where
  "load_row D cfg r m =
     (case (parse_status (sr_state r), fromisoformat (sr_created_at r), fromisoformat (sr_last_active r)) of
        (Some st, Some created, Some active) \<Rightarrow>
          (let add = (\<lambda>c. (Inr (), set_sess
                 \<lparr>s_id = sr_id r, s_status = st, s_created_at = created, s_last_active = active,
                  s_namespace = sr_namespace r, s_conn = c, s_workgroup_id = ''default'',
                  s_suspended_at = None\<rparr> m))
           in if st = ACTIVE then
                (case create_hardened_connection D cfg of
                   Inl e \<Rightarrow> (Inl (ConnectionError e), m) | Inr c \<Rightarrow> add (Some c))
              else add None)
      | _ \<Rightarrow> (Inl (ValueError ''row''), m))"

fun load_rows ::
    "'c duck \<Rightarrow> session_cfg \<Rightarrow> session_row list \<Rightarrow> 'c manager \<Rightarrow> (session_error + unit) \<times> 'c manager" where
  "load_rows D cfg [] m = (Inr (), m)"
| "load_rows D cfg (r # rs) m =
     (case load_row D cfg r m of
        (Inl e, m') \<Rightarrow> (Inl e, m')
      | (Inr _, m') \<Rightarrow> load_rows D cfg rs m')"

definition load_from_store ::
    "'c duck \<Rightarrow> session_cfg \<Rightarrow> 'c manager \<Rightarrow> (session_error + unit) \<times> 'c manager" where
  "load_from_store D cfg m =
     (case sm_store m of
        None \<Rightarrow> (Inr (), m)
      | Some db \<Rightarrow> load_rows D cfg (load_sessions db) m)"

end
