(* ===== verification/Jwt.thy ===== *)
theory Jwt
  imports Http
begin

text \<open>
  \<open>auth/jwt_auth.py\<close>, \<open>auth/token_blocklist.py\<close> and the \<open>/auth/*\<close> handlers of \<open>app.py\<close>:
  secrets and their rotation, access and refresh tokens, revocation, and the dependencies
  \<open>require_auth\<close> and \<open>require_admin\<close>. The encoding and the verification of a JWT belong to
  python-jose and are a parameter; so are HMAC-SHA256 and the decoding of the session cookie.
\<close>

section \<open>Environment\<close>

text \<open>The environment variables (empty when unset) and the files they name; \<open>None\<close> is \<open>OSError\<close>.\<close>

record auth_env =
  e_secret_file :: string
  e_secret_v2 :: string
  e_secret_v1 :: string
  e_secret :: string
  e_api_key_file :: string
  e_api_key :: string
  e_session_secret_file :: string
  e_session_secret :: "string option"
  e_expiry :: string
  e_salt :: string
  e_fingerprint_ip :: "string option"
  e_files :: "string \<Rightarrow> string option"

datatype config_error = ConfigValueError string | ConfigRuntimeError string | ConfigHTTP http_exc

definition common_weak_secrets :: "string list" where
  "common_weak_secrets = [''password'', ''secret'', ''changeme'', ''letmein'', ''qwerty'']"

definition validate_secret_strength :: "string \<Rightarrow> config_error + unit" where
  "validate_secret_strength s =
     (if length s < 16
      then Inl (ConfigValueError (''JWT secret must be at least 16 characters long (got ''
                              @ nat_str (length s) @ '')''))
      else if lower s \<in> set common_weak_secrets
      then Inl (ConfigValueError ''JWT secret is too common/predictable'')
      else Inr ())"

definition get_secret :: "auth_env \<Rightarrow> string http" where
  "get_secret env =
     (if e_secret_file env \<noteq> [] then
        (case map_option strip (e_files env (e_secret_file env)) of
           None \<Rightarrow> Inl (HTTPException 500
                     (''Secret file not found or unreadable: '' @ e_secret_file env))
         | Some s \<Rightarrow>
             if s = [] then Inl (HTTPException 500 (''Secret file is empty: '' @ e_secret_file env))
             else Inr s)
      else if e_secret_v2 env \<noteq> [] then Inr (e_secret_v2 env)
      else if e_secret_v1 env \<noteq> [] then Inr (e_secret_v1 env)
      else if e_secret env = [] then Inl (HTTPException 500 ''POND_JWT_SECRET is not configured'')
      else Inr (e_secret env))"

definition get_api_key :: "auth_env \<Rightarrow> string http" where
  "get_api_key env =
     (if e_api_key_file env \<noteq> [] then
        (case map_option strip (e_files env (e_api_key_file env)) of
           None \<Rightarrow> Inl (HTTPException 500
                     (''API key file not found or unreadable: '' @ e_api_key_file env))
         | Some s \<Rightarrow> Inr s)
      else Inr (e_api_key env))"

definition get_session_secret :: "auth_env \<Rightarrow> string http" where
  "get_session_secret env =
     (if e_session_secret_file env \<noteq> [] then
        (case map_option strip (e_files env (e_session_secret_file env)) of
           None \<Rightarrow> Inl (HTTPException 500
                     (''Session secret file not found or unreadable: '' @ e_session_secret_file env))
         | Some s \<Rightarrow> Inr s)
      else Inr (get_or (e_session_secret env) ''change-me-default-secret''))"

definition get_all_secrets :: "auth_env \<Rightarrow> string list" where
  "get_all_secrets env =
     (let versioned = (if e_secret_v2 env \<noteq> [] then [e_secret_v2 env] else [])
                      @ (if e_secret_v1 env \<noteq> [] then [e_secret_v1 env] else []);
          all = versioned @ (if e_secret env \<noteq> [] \<and> e_secret env \<notin> set versioned
                             then [e_secret env] else [])
      in if e_secret_file env \<noteq> [] then
           (case map_option strip (e_files env (e_secret_file env)) of
              Some s \<Rightarrow> if s \<noteq> [] then [s] else all
            | None \<Rightarrow> all)
         else all)"

definition validate_startup_secret :: "auth_env \<Rightarrow> config_error + unit" where
  "validate_startup_secret env =
     (if e_secret_file env \<noteq> [] then
        (case get_secret env of
           Inl e \<Rightarrow> Inl (ConfigHTTP e) | Inr s \<Rightarrow> validate_secret_strength s)
      else
        (let primary = (if e_secret_v2 env \<noteq> [] then e_secret_v2 env
                        else if e_secret_v1 env \<noteq> [] then e_secret_v1 env else e_secret env)
         in if primary = []
            then Inl (ConfigRuntimeError
                   ''No JWT secret configured (POND_JWT_SECRET or POND_JWT_SECRET_V2)'')
            else validate_secret_strength primary))"

definition get_expiry_seconds :: "auth_env \<Rightarrow> int" where
  "get_expiry_seconds env = (if e_expiry env = [] then 3600 else get_or (py_int (e_expiry env)) 3600)"

section \<open>Tokens\<close>

text \<open>python-jose: encoding with a secret, and decoding at a time, with or without the check of
  \<open>exp\<close>; the left value is the text of the \<open>JWTError\<close>.\<close>

record jwt_lib =
  jl_encode :: "claims \<Rightarrow> string \<Rightarrow> string"
  jl_decode :: "bool \<Rightarrow> string \<Rightarrow> string \<Rightarrow> int \<Rightarrow> string + claims"

definition access_claims ::
    "auth_env \<Rightarrow> int \<Rightarrow> string \<Rightarrow> string \<Rightarrow> string list option \<Rightarrow> string option \<Rightarrow> claims" where
  "access_claims env now jti tenant scopes role =
     no_claims\<lparr>c_sub := Some tenant, c_tenant_id := Some tenant,
       c_scopes := (case scopes of Some (s # ss) \<Rightarrow> s # ss | _ \<Rightarrow> [''query'', ''read'', ''write'']),
       c_type := Some ''access'', c_jti := Some jti, c_iat := Some now,
       c_exp := Some (now + get_expiry_seconds env), c_role := role\<rparr>"

definition create_access_token ::
    "jwt_lib \<Rightarrow> auth_env \<Rightarrow> int \<Rightarrow> string \<Rightarrow> string \<Rightarrow> string list option \<Rightarrow> string option \<Rightarrow> string http" where
  "create_access_token L env now jti tenant scopes role =
     (case get_secret env of
        Inl e \<Rightarrow> Inl e
      | Inr s \<Rightarrow> Inr (jl_encode L (access_claims env now jti tenant scopes role) s))"

text \<open>\<open>mac key message\<close> is the hexadecimal HMAC-SHA256.\<close>

definition compute_fingerprint ::
    "(string \<Rightarrow> string \<Rightarrow> string) \<Rightarrow> string \<Rightarrow> string \<Rightarrow> string \<Rightarrow> bool \<Rightarrow> string" where
  "compute_fingerprint mac ip ua salt include_ip =
     mac salt (if include_ip then ip @ ''|'' @ ua else ua)"

definition fingerprint_include_ip :: "auth_env \<Rightarrow> bool" where
  "fingerprint_include_ip env =
     (lower (get_or (e_fingerprint_ip env) ''true'') \<notin> {''false'', ''0'', ''no''})"

definition env_fingerprint ::
    "(string \<Rightarrow> string \<Rightarrow> string) \<Rightarrow> auth_env \<Rightarrow> string option \<Rightarrow> string option \<Rightarrow> string option" where
  "env_fingerprint mac env ip ua =
     (case (ip, ua) of
        (Some i, Some u) \<Rightarrow> Some (compute_fingerprint mac i u (e_salt env) (fingerprint_include_ip env))
      | _ \<Rightarrow> None)"

definition refresh_claims ::
    "(string \<Rightarrow> string \<Rightarrow> string) \<Rightarrow> auth_env \<Rightarrow> int \<Rightarrow> string \<Rightarrow> string \<Rightarrow> string option \<Rightarrow>
      string option \<Rightarrow> claims" where
  "refresh_claims mac env now jti tenant ip ua =
     no_claims\<lparr>c_sub := Some tenant, c_tenant_id := Some tenant, c_type := Some ''refresh'',
       c_jti := Some jti, c_iat := Some now, c_exp := Some (now + 30 * 24 * 3600),
       c_fp := env_fingerprint mac env ip ua\<rparr>"

definition create_refresh_token ::
    "jwt_lib \<Rightarrow> (string \<Rightarrow> string \<Rightarrow> string) \<Rightarrow> auth_env \<Rightarrow> int \<Rightarrow> string \<Rightarrow> string \<Rightarrow>
      string option \<Rightarrow> string option \<Rightarrow> string http" where
  "create_refresh_token L mac env now jti tenant ip ua =
     (case get_secret env of
        Inl e \<Rightarrow> Inl e
      | Inr s \<Rightarrow> Inr (jl_encode L (refresh_claims mac env now jti tenant ip ua) s))"

section \<open>The blocklist\<close>

definition add_to_blocklist :: "string \<Rightarrow> string list \<Rightarrow> string list" where
  "add_to_blocklist jti bl = List.insert jti bl"

definition is_revoked :: "string list \<Rightarrow> string \<Rightarrow> bool" where
  "is_revoked bl jti = (jti \<in> set bl)"

definition remove_from_blocklist :: "string \<Rightarrow> string list \<Rightarrow> string list" where
  "remove_from_blocklist jti bl = removeAll jti bl"

section \<open>Verification\<close>

definition revoked_claims :: "string list \<Rightarrow> claims \<Rightarrow> bool" where
  "revoked_claims bl c = (truthy (c_jti c) \<and> is_revoked bl (the (c_jti c)))"

text \<open>The loop over the secrets; \<open>err\<close> is the text of the last error.\<close>

fun try_secrets ::
    "jwt_lib \<Rightarrow> string list \<Rightarrow> int \<Rightarrow> string \<Rightarrow> string list \<Rightarrow> string \<Rightarrow> claims http" where
  "try_secrets L bl now token [] err = Inl (HTTPException 401 (''Invalid token: '' @ err))"
| "try_secrets L bl now token (s # ss) err =
     (case jl_decode L True token s now of
        Inl e \<Rightarrow> try_secrets L bl now token ss e
      | Inr c \<Rightarrow>
          if c_type c \<noteq> Some ''access'' then Inl (HTTPException 401 ''Token is not an access token'')
          else if revoked_claims bl c then Inl (HTTPException 401 ''Token has been revoked'')
          else Inr c)"

definition verify_access_token ::
    "jwt_lib \<Rightarrow> auth_env \<Rightarrow> string list \<Rightarrow> int \<Rightarrow> string \<Rightarrow> claims http" where
  "verify_access_token L env bl now token =
     (if get_all_secrets env = [] then Inl (HTTPException 500 ''POND_JWT_SECRET is not configured'')
      else try_secrets L bl now token (get_all_secrets env) ''None'')"

definition verify_refresh_token ::
    "jwt_lib \<Rightarrow> (string \<Rightarrow> string \<Rightarrow> string) \<Rightarrow> auth_env \<Rightarrow> string list \<Rightarrow> int \<Rightarrow> string \<Rightarrow>
      string option \<Rightarrow> string option \<Rightarrow> claims http" where
  "verify_refresh_token L mac env bl now token ip ua =
     (case get_secret env of
        Inl e \<Rightarrow> Inl e
      | Inr s \<Rightarrow>
          (case jl_decode L True token s now of
             Inl e \<Rightarrow> Inl (HTTPException 401 (''Invalid refresh token: '' @ e))
           | Inr c \<Rightarrow>
               if c_type c \<noteq> Some ''refresh'' then Inl (HTTPException 401 ''Token is not a refresh token'')
               else if revoked_claims bl c
               then Inl (HTTPException 401 ''Refresh token has been revoked'')
               else if c_fp c \<noteq> None \<and> env_fingerprint mac env ip ua \<noteq> None
                       \<and> c_fp c \<noteq> env_fingerprint mac env ip ua
               then Inl (HTTPException 401 ''Fingerprint mismatch'')
               else Inr c))"

section \<open>The session cookie\<close>

text \<open>\<open>cookie.rsplit('.', 1)\<close> into two parts; \<open>None\<close> when there is no dot.\<close>

definition rsplit_dot :: "string \<Rightarrow> (string \<times> string) option" where
  "rsplit_dot s =
     (let r = rev s; rest = dropWhile (\<lambda>c. c \<noteq> CHR ''.'') r
      in if rest = [] then None
         else Some (rev (tl rest), rev (takeWhile (\<lambda>c. c \<noteq> CHR ''.'') r)))"

text \<open>\<open>load\<close> decodes the base64 text of a JSON object into its items; \<open>None\<close> is an exception.\<close>

definition verify_session_cookie ::
    "(string \<Rightarrow> string \<Rightarrow> string) \<Rightarrow> (string \<Rightarrow> (string \<times> string) list option) \<Rightarrow> auth_env \<Rightarrow>
      string \<Rightarrow> (string \<times> string) list option" where
  "verify_session_cookie mac load env cookie =
     (case rsplit_dot cookie of
        None \<Rightarrow> None
      | Some (payload, sig) \<Rightarrow>
          (case get_session_secret env of
             Inl _ \<Rightarrow> None
           | Inr secret \<Rightarrow> if sig \<noteq> mac secret payload then None else load payload))"

section \<open>Dependencies of the routes\<close>

text \<open>The parts that come from outside: the JWT library, HMAC, and the decoding of a cookie.\<close>

record auth_deps =
  ad_jwt :: jwt_lib
  ad_mac :: "string \<Rightarrow> string \<Rightarrow> string"
  ad_load :: "string \<Rightarrow> (string \<times> string) list option"

definition default_claims :: "string \<Rightarrow> claims" where
  "default_claims tenant =
     no_claims\<lparr>c_tenant_id := Some tenant, c_scopes := [''query'', ''read'', ''write''],
       c_type := Some ''access''\<rparr>"

definition bearer_prefix :: string where
  "bearer_prefix = ''Bearer ''"

definition authenticate ::
    "auth_deps \<Rightarrow> auth_env \<Rightarrow> string list \<Rightarrow> int \<Rightarrow> request \<Rightarrow> claims http" where
  "authenticate D env bl now rq =
     (let authorization = get_or (rq_authorization rq) []; key = get_or (rq_api_key rq) []
      in if starts_with authorization bearer_prefix
         then verify_access_token (ad_jwt D) env bl now (drop (length bearer_prefix) authorization)
         else if key \<noteq> [] then
           (case get_api_key env of
              Inl e \<Rightarrow> Inl e
            | Inr expected \<Rightarrow>
                if expected \<noteq> [] \<and> key = expected then Inr (default_claims ''default'')
                else Inl (HTTPException 401 ''Invalid API key''))
         else
           (case (if truthy (rq_session_cookie rq)
                  then verify_session_cookie (ad_mac D) (ad_load D) env (the (rq_session_cookie rq))
                  else None) of
              Some (i # items) \<Rightarrow>
                Inr (default_claims (get_or (map_of (i # items) ''tenant_id'') ''default''))
            | _ \<Rightarrow> Inl (HTTPException 401 ''Authentication required'')))"

definition failed_auth_ip :: "request \<Rightarrow> string option" where
  "failed_auth_ip rq =
     (if truthy (rq_forwarded_for rq) then Some (first_forwarded (the (rq_forwarded_for rq)))
      else rq_client rq)"

definition failed_auth_events :: "request \<Rightarrow> claims http \<Rightarrow> audit_event list" where
  "failed_auth_events rq r =
     (case r of
        Inl (HTTPException n d) \<Rightarrow>
          if n = 401 then
            [\<lparr>ae_type = ''failed_auth'', ae_tenant_id = None, ae_ip = failed_auth_ip rq,
              ae_user_agent = rq_user_agent rq, ae_detail = Some d\<rparr>]
          else []
      | Inr _ \<Rightarrow> [])"

definition require_auth ::
    "auth_deps \<Rightarrow> auth_env \<Rightarrow> string list \<Rightarrow> int \<Rightarrow> request \<Rightarrow> claims http \<times> audit_event list" where
  "require_auth D env bl now rq =
     (let r = authenticate D env bl now rq in (r, failed_auth_events rq r))"

definition require_admin ::
    "auth_deps \<Rightarrow> auth_env \<Rightarrow> string list \<Rightarrow> int \<Rightarrow> request \<Rightarrow> claims http" where
  "require_admin D env bl now rq =
     (let authorization = get_or (rq_authorization rq) [] in
      if \<not> starts_with authorization bearer_prefix then
        (if truthy (rq_api_key rq) then Inl (HTTPException 403 ''Admin role required'')
         else Inl (HTTPException 401 ''Authentication required''))
      else
        (case verify_access_token (ad_jwt D) env bl now (drop (length bearer_prefix) authorization) of
           Inl e \<Rightarrow> Inl e
         | Inr c \<Rightarrow> if c_role c \<noteq> Some ''admin'' then Inl (HTTPException 403 ''Admin role required'')
                    else Inr c))"

section \<open>The handlers of \<open>/auth\<close>\<close>

text \<open>\<open>int(os.environ.get('POND_JWT_EXPIRY_SECONDS', '3600') or '3600')\<close>, which, unlike
  \<open>_get_expiry_seconds\<close>, fails on a text that is not a number.\<close>

definition reported_expiry :: "auth_env \<Rightarrow> int option" where
  "reported_expiry env = (if e_expiry env = [] then Some 3600 else py_int (e_expiry env))"

text \<open>A header read with \<open>headers.get(name) or None\<close>\<close>

definition nonempty :: "string option \<Rightarrow> string option" where
  "nonempty h = (if truthy h then h else None)"

record token_response =
  tr_access :: string
  tr_refresh :: "string option"
  tr_expires_in :: int

definition issue_token ::
    "auth_deps \<Rightarrow> auth_env \<Rightarrow> int \<Rightarrow> string \<Rightarrow> string \<Rightarrow> string \<Rightarrow> string option \<Rightarrow> request \<Rightarrow>
      token_response http" where
  "issue_token D env now jti jti2 key tenant rq =
     (case get_api_key env of
        Inl e \<Rightarrow> Inl e
      | Inr expected \<Rightarrow>
          if key = [] \<or> key \<noteq> expected \<or> expected = []
          then Inl (HTTPException 401 ''Invalid API key'')
          else
            (let tenant_id = or_else tenant ''default'' in
             case reported_expiry env of
               None \<Rightarrow> Inl server_error
             | Some expiry \<Rightarrow>
                 (case create_access_token (ad_jwt D) env now jti tenant_id None None of
                    Inl e \<Rightarrow> Inl e
                  | Inr access \<Rightarrow>
                      (case create_refresh_token (ad_jwt D) (ad_mac D) env now jti2 tenant_id
                              (nonempty (rq_forwarded_for rq)) (nonempty (rq_user_agent rq)) of
                         Inl e \<Rightarrow> Inl e
                       | Inr refresh \<Rightarrow>
                           Inr \<lparr>tr_access = access, tr_refresh = Some refresh,
                                tr_expires_in = expiry\<rparr>))))"

definition refresh_event :: "request \<Rightarrow> string option \<Rightarrow> string \<Rightarrow> audit_event" where
  "refresh_event rq tenant detail =
     \<lparr>ae_type = ''token_refresh'', ae_tenant_id = tenant, ae_ip = nonempty (rq_forwarded_for rq),
      ae_user_agent = nonempty (rq_user_agent rq), ae_detail = Some detail\<rparr>"

definition refresh_token ::
    "auth_deps \<Rightarrow> auth_env \<Rightarrow> string list \<Rightarrow> int \<Rightarrow> string \<Rightarrow> string \<Rightarrow> request \<Rightarrow>
      token_response http \<times> audit_event list" where
  "refresh_token D env bl now jti token rq =
     (let failed = (\<lambda>e. case e of HTTPException n d \<Rightarrow>
            (Inl e, [refresh_event rq None (''failed: '' @ d)]))
      in case verify_refresh_token (ad_jwt D) (ad_mac D) env bl now token
                (nonempty (rq_forwarded_for rq)) (nonempty (rq_user_agent rq)) of
           Inl e \<Rightarrow> failed e
         | Inr c \<Rightarrow>
             (let tenant_id = get_or (c_tenant_id c) ''default'' in
              case reported_expiry env of
                None \<Rightarrow> (Inl server_error, [])
              | Some expiry \<Rightarrow>
                  (case create_access_token (ad_jwt D) env now jti tenant_id None None of
                     Inl e \<Rightarrow> failed e
                   | Inr access \<Rightarrow>
                       (Inr \<lparr>tr_access = access, tr_refresh = None, tr_expires_in = expiry\<rparr>,
                        [refresh_event rq (Some tenant_id) ''success'']))))"

text \<open>\<open>/auth/revoke\<close> decodes with the base secret alone and without the expiry check.\<close>

definition revoke_token ::
    "auth_deps \<Rightarrow> auth_env \<Rightarrow> string list \<Rightarrow> int \<Rightarrow> string \<Rightarrow> request \<Rightarrow>
      string http \<times> string list \<times> audit_event list" where
  "revoke_token D env bl now token rq =
     (if e_secret env = [] then
        (Inl (HTTPException 500 ''POND_JWT_SECRET is not configured''), bl, [])
      else
        (case jl_decode (ad_jwt D) False token (e_secret env) now of
           Inl e \<Rightarrow> (Inl (HTTPException 400 (''Invalid token: '' @ e)), bl, [])
         | Inr c \<Rightarrow>
             if \<not> truthy (c_jti c) then (Inl (HTTPException 400 ''Token has no jti claim''), bl, [])
             else
               (Inr (the (c_jti c)), add_to_blocklist (the (c_jti c)) bl,
                [\<lparr>ae_type = ''token_revoke'',
                  ae_tenant_id = (if truthy (c_tenant_id c) then c_tenant_id c else c_sub c),
                  ae_ip = (if truthy (rq_forwarded_for rq)
                           then Some (first_forwarded (the (rq_forwarded_for rq))) else None),
                  ae_user_agent = nonempty (rq_user_agent rq),
                  ae_detail = Some (''jti:'' @ the (c_jti c))\<rparr>])))"

section \<open>What the JWT library is relied on for\<close>

text \<open>
  A token is accepted under the secret that signed it, while it has not expired (or when
  expiry is not checked), and then yields the claims that were signed; it is refused under
  every other secret, and after its expiry when that is checked.
\<close>

definition jwt_signed :: "jwt_lib \<Rightarrow> string \<Rightarrow> string \<Rightarrow> claims \<Rightarrow> bool" where
  "jwt_signed L token s c =
     ((\<forall>v now. (v \<longrightarrow> (\<forall>e. c_exp c = Some e \<longrightarrow> now \<le> e)) \<longrightarrow> jl_decode L v token s now = Inr c)
      \<and> (\<forall>now e. c_exp c = Some e \<and> e < now \<longrightarrow> (\<exists>x. jl_decode L True token s now = Inl x))
      \<and> (\<forall>v s' now. s' \<noteq> s \<longrightarrow> (\<exists>x. jl_decode L v token s' now = Inl x)))"

text \<open>The claims are part of the token: every secret and time that accept it yield the same.\<close>

definition jwt_one_payload :: "jwt_lib \<Rightarrow> string \<Rightarrow> bool" where
  "jwt_one_payload L token =
     (\<forall>v v' s s' now now' c c'. jl_decode L v token s now = Inr c \<longrightarrow>
        jl_decode L v' token s' now' = Inr c' \<longrightarrow> c = c')"

section \<open>Properties of the verification\<close>

lemma try_secrets_accepts:
  assumes "s \<in> set ss" "jl_decode L True token s now = Inr c"
    and "\<And>s'. s' \<noteq> s \<Longrightarrow> \<exists>x. jl_decode L True token s' now = Inl x"
    and "c_type c = Some ''access''" "\<not> revoked_claims bl c"
  shows "try_secrets L bl now token ss err = Inr c"
  using assms(1)
proof (induction ss arbitrary: err)
  case (Cons a ss)
  then show ?case
  proof (cases "a = s")
    case False
    with assms(3) obtain x where "jl_decode L True token a now = Inl x" by blast
    with Cons False show ?thesis by simp
  qed (use assms in simp)
qed simp

lemma try_secrets_sound:
  "try_secrets L bl now token ss err = Inr c \<Longrightarrow>
    (\<exists>s \<in> set ss. jl_decode L True token s now = Inr c) \<and> c_type c = Some ''access''
    \<and> \<not> revoked_claims bl c"
  by (induction ss arbitrary: err) (auto split: sum.splits if_splits)

lemma verify_access_sound:
  "verify_access_token L env bl now token = Inr c \<Longrightarrow>
    (\<exists>s \<in> set (get_all_secrets env). jl_decode L True token s now = Inr c)
    \<and> c_type c = Some ''access'' \<and> \<not> revoked_claims bl c"
  by (auto simp: verify_access_token_def split: if_splits dest: try_secrets_sound)

lemma verify_refresh_sound:
  "verify_refresh_token L mac env bl now token ip ua = Inr c \<Longrightarrow>
    (\<exists>s. get_secret env = Inr s \<and> jl_decode L True token s now = Inr c)
    \<and> c_type c = Some ''refresh'' \<and> \<not> revoked_claims bl c"
  by (auto simp: verify_refresh_token_def split: sum.splits if_splits)

lemma get_secret_in_all: "get_secret env = Inr s \<Longrightarrow> s \<in> set (get_all_secrets env)"
  by (cases "e_secret_file env = []"; cases "e_files env (e_secret_file env)")
    (auto simp: get_secret_def get_all_secrets_def Let_def split: if_splits)

text \<open>
  Property C9. Key rotation does not log anybody out: an access token issued under one
  environment is accepted, with the claims it was issued with, under every environment whose
  secrets still include the one that signed it (the same environment is one), up to its
  expiry and as long as it is not revoked; one second after its expiry it is refused.
\<close>

theorem access_token_survives_rotation:
  assumes "create_access_token L env now jti tenant scopes role = Inr token"
    and "jwt_signed L token s (access_claims env now jti tenant scopes role)"
    and "get_secret env = Inr s" and "env' = env \<or> s \<in> set (get_all_secrets env')"
    and "jti \<notin> set bl"
  shows "verify_access_token L env' bl now' token =
      Inr (access_claims env now jti tenant scopes role)
    \<longleftrightarrow> now' \<le> now + get_expiry_seconds env"
proof -
  let ?c = "access_claims env now jti tenant scopes role"
  have c: "c_type ?c = Some ''access''" "c_exp ?c = Some (now + get_expiry_seconds env)"
    "\<not> revoked_claims bl ?c"
    using assms(5) by (simp_all add: access_claims_def revoked_claims_def is_revoked_def)
  have s: "s \<in> set (get_all_secrets env')" using assms(3,4) get_secret_in_all by blast
  then have ne: "get_all_secrets env' \<noteq> []" by auto
  show ?thesis
  proof
    assume le: "now' \<le> now + get_expiry_seconds env"
    show "verify_access_token L env' bl now' token = Inr ?c"
      unfolding verify_access_token_def using ne s le c assms(2)
      by (simp add: jwt_signed_def try_secrets_accepts [of s])
  next
    assume "verify_access_token L env' bl now' token = Inr ?c"
    from verify_access_sound [OF this] obtain s' where s': "jl_decode L True token s' now' = Inr ?c"
      by blast
    then have "s' = s" using assms(2) by (metis jwt_signed_def sum.distinct(1))
    then show "now' \<le> now + get_expiry_seconds env"
      using s' assms(2) c(2) unfolding jwt_signed_def by (metis not_le sum.distinct(1))
  qed
qed

text \<open>
  Property C8. Revocation sticks: once \<open>/auth/revoke\<close> has answered with success for a token,
  that token is accepted neither as an access token nor as a refresh token, at any time,
  under any environment and from any address, as long as the blocklist only grows.
\<close>

theorem revoked_token_refused:
  assumes "revoke_token D env bl now token rq = (Inr jti, bl', evs)"
    and "jwt_one_payload (ad_jwt D) token" and "set bl' \<subseteq> set bl''"
  shows "\<not> is_ok (verify_access_token (ad_jwt D) env' bl'' now' token) \<and>
    \<not> is_ok (verify_refresh_token (ad_jwt D) mac env' bl'' now' token ip ua)"
proof -
  from assms(1) obtain c where c: "jl_decode (ad_jwt D) False token (e_secret env) now = Inr c"
    "truthy (c_jti c)" "bl' = add_to_blocklist (the (c_jti c)) bl"
    by (auto simp: revoke_token_def split: if_splits sum.splits)
  have rev: "revoked_claims bl'' c"
    using c(2,3) assms(3) by (auto simp: revoked_claims_def is_revoked_def add_to_blocklist_def)
  have same: "c' = c" if "jl_decode (ad_jwt D) v token s now' = Inr c'" for v s c'
    using that c(1) assms(2) unfolding jwt_one_payload_def by blast
  show ?thesis
    using verify_access_sound [of "ad_jwt D" env' bl'' now' token]
      verify_refresh_sound [of "ad_jwt D" mac env' bl'' now' token ip ua] same rev
    by (blast elim: is_okE)
qed

text \<open>
  A refresh token issued to an address and a user agent is accepted from another
  pair exactly when their fingerprints coincide; a caller that withholds either header is
  not held to the fingerprint at all.
\<close>

theorem refresh_bound_to_fingerprint:
  assumes "create_refresh_token L mac env now jti tenant (Some ip) (Some ua) = Inr token"
    and "get_secret env = Inr s"
    and "jwt_signed L token s (refresh_claims mac env now jti tenant (Some ip) (Some ua))"
    and "jti \<notin> set bl" and "now' \<le> now + 30 * 24 * 3600"
  shows "is_ok (verify_refresh_token L mac env bl now' token ip' ua') \<longleftrightarrow>
    ip' = None \<or> ua' = None \<or> env_fingerprint mac env ip' ua' = env_fingerprint mac env (Some ip) (Some ua)"
proof -
  let ?c = "refresh_claims mac env now jti tenant (Some ip) (Some ua)"
  have "jl_decode L True token s now' = Inr ?c"
    using assms(3,5) by (simp add: jwt_signed_def refresh_claims_def)
  then have "is_ok (verify_refresh_token L mac env bl now' token ip' ua') \<longleftrightarrow>
      \<not> (c_fp ?c \<noteq> None \<and> env_fingerprint mac env ip' ua' \<noteq> None \<and> c_fp ?c \<noteq> env_fingerprint mac env ip' ua')"
    using assms(2,4)
    by (simp add: verify_refresh_token_def refresh_claims_def revoked_claims_def is_revoked_def)
  then show ?thesis
    by (auto simp: refresh_claims_def env_fingerprint_def split: option.splits)
qed

text \<open>
  Property C10. Only a bearer token makes an administrator: \<open>require_admin\<close> succeeds only with
  claims of role \<open>admin\<close> decoded from the bearer token by a configured secret and not
  revoked; a caller known by its API key or its session cookie carries no role, no
  workgroup and no agent.
\<close>

theorem admin_needs_bearer_token:
  shows "(\<forall>c. require_admin D env bl now rq = Inr c \<longrightarrow>
      c_role c = Some ''admin'' \<and> \<not> revoked_claims bl c \<and> c_type c = Some ''access'' \<and>
      (\<exists>token. rq_authorization rq = Some (bearer_prefix @ token) \<and>
        (\<exists>s \<in> set (get_all_secrets env). jl_decode (ad_jwt D) True token s now = Inr c))) \<and>
    (\<forall>c. fst (require_auth D env bl now rq) = Inr c \<longrightarrow>
      \<not> starts_with (get_or (rq_authorization rq) []) bearer_prefix \<longrightarrow>
      c_role c = None \<and> c_workgroup_id c = None \<and> c_agent_id c = None)"
proof (intro conjI allI impI)
  fix c assume a: "require_admin D env bl now rq = Inr c"
  let ?h = "get_or (rq_authorization rq) []"
  from a have pre: "starts_with ?h bearer_prefix" and role: "c_role c = Some ''admin''"
    and v: "verify_access_token (ad_jwt D) env bl now (drop (length bearer_prefix) ?h) = Inr c"
    by (auto simp: require_admin_def Let_def split: if_splits sum.splits)
  have sw: "starts_with x p \<Longrightarrow> x = p @ drop (length p) x" for x p
    by (induction x p rule: starts_with.induct) auto
  show "c_role c = Some ''admin''" by (rule role)
  show "\<not> revoked_claims bl c" "c_type c = Some ''access''"
    using verify_access_sound [OF v] by auto
  have "rq_authorization rq = Some (bearer_prefix @ drop (length bearer_prefix) ?h)"
    using sw [OF pre] by (cases "rq_authorization rq") (auto simp: bearer_prefix_def)
  then show "\<exists>token. rq_authorization rq = Some (bearer_prefix @ token) \<and>
        (\<exists>s \<in> set (get_all_secrets env). jl_decode (ad_jwt D) True token s now = Inr c)"
    using verify_access_sound [OF v] by blast
next
  fix c assume "fst (require_auth D env bl now rq) = Inr c"
    and "\<not> starts_with (get_or (rq_authorization rq) []) bearer_prefix"
  then have "\<exists>t. c = default_claims t"
    by (auto simp: require_auth_def authenticate_def Let_def
        split: if_splits sum.splits option.splits list.splits)
  then show "c_role c = None" "c_workgroup_id c = None" "c_agent_id c = None"
    by (auto simp: default_claims_def no_claims_def)
qed

section \<open>Concrete instances\<close>

text \<open>
  A library that knows one token per identifier: the token is the secret and the identifier.
  The environments hold the secret \<open>k1\<close>, alone and after the rotation to \<open>k2\<close>.
\<close>

definition sample_env :: "string \<Rightarrow> string \<Rightarrow> auth_env" where
  "sample_env v2 base =
     \<lparr>e_secret_file = [], e_secret_v2 = v2, e_secret_v1 = [], e_secret = base, e_api_key_file = [],
      e_api_key = ''key'', e_session_secret_file = [], e_session_secret = None, e_expiry = [],
      e_salt = ''salt'', e_fingerprint_ip = None, e_files = (\<lambda>f. None)\<rparr>"

definition sample_mac :: "string \<Rightarrow> string \<Rightarrow> string" where
  "sample_mac key msg = key @ ''/'' @ msg"

definition sample_access :: claims where
  "sample_access = access_claims (sample_env [] ''k1'') 1000 ''j1'' ''acme'' None None"

definition sample_refresh :: claims where
  "sample_refresh = refresh_claims sample_mac (sample_env [] ''k1'') 1000 ''j1'' ''acme''
     (Some ''10.0.0.1'') (Some ''curl'')"

definition sample_jwt :: "claims \<Rightarrow> jwt_lib" where
  "sample_jwt signed =
     \<lparr>jl_encode = (\<lambda>c s. s @ ''.'' @ or_else (c_jti c) ''none''),
      jl_decode = (\<lambda>v token s now.
        if token \<noteq> s @ ''.j1'' then Inl ''Signature verification failed.''
        else if v \<and> get_or (c_exp signed) now < now then Inl ''Signature has expired.''
        else Inr signed)\<rparr>"

definition sample_deps :: "claims \<Rightarrow> auth_deps" where
  "sample_deps signed =
     \<lparr>ad_jwt = sample_jwt signed, ad_mac = sample_mac, ad_load = (\<lambda>s. None)\<rparr>"

lemma sample_jwt_signed:
  "jwt_signed (sample_jwt sample_access) ''k1.j1'' ''k1'' sample_access"
  "jwt_signed (sample_jwt sample_refresh) ''k1.j1'' ''k1'' sample_refresh"
proof -
  have other: "s' \<noteq> ''k1'' \<Longrightarrow> ''k1.j1'' \<noteq> s' @ ''.j1''" for s'
    using append_same_eq [of "''k1''" "''.j1''" s'] by auto
  show "jwt_signed (sample_jwt sample_access) ''k1.j1'' ''k1'' sample_access"
    "jwt_signed (sample_jwt sample_refresh) ''k1.j1'' ''k1'' sample_refresh"
    using other
    by (auto simp: jwt_signed_def sample_jwt_def sample_access_def sample_refresh_def
        access_claims_def refresh_claims_def)
qed

lemma sample_one_payload: "jwt_one_payload (ad_jwt (sample_deps c)) token"
  by (simp add: jwt_one_payload_def sample_deps_def sample_jwt_def)

theorem access_token_survives_rotation_witness:
  "verify_access_token (sample_jwt sample_access) (sample_env ''k2'' ''k1'') [] 4600 ''k1.j1''
      = Inr sample_access
   \<and> verify_access_token (sample_jwt sample_access) (sample_env ''k2'' ''k1'') [] 4601 ''k1.j1''
      \<noteq> Inr sample_access"
proof -
  let ?e = "sample_env [] ''k1''"
  have h: "create_access_token (sample_jwt sample_access) ?e 1000 ''j1'' ''acme'' None None = Inr ''k1.j1''"
    "get_secret ?e = Inr ''k1''" "''k1'' \<in> set (get_all_secrets (sample_env ''k2'' ''k1''))"
    "get_expiry_seconds ?e = 3600"
    by code_simp+
  show ?thesis
    using access_token_survives_rotation [OF h(1) [unfolded sample_access_def] sample_jwt_signed(1) [unfolded sample_access_def]
        h(2) disjI2 [OF h(3)], of "[]"] h(4)
    by (simp add: sample_access_def)
qed

theorem revoked_token_refused_witness:
  "fst (revoke_token (sample_deps sample_access) (sample_env [] ''k1'') [] 9000 ''k1.j1'' plain_request)
      = Inr ''j1''
   \<and> \<not> is_ok (verify_access_token (sample_jwt sample_access) (sample_env [] ''k1'') [''j1''] 1001 ''k1.j1'')"
proof -
  let ?D = "sample_deps sample_access"
  have "fst (revoke_token ?D (sample_env [] ''k1'') [] 9000 ''k1.j1'' plain_request) = Inr ''j1''"
    "fst (snd (revoke_token ?D (sample_env [] ''k1'') [] 9000 ''k1.j1'' plain_request)) = [''j1'']"
    by code_simp+
  then obtain evs where r:
    "revoke_token ?D (sample_env [] ''k1'') [] 9000 ''k1.j1'' plain_request = (Inr ''j1'', [''j1''], evs)"
    by (metis prod.collapse)
  show ?thesis
    using revoked_token_refused [OF r sample_one_payload subset_refl, of "sample_env [] ''k1''" 1001] r
    by (simp add: sample_deps_def)
qed

theorem refresh_bound_to_fingerprint_witness:
  "is_ok (verify_refresh_token (sample_jwt sample_refresh) sample_mac (sample_env [] ''k1'') [] 2000
      ''k1.j1'' (Some ''10.0.0.1'') (Some ''curl''))
   \<and> \<not> is_ok (verify_refresh_token (sample_jwt sample_refresh) sample_mac (sample_env [] ''k1'') [] 2000
      ''k1.j1'' (Some ''10.0.0.2'') (Some ''curl''))"
proof -
  let ?e = "sample_env [] ''k1''"
  have h: "create_refresh_token (sample_jwt sample_refresh) sample_mac ?e 1000 ''j1'' ''acme''
      (Some ''10.0.0.1'') (Some ''curl'') = Inr ''k1.j1''" "get_secret ?e = Inr ''k1''"
    "env_fingerprint sample_mac ?e (Some ''10.0.0.2'') (Some ''curl'') \<noteq>
     env_fingerprint sample_mac ?e (Some ''10.0.0.1'') (Some ''curl'')"
    by code_simp+
  show ?thesis
    using refresh_bound_to_fingerprint [OF h(1) [unfolded sample_refresh_def] h(2)
        sample_jwt_signed(2) [unfolded sample_refresh_def], of "[]" 2000] h(3)
    by (simp add: sample_refresh_def)
qed

theorem admin_needs_bearer_token_witness:
  "\<exists>c token. require_admin (sample_deps (sample_access\<lparr>c_role := Some ''admin''\<rparr>)) (sample_env [] ''k1'')
      [] 1001 (plain_request\<lparr>rq_authorization := Some ''Bearer k1.j1''\<rparr>) = Inr c
   \<and> c_role c = Some ''admin'' \<and> ''Bearer k1.j1'' = bearer_prefix @ token"
proof -
  let ?D = "sample_deps (sample_access\<lparr>c_role := Some ''admin''\<rparr>)"
  let ?rq = "plain_request\<lparr>rq_authorization := Some ''Bearer k1.j1''\<rparr>"
  have "require_admin ?D (sample_env [] ''k1'') [] 1001 ?rq =
      Inr (sample_access\<lparr>c_role := Some ''admin''\<rparr>)"
    by code_simp
  with admin_needs_bearer_token [of ?D "sample_env [] ''k1''" "[]" 1001 ?rq] show ?thesis by auto
qed

end
