(* ===== verification/ShareLinks.thy ===== *)
theory ShareLinks
  imports Sessions Jwt Limiter
begin

text \<open>
  \<open>api/share_routes.py\<close>: the public links that run a saved query again, and the limit on
  them per client address. Times are those of \<open>time.monotonic()\<close>, in microseconds.
\<close>

section \<open>The rate limiter\<close>

text \<open>\<open>_buckets\<close>: the times of the recent requests of each address.\<close>

type_synonym buckets = "string \<Rightarrow> int list option"

definition share_limit :: nat where
  "share_limit = 10"

definition share_window :: int where
  "share_window = 60 * 1000000"

definition reset_rate_limiter :: buckets where
  "reset_rate_limiter = (\<lambda>_. None)"

definition check_rate_limit :: "string \<Rightarrow> int \<Rightarrow> buckets \<Rightarrow> bool \<times> buckets" where
  "check_rate_limit ip now b =
     (let timestamps = filter (\<lambda>t. now - share_window < t) (get_or (b ip) []) in
      if share_limit \<le> length timestamps then (False, b(ip \<mapsto> timestamps))
      else (True, b(ip \<mapsto> timestamps @ [now])))"

definition is_valid_key :: "auth_env \<Rightarrow> string option \<Rightarrow> bool http" where
  "is_valid_key env key =
     (case get_api_key env of
        Inl e \<Rightarrow> Inl e
      | Inr expected \<Rightarrow>
          Inr (truthy key \<and> strip (the key) \<noteq> [] \<and> expected \<noteq> [] \<and> key = Some expected))"

section \<open>Running the query\<close>

text \<open>
  A fresh connection per request, closed afterwards. A DuckDB error, and a statement that
  answers no description, raise in \<open>_execute_sql\<close> and are not caught by the handler.
\<close>

definition execute_sql :: "'c duck \<Rightarrow> rat \<Rightarrow> string \<Rightarrow> query_result http" where
  "execute_sql D ms sql =
     (case fst (dk_exec D (dk_connect D) sql) of
        Inl e \<Rightarrow> Inl server_error
      | Inr None \<Rightarrow> Inl server_error
      | Inr (Some (columns, rows)) \<Rightarrow>
          Inr \<lparr>qs_columns = columns, qs_rows = rows, qs_rowcount = int (length rows),
               qs_elapsed_ms = ms\<rparr>)"

text \<open>\<open>str\<close> of the exceptions; that of a \<open>KeyError\<close> is the \<open>repr\<close> of its text.\<close>

definition query_error_text :: "query_error \<Rightarrow> string" where
  "query_error_text e =
     (case e of
        DuplicateQuery slug \<Rightarrow> ''Query with slug '' @ [CHR 0x27] @ slug @ [CHR 0x27] @ '' already exists''
      | QueryNotFound slug \<Rightarrow> py_repr (''No query found with slug: '' @ py_repr slug)
      | PermissionDenied slug \<Rightarrow>
          ''Query '' @ py_repr slug @ '' is private and belongs to a different tenant'')"

text \<open>The response is the result and the slug.\<close>

definition get_share_link ::
    "'c duck \<Rightarrow> auth_env \<Rightarrow> int \<Rightarrow> rat \<Rightarrow> string \<Rightarrow> request \<Rightarrow> meta_db \<Rightarrow> buckets \<Rightarrow>
      (string \<times> query_result) http \<times> buckets" where
  "get_share_link D env now ms slug rq db b =
     (case get_query_by_slug slug ''default'' False db of
        Inl e \<Rightarrow> (Inl (HTTPException 404 (query_error_text e)), b)
      | Inr query \<Rightarrow>
          (case is_valid_key env (rq_api_key rq) of
             Inl e \<Rightarrow> (Inl e, b)
           | Inr authed \<Rightarrow>
               if qr_visibility query = ''private'' then
                 (if \<not> authed
                  then (Inl (HTTPException 403 ''API key required for private queries''), b)
                  else (map_sum id (Pair slug) (execute_sql D ms (qr_sql query)), b))
               else
                 (case check_rate_limit (get_client_ip rq) now b of
                    (False, b') \<Rightarrow> (Inl (HTTPException 429 ''Rate limit exceeded. Try again later.''), b')
                  | (True, b') \<Rightarrow> (map_sum id (Pair slug) (execute_sql D ms (qr_sql query)), b'))))"

section \<open>The limit\<close>

text \<open>Requests of an address to public links, and everything else that touches the buckets.\<close>

definition share_admitted :: "string \<Rightarrow> int \<Rightarrow> buckets \<Rightarrow> buckets \<Rightarrow> bool" where
  "share_admitted ip t b b' = (check_rate_limit ip t b = (True, b'))"

definition share_denied :: "string \<Rightarrow> int \<Rightarrow> buckets \<Rightarrow> bool" where
  "share_denied ip t b = (\<not> fst (check_rate_limit ip t b))"

definition share_other :: "string \<Rightarrow> int \<Rightarrow> buckets \<Rightarrow> buckets \<Rightarrow> bool" where
  "share_other ip t b b' =
     (check_rate_limit ip t b = (False, b') \<or> (\<exists>ip' r. ip' \<noteq> ip \<and> check_rate_limit ip' t b = (r, b')))"

definition bucket :: "string \<Rightarrow> buckets \<Rightarrow> int list" where
  "bucket ip b = get_or (b ip) []"

lemma share_admitted_iff:
  "share_admitted ip t b b' \<longleftrightarrow>
    length (filter (\<lambda>u. t - share_window < u) (bucket ip b)) < share_limit \<and>
    b' = b(ip \<mapsto> filter (\<lambda>u. t - share_window < u) (bucket ip b) @ [t])"
  by (auto simp: share_admitted_def check_rate_limit_def bucket_def Let_def)

lemma bucket_upd [simp]: "bucket ip (b(ip' \<mapsto> ts)) = (if ip' = ip then ts else bucket ip b)"
  by (simp add: bucket_def)

lemma share_other_bucket:
  "share_other ip t b b' \<Longrightarrow>
    bucket ip b' = bucket ip b \<or> bucket ip b' = filter (\<lambda>u. t - share_window < u) (bucket ip b)"
  by (auto simp: share_other_def check_rate_limit_def Let_def bucket_def split: if_splits)

lemma filter_window_after:
  "t - share_window \<le> x \<Longrightarrow> filter (\<lambda>u. t - share_window < u \<and> x < u) ts = filter (\<lambda>u. x < u) ts"
  by (auto intro: filter_cong)

interpretation share_limiter: fair_limiter "share_admitted ip" "share_other ip"
  "\<lambda>b x. length (filter (\<lambda>u. x < u) (bucket ip b))" share_limit share_window "\<lambda>_. True"
  "share_denied ip" reset_rate_limiter "\<lambda>b x. length (filter (\<lambda>u. x \<le> u) (bucket ip b))"
  "\<lambda>t b. recorded_until t (bucket ip b)"
proof (unfold_locales, goal_cases)
  case (5 t s s' x)
  then show ?case by (auto simp: share_admitted_iff filter_window_after)
next
  case (4 t s s' x)
  then show ?case using share_other_bucket [of ip t s s'] by (auto simp: filter_window_after)
next
  case (7 t s s' x)
  then show ?case
    by (auto simp: share_admitted_iff filter_filter intro!: le_SucI length_filter_mono)
next
  case (8 t s s' x)
  then show ?case using share_other_bucket [of ip t s s']
    by (auto simp: filter_filter intro: length_filter_mono)
next
  case (10 t s t' s')
  then show ?case
    by (auto simp: share_admitted_iff intro!: recorded_until_append recorded_until_filter)
next
  case (11 t s t' s')
  then show ?case using share_other_bucket [of ip t' s s']
    by (auto intro: recorded_until_later recorded_until_filter [OF recorded_until_later])
next
  case (12 t s t')
  have "share_limit \<le> length (filter (\<lambda>u. t' - share_window < u) (bucket ip s))"
    using 12(3) by (auto simp: share_denied_def check_rate_limit_def Let_def bucket_def split: if_splits)
  also have "\<dots> \<le> length (filter (\<lambda>u. t' - share_window \<le> u) (bucket ip s))"
    by (rule length_filter_mono) simp
  finally show ?case .
qed (auto simp: share_admitted_iff filter_window_after bucket_def reset_rate_limiter_def recorded_until_def)

text \<open>The same record limits what the handler answers: a link to a public query, for an address.\<close>

definition public_query :: "string \<Rightarrow> meta_db \<Rightarrow> bool" where
  "public_query slug db =
     (case get_query_by_slug slug ''default'' False db of
        Inl _ \<Rightarrow> False | Inr q \<Rightarrow> qr_visibility q \<noteq> ''private'')"

definition public_answer :: "'c duck \<Rightarrow> auth_env \<Rightarrow> string \<Rightarrow> int \<Rightarrow> buckets \<Rightarrow> buckets \<Rightarrow> bool" where
  "public_answer D env ip t b b' =
     (\<exists>ms slug rq db x. get_share_link D env t ms slug rq db b = (Inr x, b') \<and>
        get_client_ip rq = ip \<and> public_query slug db)"

definition other_share_call :: "'c duck \<Rightarrow> auth_env \<Rightarrow> string \<Rightarrow> int \<Rightarrow> buckets \<Rightarrow> buckets \<Rightarrow> bool" where
  "other_share_call D env ip t b b' =
     (\<exists>ms slug rq db r. get_share_link D env t ms slug rq db b = (r, b') \<and>
        \<not> (is_ok r \<and> get_client_ip rq = ip \<and> public_query slug db))"

lemma share_link_buckets:
  assumes "get_share_link D env t ms slug rq db b = (r, b')"
  shows "b' = b \<or> (public_query slug db \<and> check_rate_limit (get_client_ip rq) t b = (status_of r \<noteq> Some 429, b'))"
    and "is_ok r \<Longrightarrow> public_query slug db \<Longrightarrow> check_rate_limit (get_client_ip rq) t b = (True, b')"
  using assms
  by (auto simp: get_share_link_def public_query_def execute_sql_def server_error_def
      split: sum.splits prod.splits bool.splits if_splits option.splits)

lemma check_rate_limit_step:
  "check_rate_limit ip' t b = (r, b') \<Longrightarrow> share_admitted ip t b b' \<or> share_other ip t b b'"
  by (cases r; cases "ip' = ip") (auto simp: share_admitted_def share_other_def)

lemma other_share_call_step:
  "other_share_call D env ip t b b' \<Longrightarrow> b' = b \<or> share_admitted ip t b b' \<or> share_other ip t b b'"
  unfolding other_share_call_def using share_link_buckets(1) check_rate_limit_step by metis

lemma public_answer_step: "public_answer D env ip t b b' \<Longrightarrow> share_admitted ip t b b'"
  unfolding public_answer_def share_admitted_def using share_link_buckets(2) is_ok_simps(1) by metis

interpretation share_answers: window_limiter "public_answer D env ip" "other_share_call D env ip"
  "\<lambda>b x. length (filter (\<lambda>u. x < u) (bucket ip b))" share_limit share_window "\<lambda>_. True"
proof (unfold_locales, goal_cases)
  case (4 t s s' x)
  then show ?case
    using other_share_call_step [OF 4(1)] share_limiter.hit_keeps [of ip t s s' x]
      share_limiter.other_keeps [of ip t s s' x] by auto
qed (auto dest!: public_answer_step intro: share_limiter.hit_admits share_limiter.hit_counts share_limiter.hit_keeps)

text \<open>
  Public share links are limited per client address: whatever calls of the
  endpoint happen, by whomever and for whatever links, at most ten requests of one address to
  public links are answered with a result in any 60 seconds.
\<close>

theorem share_links_limited:
  assumes "limited_run (public_answer D env ip) (other_share_call D env ip) b0 ts t b"
  shows "in_window x share_window ts \<le> share_limit"
  using assms by (rule share_answers.never_exceeded)

text \<open>
  The limiter is fair: a request of an address to a public link is denied only
  if the limiter has admitted ten requests of that address within the preceding 60 seconds;
  the requests of other addresses and those it denied do not count.
\<close>

theorem share_denied_only_when_full:
  assumes "limited_run (share_admitted ip) (share_other ip) reset_rate_limiter ts t b"
    and "t \<le> t'" and "\<not> fst (check_rate_limit ip t' b)"
  shows "share_limit \<le> length (filter (\<lambda>u. t' - share_window \<le> u) ts)"
  using share_limiter.denied_only_when_full assms unfolding share_denied_def by blast

section \<open>Witnesses\<close>

definition constant_duck :: "unit duck" where
  "constant_duck = \<lparr>dk_connect = (), dk_exec = (\<lambda>c sql. (Inr (Some ([''a''], [[''1'']])), c)),
     dk_isolated = (\<lambda>sql. Inl [])\<rparr>"

definition public_db :: meta_db where
  "public_db = empty_meta\<lparr>md_queries :=
     [\<lparr>qr_slug = ''q'', qr_title = ''Q'', qr_description = [], qr_sql = ''SELECT 1'', qr_created_by = ''t'',
       qr_tenant_id = ''t'', qr_created_at = [], qr_visibility = ''public''\<rparr>]\<rparr>"

definition share_env :: auth_env where
  "share_env = sample_env [] ''k1''"

definition caller_at :: "string \<Rightarrow> request" where
  "caller_at ip = plain_request\<lparr>rq_client := Some ip\<rparr>"

lemma one_public_answer:
  "public_answer constant_duck share_env ''10.0.0.1'' 5 reset_rate_limiter
     (reset_rate_limiter(''10.0.0.1'' \<mapsto> [5]))"
proof -
  have "get_client_ip (caller_at ''10.0.0.1'') = ''10.0.0.1''" "public_query ''q'' public_db"
    "get_query_by_slug ''q'' ''default'' False public_db = Inr (hd (md_queries public_db))"
    "is_valid_key share_env None = Inr False" "qr_visibility (hd (md_queries public_db)) \<noteq> ''private''"
    "rq_api_key (caller_at ''10.0.0.1'') = None"
    "execute_sql constant_duck 0 (qr_sql (hd (md_queries public_db))) =
       Inr \<lparr>qs_columns = [''a''], qs_rows = [[''1'']], qs_rowcount = 1, qs_elapsed_ms = 0\<rparr>"
    by code_simp+
  moreover have "check_rate_limit ''10.0.0.1'' 5 reset_rate_limiter =
      (True, reset_rate_limiter(''10.0.0.1'' \<mapsto> [5]))"
    by (simp add: check_rate_limit_def reset_rate_limiter_def share_limit_def)
  ultimately show ?thesis
    unfolding public_answer_def
    by (intro exI [of _ 0] exI [of _ "''q''"] exI [of _ "caller_at ''10.0.0.1''"] exI [of _ public_db])
      (simp add: get_share_link_def)
qed

theorem share_links_limited_witness:
  "\<exists>b. limited_run (public_answer constant_duck share_env ''10.0.0.1'')
      (other_share_call constant_duck share_env ''10.0.0.1'') reset_rate_limiter [5] 5 b \<and>
    in_window 0 share_window [5] = 1 \<and> in_window 0 share_window [5] \<le> share_limit"
proof -
  have run: "limited_run (public_answer constant_duck share_env ''10.0.0.1'')
      (other_share_call constant_duck share_env ''10.0.0.1'') reset_rate_limiter ([] @ [5]) 5
      (reset_rate_limiter(''10.0.0.1'' \<mapsto> [5]))"
    by (rule limited_run.admitted) (rule limited_run.init [where t = 0], simp, rule one_public_answer)
  from share_links_limited [OF run, of 0] run show ?thesis
    by (auto simp: in_window_def share_window_def)
qed

lemma repeated_share_run:
  "n \<le> 10 \<Longrightarrow> limited_run (share_admitted ip) (share_other ip) reset_rate_limiter (replicate n 7) 7
     (if n = 0 then reset_rate_limiter else reset_rate_limiter(ip \<mapsto> replicate n 7))"
proof (induction n)
  case 0
  show ?case by (auto intro: limited_run.init)
next
  case (Suc n)
  let ?b = "if n = 0 then reset_rate_limiter else reset_rate_limiter(ip \<mapsto> replicate n 7)"
  have "bucket ip ?b = replicate n 7" by (simp add: bucket_def reset_rate_limiter_def)
  then have "share_admitted ip 7 ?b (reset_rate_limiter(ip \<mapsto> replicate n 7 @ [7]))"
    using Suc.prems by (simp add: share_admitted_iff share_window_def share_limit_def)
  moreover have "limited_run (share_admitted ip) (share_other ip) reset_rate_limiter (replicate n 7) 7 ?b"
    using Suc by simp
  ultimately have "limited_run (share_admitted ip) (share_other ip) reset_rate_limiter
      (replicate n 7 @ [7]) 7 (reset_rate_limiter(ip \<mapsto> replicate n 7 @ [7]))"
    by (blast intro: limited_run.admitted)
  then show ?case by (simp add: replicate_append_same fun_upd_def)
qed

theorem share_denied_only_when_full_witness:
  "\<exists>b. limited_run (share_admitted ''a'') (share_other ''a'') reset_rate_limiter (replicate 10 7) 7 b \<and>
    \<not> fst (check_rate_limit ''a'' 8 b) \<and>
    share_limit \<le> length (filter (\<lambda>u. 8 - share_window \<le> u) (replicate 10 (7::int)))"
proof -
  let ?b = "reset_rate_limiter(''a'' \<mapsto> replicate 10 7)"
  have run: "limited_run (share_admitted ''a'') (share_other ''a'') reset_rate_limiter (replicate 10 7) 7 ?b"
    using repeated_share_run [of 10 "''a''"] by simp
  have denied: "\<not> fst (check_rate_limit ''a'' 8 ?b)"
    by (simp add: check_rate_limit_def share_limit_def share_window_def Let_def filter_replicate
        del: replicate.simps)
  from share_denied_only_when_full [OF run _ denied] show ?thesis
    using run denied by (intro exI [of _ ?b] conjI) simp_all
qed

end
