(* ===== verification/Executor.thy ===== *)
theory Executor
  imports Sessions Http Limiter
begin

text \<open>
  \<open>pondapi/executor.py\<close> and \<open>pondapi/htmx.py\<close>: asynchronous execution. A submission is
  recorded as pending and handed to a pool of worker threads; a worker runs it in its session
  and records the outcome; callers poll. Submissions are limited per tenant.
\<close>

section \<open>The table of executions\<close>

text \<open>The two JSON columns are kept as the values they encode.\<close>

record execution =
  ex_id :: string
  ex_tenant :: string
  ex_session :: string
  ex_sql :: string
  ex_status :: string
  ex_columns :: "string list option"
  ex_rows :: "rows option"
  ex_rowcount :: "int option"
  ex_elapsed_ms :: "rat option"
  ex_error :: "string option"
  ex_created_at :: string

definition insert_execution ::
    "string \<Rightarrow> string \<Rightarrow> string \<Rightarrow> string \<Rightarrow> string \<Rightarrow> execution list \<Rightarrow> execution list option" where
  "insert_execution eid tenant sid sql created_at xs =
     (if eid \<in> ex_id ` set xs then None
      else Some (xs @ [\<lparr>ex_id = eid, ex_tenant = tenant, ex_session = sid, ex_sql = sql,
        ex_status = ''pending'', ex_columns = None, ex_rows = None, ex_rowcount = None,
        ex_elapsed_ms = None, ex_error = None, ex_created_at = created_at\<rparr>]))"

definition update_complete ::
    "string \<Rightarrow> string list \<Rightarrow> rows \<Rightarrow> int \<Rightarrow> rat \<Rightarrow> execution list \<Rightarrow> execution list" where
  "update_complete eid columns rows rowcount elapsed =
     update_where (\<lambda>r. ex_id r = eid)
       (\<lambda>r. r\<lparr>ex_status := ''complete'', ex_columns := Some columns, ex_rows := Some rows,
             ex_rowcount := Some rowcount, ex_elapsed_ms := Some elapsed\<rparr>)"

definition update_error :: "string \<Rightarrow> string \<Rightarrow> rat \<Rightarrow> execution list \<Rightarrow> execution list" where
  "update_error eid error elapsed =
     update_where (\<lambda>r. ex_id r = eid)
       (\<lambda>r. r\<lparr>ex_status := ''error'', ex_error := Some error, ex_elapsed_ms := Some elapsed\<rparr>)"

definition fetch_row :: "string \<Rightarrow> execution list \<Rightarrow> execution option" where
  "fetch_row eid xs = find (\<lambda>r. ex_id r = eid) xs"

text \<open>The body of a poll: the fields that depend on the status are missing otherwise.\<close>

record exec_result =
  xr_id :: string
  xr_status :: string
  xr_created_at :: string
  xr_table :: "(string list \<times> rows \<times> int) option"
  xr_error :: "string option"
  xr_elapsed_ms :: "rat option"

definition row_to_result :: "execution \<Rightarrow> exec_result" where
  "row_to_result r =
     (let base = \<lparr>xr_id = ex_id r, xr_status = ex_status r, xr_created_at = ex_created_at r,
                  xr_table = None, xr_error = None, xr_elapsed_ms = None\<rparr>
      in if ex_status r = ''complete''
         then base\<lparr>xr_table := Some (get_or (ex_columns r) [], get_or (ex_rows r) [], get_or (ex_rowcount r) 0),
                   xr_elapsed_ms := Some (get_or (ex_elapsed_ms r) 0)\<rparr>
         else if ex_status r = ''error''
         then base\<lparr>xr_error := Some (or_else (ex_error r) []),
                   xr_elapsed_ms := Some (get_or (ex_elapsed_ms r) 0)\<rparr>
         else base)"

section \<open>The worker\<close>

text \<open>
  \<open>str(exc)\<close> of the exceptions of the session manager; that of a \<open>KeyError\<close> is the quoted
  message.
\<close>

fun error_text :: "session_error \<Rightarrow> string" where
  "error_text (KeyError s) = [CHR 0x27] @ s @ [CHR 0x27]"
| "error_text (ValueError s) = s"
| "error_text (WorkgroupQuotaExceeded s) = s"
| "error_text (WorkgroupAccessError s) = s"
| "error_text (BlockedSqlError s) =
     ''SQL blocked: pattern '' @ [CHR 0x27] @ s @ [CHR 0x27] @ '' is not allowed''"
| "error_text (QueryError s) = s"
| "error_text (ConnectionError s) = s"
| "error_text (IsolationError s) = s"

text \<open>
  What the router is set up with: DuckDB, the configuration of the manager, whether
  \<open>json.dumps\<close> accepts the cells of a result, the environment's rate limit, and the window
  in microseconds.
\<close>

record 'c exec_env =
  xe_duck :: "'c duck"
  xe_cfg :: session_cfg
  xe_encodes :: "rows \<Rightarrow> bool"
  xe_rate_limit :: "string option"
  xe_window :: int

text \<open>A result that cannot be encoded raises in \<open>_update_complete\<close>; the error is swallowed.\<close>

definition run_query_sync ::
    "'c exec_env \<Rightarrow> instant \<Rightarrow> instant \<Rightarrow> rat \<Rightarrow> rat \<Rightarrow> string \<Rightarrow> string \<Rightarrow> string \<Rightarrow> 'c manager \<Rightarrow>
      execution list \<Rightarrow> 'c manager \<times> execution list" where
  "run_query_sync E t t2 ms elapsed eid sid sql m xs =
     (case execute_query (xe_duck E) (xe_cfg E) t t2 ms sid sql m of
        (Inr r, m') \<Rightarrow>
          (m', if xe_encodes E (qs_rows r)
               then update_complete eid (qs_columns r) (qs_rows r) (qs_rowcount r) elapsed xs
               else xs)
      | (Inl e, m') \<Rightarrow> (m', update_error eid (error_text e) elapsed xs))"

section \<open>The rate limit\<close>

type_synonym submissions = "string \<Rightarrow> int list option"

definition count_window :: "string \<Rightarrow> int \<Rightarrow> int \<Rightarrow> submissions \<Rightarrow> nat \<times> submissions" where
  "count_window tenant now window subs =
     (let q = dropWhile (\<lambda>u. u < now - window) (get_or (subs tenant) [])
      in (length q, subs(tenant \<mapsto> q)))"

definition record_submission :: "string \<Rightarrow> int \<Rightarrow> submissions \<Rightarrow> submissions" where
  "record_submission tenant now subs = subs(tenant \<mapsto> get_or (subs tenant) [] @ [now])"

section \<open>The endpoints\<close>

text \<open>The jobs are those handed to the pool that no worker has finished yet.\<close>

record job =
  jb_execution :: string
  jb_session :: string
  jb_sql :: string

record 'c exec_sys =
  xs_manager :: "'c manager"
  xs_rows :: "execution list"
  xs_jobs :: "job list"
  xs_subs :: submissions

record submitted =
  sb_id :: string
  sb_created_at :: string
  sb_limit :: int
  sb_remaining :: int

definition tenant_of :: "claims \<Rightarrow> string" where
  "tenant_of c = get_or (c_tenant_id c) ''default''"

definition exec_event_log :: "string \<Rightarrow> string \<Rightarrow> string \<Rightarrow> audit_event" where
  "exec_event_log kind tenant detail =
     \<lparr>ae_type = kind, ae_tenant_id = Some tenant, ae_ip = None, ae_user_agent = None,
      ae_detail = Some detail\<rparr>"

text \<open>
  \<open>POST /pondapi/execute\<close>: \<open>now\<close> and \<open>now2\<close> are the monotonic times of the count and of the
  record, \<open>t\<close> the wall-clock time, \<open>eid\<close> the fresh identifier.
\<close>

definition submit_execution ::
    "'c exec_env \<Rightarrow> int \<Rightarrow> int \<Rightarrow> instant \<Rightarrow> string \<Rightarrow> string \<Rightarrow> string \<Rightarrow> claims \<Rightarrow> 'c exec_sys \<Rightarrow>
      submitted http \<times> 'c exec_sys \<times> audit_event list" where
  "submit_execution E now now2 t eid sid sql auth s =
     (let tenant = tenant_of auth in
      if blank sql then (Inl (HTTPException 400 ''SQL must not be empty''), s, [])
      else if find_sess sid (xs_manager s) = None
      then (Inl (HTTPException 404 (''Session not found: '' @ sid)), s, [])
      else
        (case check_sql sql of
           Some name \<Rightarrow>
             (Inl (HTTPException 400 (''SQL blocked: '' @ name)), s,
              [exec_event_log ''sandbox_blocked'' tenant (''blocked pattern: '' @ name)])
         | None \<Rightarrow>
             (case py_int (get_or (xe_rate_limit E) ''10'') of
                None \<Rightarrow> (Inl server_error, s, [])
              | Some rate_limit \<Rightarrow>
                  (case count_window tenant now (xe_window E) (xs_subs s) of
                     (current, subs) \<Rightarrow>
                       if rate_limit \<le> int current
                       then (Inl (HTTPException 429 (''Rate limit exceeded: max '' @ int_str rate_limit
                               @ '' executions per '' @ int_str (xe_window E div 1000000) @ ''s per tenant'')),
                             s\<lparr>xs_subs := subs\<rparr>, [])
                       else
                         (let s1 = s\<lparr>xs_subs := record_submission tenant now2 subs\<rparr> in
                          case insert_execution eid tenant sid sql (isoformat t) (xs_rows s) of
                            None \<Rightarrow> (Inl server_error, s1, [])
                          | Some xs \<Rightarrow>
                              (Inr \<lparr>sb_id = eid, sb_created_at = isoformat t, sb_limit = rate_limit,
                                    sb_remaining = max 0 (rate_limit - int current - 1)\<rparr>,
                               s1\<lparr>xs_rows := xs,
                                  xs_jobs := xs_jobs s @ [\<lparr>jb_execution = eid, jb_session = sid, jb_sql = sql\<rparr>]\<rparr>,
                               [exec_event_log ''pondapi_execute'' tenant
                                  (''execution_id='' @ eid @ '' session_id='' @ sid)]))))))"

definition may_see_execution :: "string \<Rightarrow> execution \<Rightarrow> bool" where
  "may_see_execution tenant r =
     (\<not> (ex_tenant r \<noteq> tenant \<and> ex_tenant r \<noteq> ''default'' \<and> tenant \<noteq> ''default''))"

text \<open>
  A poll reads the table once, and again (\<open>xs'\<close>) if the execution is pending and its worker
  has finished in the meantime.
\<close>

definition get_execution_result ::
    "string \<Rightarrow> claims \<Rightarrow> bool \<Rightarrow> execution list \<Rightarrow> execution list \<Rightarrow> exec_result http" where
  "get_execution_result eid auth finished xs xs' =
     (case fetch_row eid xs of
        None \<Rightarrow> Inl (HTTPException 404 (''Execution not found: '' @ eid))
      | Some r \<Rightarrow>
          if \<not> may_see_execution (tenant_of auth) r
          then Inl (HTTPException 403 ''Access denied to this execution'')
          else if (ex_status r = ''pending'' \<or> ex_status r = ''running'') \<and> finished
          then (case fetch_row eid xs' of
                  None \<Rightarrow> Inl (HTTPException 404 (''Execution not found: '' @ eid))
                | Some r' \<Rightarrow> Inr (row_to_result r'))
          else Inr (row_to_result r))"

section \<open>HTML fragments\<close>

definition dquote :: string where
  "dquote = [CHR 0x22]"

definition pending_fragment :: "string \<Rightarrow> string" where
  "pending_fragment eid =
     ''<div id='' @ dquote @ ''pondapi-result'' @ dquote
     @ '' hx-get='' @ dquote @ ''/pondapi/execute/'' @ eid @ ''/htmx'' @ dquote
     @ '' hx-trigger='' @ dquote @ ''every 1s'' @ dquote
     @ '' hx-swap='' @ dquote @ ''outerHTML'' @ dquote @ ''>''
     @ ''<p>Status: pending</p>''
     @ ''<span class='' @ dquote @ ''htmx-indicator'' @ dquote @ ''>Running...</span>''
     @ ''</div>''"

text \<open>\<open>f"{x:.1f}"\<close> of a number that is not negative: ties go to the even digit.\<close>

definition fixed1 :: "rat \<Rightarrow> string" where
  "fixed1 x =
     (let f = \<lfloor>10 * x\<rfloor>; d = 10 * x - of_int f;
          n = (if d < 1/2 \<or> (d = 1/2 \<and> even f) then f else f + 1)
      in int_str (n div 10) @ ''.'' @ int_str (n mod 10))"

definition complete_fragment :: "exec_result \<Rightarrow> string" where
  "complete_fragment r =
     (case get_or (xr_table r) ([], [], 0) of
        (columns, rows, rowcount) \<Rightarrow>
          ''<div id='' @ dquote @ ''pondapi-result'' @ dquote @ ''>''
          @ ''<p>Status: complete ('' @ int_str rowcount @ '' rows, ''
          @ fixed1 (get_or (xr_elapsed_ms r) 0) @ ''ms)</p>''
          @ ''<table><thead><tr>'' @ concat (map (\<lambda>c. ''<th>'' @ c @ ''</th>'') columns) @ ''</tr></thead>''
          @ ''<tbody>''
          @ concat (map (\<lambda>row. ''<tr>'' @ concat (map (\<lambda>cell. ''<td>'' @ cell @ ''</td>'') row) @ ''</tr>'') rows)
          @ ''</tbody></table>''
          @ ''</div>'')"

definition error_fragment :: "string \<Rightarrow> string" where
  "error_fragment message =
     ''<div id='' @ dquote @ ''pondapi-result'' @ dquote @ ''><p>Status: error</p><p class='' @ dquote @ ''error'' @ dquote
     @ ''>Error: '' @ message @ ''</p></div>''"

text \<open>\<open>POST /pondapi/execute/htmx\<close>; a response is a status code and a body.\<close>

definition submit_htmx ::
    "instant \<Rightarrow> string \<Rightarrow> string \<Rightarrow> string \<Rightarrow> claims \<Rightarrow> 'c exec_sys \<Rightarrow> (nat \<times> string) http \<times> 'c exec_sys" where
  "submit_htmx t eid sid sql auth s =
     (if blank sql then (Inl (HTTPException 400 ''SQL must not be empty''), s)
      else if find_sess sid (xs_manager s) = None
      then (Inr (200, error_fragment (''Session not found: '' @ sid)), s)
      else
        (case insert_execution eid (tenant_of auth) sid sql (isoformat t) (xs_rows s) of
           None \<Rightarrow> (Inl server_error, s)
         | Some xs \<Rightarrow>
             (Inr (200, pending_fragment eid),
              s\<lparr>xs_rows := xs,
                xs_jobs := xs_jobs s @ [\<lparr>jb_execution = eid, jb_session = sid, jb_sql = sql\<rparr>]\<rparr>)))"

definition poll_htmx ::
    "string \<Rightarrow> claims \<Rightarrow> bool \<Rightarrow> execution list \<Rightarrow> execution list \<Rightarrow> nat \<times> string" where
  "poll_htmx eid auth finished xs xs' =
     (let show_row = (\<lambda>r.
            if ex_status r = ''complete'' then complete_fragment (row_to_result r)
            else if ex_status r = ''error'' then error_fragment (or_else (ex_error r) ''Unknown error'')
            else pending_fragment eid)
      in case fetch_row eid xs of
           None \<Rightarrow> (200, error_fragment (''Execution not found: '' @ eid))
         | Some r \<Rightarrow>
             if \<not> may_see_execution (tenant_of auth) r
             then (403, error_fragment ''Forbidden: access denied'')
             else if (ex_status r = ''pending'' \<or> ex_status r = ''running'') \<and> finished
             then (case fetch_row eid xs' of
                     None \<Rightarrow> (200, error_fragment (''Execution lost: '' @ eid))
                   | Some r' \<Rightarrow> (200, show_row r'))
             else (200, show_row r))"

end
