(* ===== verification/ExecutorSystem.thy ===== *)
theory ExecutorSystem
  imports Executor
begin

text \<open>
  Asynchronous execution as a state machine: submissions through both front ends, workers
  that finish in any order, and a session manager that changes underneath. The executions
  refine the life cycle pending, then done, once and for all; the submissions of a tenant
  stay within their window.
\<close>

section \<open>Events\<close>

text \<open>
  \<open>Work n\<close> is the n-th unfinished job running to its end. The sessions are created, suspended
  and destroyed by other parts of the program: any manager may be found afterwards.
\<close>

datatype 'c exec_event =
    Submit int int instant string string string claims
  | SubmitHtmx instant string string string claims
  | Work nat instant instant rat rat
  | Sessions "'c manager"

definition drop_nth :: "nat \<Rightarrow> 'a list \<Rightarrow> 'a list" where
  "drop_nth n xs = take n xs @ drop (Suc n) xs"

fun apply_exec :: "'c exec_env \<Rightarrow> 'c exec_event \<Rightarrow> 'c exec_sys \<Rightarrow> 'c exec_sys" where
  "apply_exec E (Submit now now2 t eid sid sql auth) s =
     fst (snd (submit_execution E now now2 t eid sid sql auth s))"
| "apply_exec E (SubmitHtmx t eid sid sql auth) s = snd (submit_htmx t eid sid sql auth s)"
| "apply_exec E (Work n t t2 ms elapsed) s =
     (if n < length (xs_jobs s) then
        (let j = xs_jobs s ! n in
         case run_query_sync E t t2 ms elapsed (jb_execution j) (jb_session j) (jb_sql j)
                (xs_manager s) (xs_rows s) of
           (m', xs) \<Rightarrow> s\<lparr>xs_manager := m', xs_rows := xs, xs_jobs := drop_nth n (xs_jobs s)\<rparr>)
      else s)"
| "apply_exec E (Sessions m) s = s\<lparr>xs_manager := m\<rparr>"

definition initial_exec :: "'c manager \<Rightarrow> 'c exec_sys" where
  "initial_exec m = \<lparr>xs_manager = m, xs_rows = [], xs_jobs = [], xs_subs = (\<lambda>_. None)\<rparr>"

inductive exec_step :: "'c exec_env \<Rightarrow> 'c exec_sys \<Rightarrow> 'c exec_sys \<Rightarrow> bool" for E where
  step: "exec_step E s (apply_exec E ev s)"

inductive_cases exec_stepE: "exec_step E s s'"

inductive exec_reachable :: "'c exec_env \<Rightarrow> 'c exec_sys \<Rightarrow> bool" for E where
  start: "exec_reachable E (initial_exec m)"
| next_state: "exec_reachable E s \<Longrightarrow> exec_step E s s' \<Longrightarrow> exec_reachable E s'"

section \<open>The life cycle\<close>

text \<open>What an execution is to its callers: unknown, pending, or done with an outcome.\<close>

datatype outcome = Table "string list" rows int | Failure string

datatype phase = Pending | Done outcome

definition phase_of :: "execution \<Rightarrow> phase" where
  "phase_of r =
     (if ex_status r = ''complete''
      then Done (Table (get_or (ex_columns r) []) (get_or (ex_rows r) []) (get_or (ex_rowcount r) 0))
      else if ex_status r = ''error'' then Done (Failure (or_else (ex_error r) []))
      else Pending)"

text \<open>The abstract state: tenant, statement and phase of each execution.\<close>

type_synonym life = "string \<Rightarrow> (string \<times> string \<times> phase) option"

definition life_of :: "execution list \<Rightarrow> life" where
  "life_of xs eid = map_option (\<lambda>r. (ex_tenant r, ex_sql r, phase_of r)) (fetch_row eid xs)"

inductive life_step :: "life \<Rightarrow> life \<Rightarrow> bool" where
  stutter: "life_step l l"
| submit: "l eid = None \<Longrightarrow> life_step l (l(eid \<mapsto> (tenant, sql, Pending)))"
| finish: "l eid = Some (tenant, sql, Pending) \<Longrightarrow> life_step l (l(eid \<mapsto> (tenant, sql, Done r)))"

definition row_wf :: "execution \<Rightarrow> bool" where
  "row_wf r =
     (ex_status r \<in> {''pending'', ''complete'', ''error''}
      \<and> (ex_status r = ''complete'' \<longleftrightarrow> ex_columns r \<noteq> None)
      \<and> (ex_rows r \<noteq> None \<longleftrightarrow> ex_columns r \<noteq> None) \<and> (ex_rowcount r \<noteq> None \<longleftrightarrow> ex_columns r \<noteq> None)
      \<and> (ex_status r = ''error'' \<longleftrightarrow> ex_error r \<noteq> None)
      \<and> (ex_status r = ''pending'' \<longleftrightarrow> ex_elapsed_ms r = None))"

definition job_ok :: "execution list \<Rightarrow> job \<Rightarrow> bool" where
  "job_ok xs j =
     (\<exists>r \<in> set xs. ex_id r = jb_execution j \<and> ex_session r = jb_session j \<and> ex_sql r = jb_sql j
        \<and> ex_status r = ''pending'')"

definition exec_inv :: "'c exec_sys \<Rightarrow> bool" where
  "exec_inv s =
     (distinct (map ex_id (xs_rows s)) \<and> distinct (map jb_execution (xs_jobs s))
      \<and> (\<forall>r \<in> set (xs_rows s). row_wf r) \<and> (\<forall>j \<in> set (xs_jobs s). job_ok (xs_rows s) j))"

lemma exec_invI:
  "distinct (map ex_id (xs_rows s)) \<Longrightarrow> distinct (map jb_execution (xs_jobs s)) \<Longrightarrow>
   (\<And>r. r \<in> set (xs_rows s) \<Longrightarrow> row_wf r) \<Longrightarrow> (\<And>j. j \<in> set (xs_jobs s) \<Longrightarrow> job_ok (xs_rows s) j) \<Longrightarrow>
   exec_inv s"
  by (simp add: exec_inv_def)

section \<open>One submission, one worker\<close>

definition pending_row :: "string \<Rightarrow> string \<Rightarrow> string \<Rightarrow> string \<Rightarrow> string \<Rightarrow> execution" where
  "pending_row eid tenant sid sql created_at =
     \<lparr>ex_id = eid, ex_tenant = tenant, ex_session = sid, ex_sql = sql, ex_status = ''pending'',
      ex_columns = None, ex_rows = None, ex_rowcount = None, ex_elapsed_ms = None, ex_error = None,
      ex_created_at = created_at\<rparr>"

lemma pending_row_sel [simp]:
  "ex_id (pending_row eid tenant sid sql c) = eid" "ex_tenant (pending_row eid tenant sid sql c) = tenant"
  "ex_session (pending_row eid tenant sid sql c) = sid" "ex_sql (pending_row eid tenant sid sql c) = sql"
  "ex_status (pending_row eid tenant sid sql c) = ''pending''" "row_wf (pending_row eid tenant sid sql c)"
  "phase_of (pending_row eid tenant sid sql c) = Pending"
  by (simp_all add: pending_row_def row_wf_def phase_of_def)

lemma insert_execution_iff:
  "insert_execution eid tenant sid sql c xs = Some ys \<longleftrightarrow>
    eid \<notin> ex_id ` set xs \<and> ys = xs @ [pending_row eid tenant sid sql c]"
  by (auto simp: insert_execution_def pending_row_def)

text \<open>A submission that is recorded, through either front end.\<close>

definition recorded :: "string \<Rightarrow> string \<Rightarrow> string \<Rightarrow> string \<Rightarrow> string \<Rightarrow> 'c exec_sys \<Rightarrow> 'c exec_sys \<Rightarrow> bool" where
  "recorded eid tenant sid sql c s s' =
     (eid \<notin> ex_id ` set (xs_rows s)
      \<and> xs_rows s' = xs_rows s @ [pending_row eid tenant sid sql c]
      \<and> xs_jobs s' = xs_jobs s @ [\<lparr>jb_execution = eid, jb_session = sid, jb_sql = sql\<rparr>])"

lemma submit_cases:
  assumes "submit_execution E now now2 t eid sid sql auth s = (r, s', evs)"
  shows "(\<exists>x. r = Inr x \<and> recorded eid (tenant_of auth) sid sql (isoformat t) s s' \<and> check_sql sql = None) \<or>
    (\<not> is_ok r \<and> xs_rows s' = xs_rows s \<and> xs_jobs s' = xs_jobs s)"
  using assms
  by (auto simp: submit_execution_def recorded_def insert_execution_iff Let_def
      split: if_splits option.splits prod.splits)

lemma submit_htmx_cases:
  assumes "submit_htmx t eid sid sql auth s = (r, s')"
  shows "recorded eid (tenant_of auth) sid sql (isoformat t) s s' \<or> s' = s"
  using assms by (auto simp: submit_htmx_def recorded_def insert_execution_iff split: if_splits option.splits)

lemma job_ok_append: "job_ok xs j \<Longrightarrow> job_ok (xs @ ys) j"
  by (auto simp: job_ok_def)

lemma job_fresh: "\<forall>j \<in> set js. job_ok xs j \<Longrightarrow> eid \<notin> ex_id ` set xs \<Longrightarrow> eid \<notin> jb_execution ` set js"
  by (force simp: job_ok_def)

lemma recorded_inv:
  assumes "recorded eid tenant sid sql c s s'" "exec_inv s"
  shows "exec_inv s'"
proof (rule exec_invI)
  have rows: "xs_rows s' = xs_rows s @ [pending_row eid tenant sid sql c]"
    and jobs: "xs_jobs s' = xs_jobs s @ [\<lparr>jb_execution = eid, jb_session = sid, jb_sql = sql\<rparr>]"
    and new: "eid \<notin> ex_id ` set (xs_rows s)"
    using assms(1) by (simp_all add: recorded_def)
  have inv: "distinct (map ex_id (xs_rows s))" "distinct (map jb_execution (xs_jobs s))"
    "\<forall>r \<in> set (xs_rows s). row_wf r" "\<forall>j \<in> set (xs_jobs s). job_ok (xs_rows s) j"
    using assms(2) by (simp_all add: exec_inv_def)
  show "distinct (map ex_id (xs_rows s'))" using inv(1) new by (simp add: rows)
  show "distinct (map jb_execution (xs_jobs s'))"
    using inv(2) job_fresh [OF inv(4) new] by (simp add: jobs)
  show "row_wf r" if "r \<in> set (xs_rows s')" for r using that inv(3) by (auto simp: rows)
  show "job_ok (xs_rows s') j" if "j \<in> set (xs_jobs s')" for j
  proof (cases "j \<in> set (xs_jobs s)")
    case True
    then show ?thesis using inv(4) by (simp add: rows job_ok_append)
  next
    case False
    then have "j = \<lparr>jb_execution = eid, jb_session = sid, jb_sql = sql\<rparr>" using that by (simp add: jobs)
    then show ?thesis by (simp add: job_ok_def rows)
  qed
qed

text \<open>The row of a job is written at most once, by that job.\<close>

definition finished_row :: "execution \<Rightarrow> execution \<Rightarrow> bool" where
  "finished_row r r' =
     (ex_id r' = ex_id r \<and> ex_tenant r' = ex_tenant r \<and> ex_session r' = ex_session r
      \<and> ex_sql r' = ex_sql r \<and> ex_created_at r' = ex_created_at r
      \<and> (ex_status r = ''pending'' \<longrightarrow> row_wf r \<longrightarrow> row_wf r' \<and> (\<exists>x. phase_of r' = Done x)))"

definition finishing :: "string \<Rightarrow> execution list \<Rightarrow> execution list \<Rightarrow> bool" where
  "finishing eid xs ys =
     (\<exists>f. ys = update_where (\<lambda>r. ex_id r = eid) f xs \<and> (\<forall>r. finished_row r (f r)))"

lemma finishing_complete: "finishing eid xs (update_complete eid columns rows n elapsed xs)"
proof -
  have "finished_row r (r\<lparr>ex_status := ''complete'', ex_columns := Some columns, ex_rows := Some rows,
      ex_rowcount := Some n, ex_elapsed_ms := Some elapsed\<rparr>)" for r
    by (simp add: finished_row_def row_wf_def phase_of_def)
  then show ?thesis unfolding finishing_def update_complete_def by blast
qed

lemma finishing_error: "finishing eid xs (update_error eid err elapsed xs)"
proof -
  have "finished_row r (r\<lparr>ex_status := ''error'', ex_error := Some err, ex_elapsed_ms := Some elapsed\<rparr>)" for r
    by (simp add: finished_row_def row_wf_def phase_of_def)
  then show ?thesis unfolding finishing_def update_error_def by blast
qed

lemma worker_cases:
  assumes "run_query_sync E t t2 ms elapsed eid sid sql m xs = (m', ys)"
  shows "ys = xs \<or> finishing eid xs ys" and "(\<And>rs. xe_encodes E rs) \<Longrightarrow> finishing eid xs ys"
  using assms
  by (auto simp: run_query_sync_def finishing_complete finishing_error split: sum.splits prod.splits if_splits)

lemma job_ok_other:
  assumes "finishing eid xs ys" "job_ok xs j" "jb_execution j \<noteq> eid"
  shows "job_ok ys j"
proof -
  obtain f r where f: "ys = update_where (\<lambda>r. ex_id r = eid) f xs" and r: "r \<in> set xs"
    "ex_id r = jb_execution j" "ex_session r = jb_session j" "ex_sql r = jb_sql j" "ex_status r = ''pending''"
    using assms(1,2) by (auto simp: finishing_def job_ok_def)
  have "(if ex_id r = eid then f r else r) \<in> set ys"
    unfolding f set_update_where using r(1) by (rule imageI)
  then show ?thesis unfolding job_ok_def using r assms(3) by auto
qed

lemma set_drop_nth: "set (drop_nth n xs) \<subseteq> set xs"
  by (auto simp: drop_nth_def dest: in_set_takeD in_set_dropD)

lemma drop_nth_distinct:
  assumes "distinct (map f xs)" "n < length xs"
  shows "distinct (map f (drop_nth n xs))" "y \<in> set (drop_nth n xs) \<Longrightarrow> f y \<noteq> f (xs ! n)"
    "x \<in> set xs \<Longrightarrow> x \<noteq> xs ! n \<Longrightarrow> x \<in> set (drop_nth n xs)"
proof -
  have eq: "xs = take n xs @ xs ! n # drop (Suc n) xs" using assms(2) by (rule id_take_nth_drop)
  have d: "distinct (map f (take n xs @ xs ! n # drop (Suc n) xs))" using assms(1) eq by simp
  show "distinct (map f (drop_nth n xs))" using d by (simp add: drop_nth_def)
  show "f y \<noteq> f (xs ! n)" if "y \<in> set (drop_nth n xs)"
  proof -
    have "f y \<in> f ` set (take n xs) \<union> f ` set (drop (Suc n) xs)" using that by (auto simp: drop_nth_def)
    moreover have "f (xs ! n) \<notin> f ` set (take n xs) \<union> f ` set (drop (Suc n) xs)" using d by simp
    ultimately show ?thesis by metis
  qed
  have "set xs = set (take n xs @ xs ! n # drop (Suc n) xs)" using eq by simp
  then show "x \<in> set (drop_nth n xs)" if "x \<in> set xs" "x \<noteq> xs ! n"
    using that by (auto simp: drop_nth_def)
qed

lemma finishing_keeps_rows:
  assumes "finishing eid xs ys"
  shows "map ex_id ys = map ex_id xs"
  using assms unfolding finishing_def finished_row_def by (metis (mono_tags, lifting) map_update_where)

lemma finishing_row:
  assumes "finishing eid xs ys" "distinct (map ex_id xs)" "r \<in> set ys" "\<forall>r \<in> set xs. row_wf r"
    and "\<exists>r \<in> set xs. ex_id r = eid \<and> ex_status r = ''pending''"
  shows "row_wf r"
proof -
  obtain f where f: "ys = update_where (\<lambda>r. ex_id r = eid) f xs" "\<forall>r. finished_row r (f r)"
    using assms(1) by (auto simp: finishing_def)
  then obtain r0 where r0: "r0 \<in> set xs" "r = (if ex_id r0 = eid then f r0 else r0)"
    using assms(3) by (auto simp: set_update_where)
  show ?thesis
  proof (cases "ex_id r0 = eid")
    case True
    then have "ex_status r0 = ''pending''" using assms(2,5) r0(1) distinct_keyD [of ex_id xs] by metis
    then show ?thesis using r0 True f(2) assms(4) unfolding finished_row_def by metis
  next
    case False
    then show ?thesis using r0 assms(4) by simp
  qed
qed

lemma worker_inv:
  assumes "exec_inv s" "n < length (xs_jobs s)"
  shows "exec_inv (apply_exec E (Work n t t2 ms elapsed) s)"
proof -
  let ?j = "xs_jobs s ! n"
  obtain m' ys where w: "run_query_sync E t t2 ms elapsed (jb_execution ?j) (jb_session ?j) (jb_sql ?j)
      (xs_manager s) (xs_rows s) = (m', ys)"
    by (cases "run_query_sync E t t2 ms elapsed (jb_execution ?j) (jb_session ?j) (jb_sql ?j)
      (xs_manager s) (xs_rows s)")
  have inv: "distinct (map ex_id (xs_rows s))" "distinct (map jb_execution (xs_jobs s))"
    "\<forall>r \<in> set (xs_rows s). row_wf r" "\<forall>j \<in> set (xs_jobs s). job_ok (xs_rows s) j"
    using assms(1) by (simp_all add: exec_inv_def)
  have pend: "\<exists>r \<in> set (xs_rows s). ex_id r = jb_execution ?j \<and> ex_status r = ''pending''"
    using inv(4) nth_mem [OF assms(2)] unfolding job_ok_def by blast
  have s': "apply_exec E (Work n t t2 ms elapsed) s =
      s\<lparr>xs_manager := m', xs_rows := ys, xs_jobs := drop_nth n (xs_jobs s)\<rparr>"
    using assms(2) w by (simp add: Let_def)
  have step: "ys = xs_rows s \<or> finishing (jb_execution ?j) (xs_rows s) ys" using worker_cases(1) [OF w] .
  have rows: "row_wf r" if "r \<in> set ys" for r
    using step inv(3) that finishing_row [OF _ inv(1) that inv(3) pend] by blast
  have jobs: "job_ok ys j" if "j \<in> set (drop_nth n (xs_jobs s))" for j
  proof -
    have other: "jb_execution j \<noteq> jb_execution ?j"
      by (rule drop_nth_distinct(2) [OF inv(2) assms(2) that])
    have "job_ok (xs_rows s) j" using inv(4) subsetD [OF set_drop_nth that] by blast
    then show ?thesis using step job_ok_other [OF _ _ other] by blast
  qed
  have "distinct (map ex_id ys)" using step inv(1) finishing_keeps_rows by metis
  with drop_nth_distinct(1) [OF inv(2) assms(2)]
  have "exec_inv (s\<lparr>xs_manager := m', xs_rows := ys, xs_jobs := drop_nth n (xs_jobs s)\<rparr>)"
    unfolding exec_inv_def by (simp add: rows jobs del: map_eq_conv)
  then show ?thesis using s' by simp
qed

lemma apply_exec_inv: "exec_inv s \<Longrightarrow> exec_inv (apply_exec E ev s)"
proof (cases ev)
  case (Submit now now2 t eid sid sql auth)
  assume inv: "exec_inv s"
  obtain r s' evs where p: "submit_execution E now now2 t eid sid sql auth s = (r, s', evs)"
    by (metis prod_cases3)
  show ?thesis using submit_cases [OF p] recorded_inv [OF _ inv] inv p
    by (auto simp: Submit exec_inv_def)
next
  case (SubmitHtmx t eid sid sql auth)
  assume inv: "exec_inv s"
  obtain r s' where p: "submit_htmx t eid sid sql auth s = (r, s')" by (metis prod.collapse)
  show ?thesis using submit_htmx_cases [OF p] recorded_inv [OF _ inv] inv p by (auto simp: SubmitHtmx)
next
  case (Work n t t2 ms elapsed)
  assume inv: "exec_inv s"
  show ?thesis
  proof (cases "n < length (xs_jobs s)")
    case True
    then show ?thesis using worker_inv [OF inv] Work by simp
  qed (simp add: Work inv)
qed (simp add: exec_inv_def)

lemma exec_reachable_inv: "exec_reachable E s \<Longrightarrow> exec_inv s"
proof (induction rule: exec_reachable.induct)
  case (start m)
  show ?case by (simp add: exec_inv_def initial_exec_def)
next
  case (next_state s s')
  then show ?case using apply_exec_inv by (auto elim: exec_stepE)
qed

section \<open>Refinement of the life cycle\<close>

lemma life_of_append:
  "eid \<notin> ex_id ` set xs \<Longrightarrow>
    life_of (xs @ [pending_row eid tenant sid sql c]) = (life_of xs)(eid \<mapsto> (tenant, sql, Pending))"
  using find_fresh_key [of eid ex_id xs]
  by (auto simp: life_of_def fetch_row_def find_append fun_eq_iff split: option.splits)

lemma fetch_row_SomeD: "fetch_row eid xs = Some r \<Longrightarrow> r \<in> set xs \<and> ex_id r = eid"
  unfolding fetch_row_def by (rule find_SomeD)

lemma phase_of_pending: "row_wf r \<Longrightarrow> phase_of r = Pending \<longleftrightarrow> ex_status r = ''pending''"
  by (auto simp: phase_of_def row_wf_def)

lemma life_of_finishing:
  assumes "finishing eid xs ys" "distinct (map ex_id xs)" "r \<in> set xs" "ex_id r = eid"
    "ex_status r = ''pending''" "row_wf r"
  shows "\<exists>x. life_of ys = (life_of xs)(eid \<mapsto> (ex_tenant r, ex_sql r, Done x))"
    and "life_of xs eid = Some (ex_tenant r, ex_sql r, Pending)"
proof -
  obtain f where ys: "ys = update_where (\<lambda>r. ex_id r = eid) f xs" and f: "\<forall>r. finished_row r (f r)"
    using assms(1) by (auto simp: finishing_def)
  have find_eid: "fetch_row eid xs = Some r"
    using find_unique_key [OF assms(2,3)] assms(4) by (simp add: fetch_row_def)
  show "life_of xs eid = Some (ex_tenant r, ex_sql r, Pending)"
    using find_eid assms(5) phase_of_pending [OF assms(6)] by (simp add: life_of_def)
  obtain x where x: "phase_of (f r) = Done x" "ex_tenant (f r) = ex_tenant r" "ex_sql (f r) = ex_sql r"
    using f assms(5,6) unfolding finished_row_def by blast
  have fetch: "fetch_row k ys = (case fetch_row k xs of None \<Rightarrow> None
      | Some r \<Rightarrow> Some (if ex_id r = eid then f r else r))" for k
    unfolding ys fetch_row_def using f by (intro find_update_where) (auto simp: finished_row_def)
  have "life_of ys k = ((life_of xs)(eid \<mapsto> (ex_tenant r, ex_sql r, Done x))) k" for k
  proof (cases "k = eid")
    case True
    then show ?thesis using x by (simp add: life_of_def fetch find_eid assms(4))
  next
    case False
    show ?thesis
    proof (cases "fetch_row k xs")
      case (Some r')
      then have "ex_id r' \<noteq> eid" using fetch_row_SomeD False by blast
      then show ?thesis using False Some by (simp add: life_of_def fetch)
    qed (simp add: life_of_def fetch False)
  qed
  then have "life_of ys = (life_of xs)(eid \<mapsto> (ex_tenant r, ex_sql r, Done x))" by (rule ext)
  then show "\<exists>x. life_of ys = (life_of xs)(eid \<mapsto> (ex_tenant r, ex_sql r, Done x))" by blast
qed

lemma recorded_life:
  assumes "recorded eid tenant sid sql c s s'"
  shows "life_step (life_of (xs_rows s)) (life_of (xs_rows s'))"
proof -
  have "life_of (xs_rows s) eid = None"
    using assms find_fresh_key [of eid ex_id "xs_rows s"] by (simp add: recorded_def life_of_def fetch_row_def)
  then show ?thesis using assms by (simp add: recorded_def life_of_append life_step.submit)
qed

lemma work_step:
  assumes "exec_inv s" "n < length (xs_jobs s)"
  obtains m' ys r where "apply_exec E (Work n t t2 ms elapsed) s =
      s\<lparr>xs_manager := m', xs_rows := ys, xs_jobs := drop_nth n (xs_jobs s)\<rparr>"
    and "ys = xs_rows s \<or> finishing (jb_execution (xs_jobs s ! n)) (xs_rows s) ys"
    and "(\<And>rs. xe_encodes E rs) \<Longrightarrow> finishing (jb_execution (xs_jobs s ! n)) (xs_rows s) ys"
    and "r \<in> set (xs_rows s)" "ex_id r = jb_execution (xs_jobs s ! n)" "ex_status r = ''pending''" "row_wf r"
proof -
  let ?j = "xs_jobs s ! n"
  obtain m' ys where w: "run_query_sync E t t2 ms elapsed (jb_execution ?j) (jb_session ?j) (jb_sql ?j)
      (xs_manager s) (xs_rows s) = (m', ys)"
    by (cases "run_query_sync E t t2 ms elapsed (jb_execution ?j) (jb_session ?j) (jb_sql ?j)
      (xs_manager s) (xs_rows s)")
  have "job_ok (xs_rows s) ?j" using assms by (simp add: exec_inv_def)
  then obtain r where r: "r \<in> set (xs_rows s)" "ex_id r = jb_execution ?j" "ex_status r = ''pending''"
    by (auto simp: job_ok_def)
  moreover have "row_wf r" using r(1) assms(1) by (simp add: exec_inv_def)
  moreover have "apply_exec E (Work n t t2 ms elapsed) s =
      s\<lparr>xs_manager := m', xs_rows := ys, xs_jobs := drop_nth n (xs_jobs s)\<rparr>"
    using assms(2) w by (simp add: Let_def)
  ultimately show thesis using that worker_cases [OF w] by blast
qed

lemma exec_life_step:
  assumes "exec_inv s"
  shows "life_step (life_of (xs_rows s)) (life_of (xs_rows (apply_exec E ev s)))"
proof (cases ev)
  case (Submit now now2 t eid sid sql auth)
  obtain r s' evs where p: "submit_execution E now now2 t eid sid sql auth s = (r, s', evs)"
    by (metis prod_cases3)
  show ?thesis using submit_cases [OF p] recorded_life p by (auto simp: Submit intro: life_step.stutter)
next
  case (SubmitHtmx t eid sid sql auth)
  obtain r s' where p: "submit_htmx t eid sid sql auth s = (r, s')" by (metis prod.collapse)
  show ?thesis using submit_htmx_cases [OF p] recorded_life p by (auto simp: SubmitHtmx intro: life_step.stutter)
next
  case (Work n t t2 ms elapsed)
  show ?thesis
  proof (cases "n < length (xs_jobs s)")
    case True
    obtain m' ys r where w: "apply_exec E (Work n t t2 ms elapsed) s =
        s\<lparr>xs_manager := m', xs_rows := ys, xs_jobs := drop_nth n (xs_jobs s)\<rparr>"
      "ys = xs_rows s \<or> finishing (jb_execution (xs_jobs s ! n)) (xs_rows s) ys"
      "r \<in> set (xs_rows s)" "ex_id r = jb_execution (xs_jobs s ! n)" "ex_status r = ''pending''" "row_wf r"
      using work_step [OF assms True] by metis
    have "distinct (map ex_id (xs_rows s))" using assms by (simp add: exec_inv_def)
    then show ?thesis
      using w(2) life_of_finishing [OF _ _ w(3-6)] unfolding Work w(1)
      by (auto intro: life_step.stutter) (metis life_step.finish)
  qed (simp add: Work life_step.stutter)
qed (simp add: life_step.stutter)

text \<open>
  Property C17. Asynchronous execution refines its life cycle: whatever step the service takes
  from a reachable state (a submission through either front end, a worker that finishes, any
  change of the sessions), seen by the callers either nothing changes, or one new execution
  appears as pending, or one pending execution becomes done. An outcome, once recorded, never
  changes, and neither do the tenant and the statement of an execution.
\<close>

theorem executions_refine_lifecycle:
  assumes "exec_reachable E s" and "exec_step E s s'"
  shows "life_step (life_of (xs_rows s)) (life_of (xs_rows s'))"
  using assms(2) exec_life_step [OF exec_reachable_inv [OF assms(1)]] by (auto elim: exec_stepE)

section \<open>No execution is lost\<close>

definition awaited :: "'c exec_sys \<Rightarrow> bool" where
  "awaited s = (\<forall>r \<in> set (xs_rows s). ex_status r = ''pending'' \<longrightarrow> (\<exists>j \<in> set (xs_jobs s). jb_execution j = ex_id r))"

lemma recorded_awaited: "recorded eid tenant sid sql c s s' \<Longrightarrow> awaited s \<Longrightarrow> awaited s'"
  by (auto simp: recorded_def awaited_def)

lemma work_awaited:
  assumes "\<And>rs. xe_encodes E rs" "exec_inv s" "awaited s" "n < length (xs_jobs s)"
  shows "awaited (apply_exec E (Work n t t2 ms elapsed) s)"
proof -
  obtain m' ys r0 where w: "apply_exec E (Work n t t2 ms elapsed) s =
      s\<lparr>xs_manager := m', xs_rows := ys, xs_jobs := drop_nth n (xs_jobs s)\<rparr>"
    "finishing (jb_execution (xs_jobs s ! n)) (xs_rows s) ys"
    "r0 \<in> set (xs_rows s)" "ex_id r0 = jb_execution (xs_jobs s ! n)" "ex_status r0 = ''pending''" "row_wf r0"
    using work_step [OF assms(2,4)] assms(1) by metis
  obtain f where f: "ys = update_where (\<lambda>r. ex_id r = jb_execution (xs_jobs s ! n)) f (xs_rows s)"
    "\<forall>r. finished_row r (f r)"
    using w(2) by (auto simp: finishing_def)
  have d: "distinct (map ex_id (xs_rows s))" and jobs: "distinct (map jb_execution (xs_jobs s))"
    using assms(2) by (simp_all add: exec_inv_def)
  have "\<exists>j \<in> set (drop_nth n (xs_jobs s)). jb_execution j = ex_id r"
    if r: "r \<in> set ys" and p: "ex_status r = ''pending''" for r
  proof -
    obtain r1 where r1: "r1 \<in> set (xs_rows s)"
      "r = (if ex_id r1 = jb_execution (xs_jobs s ! n) then f r1 else r1)"
      using r unfolding f(1) set_update_where by blast
    show ?thesis
    proof (cases "ex_id r1 = jb_execution (xs_jobs s ! n)")
      case True
      then have "r1 = r0" using distinct_keyD [OF d r1(1) w(3)] w(4) by simp
      then obtain x where "phase_of r = Done x" "row_wf r"
        using True r1(2) f(2) w(5,6) unfolding finished_row_def by metis
      then show ?thesis using p phase_of_pending by force
    next
      case False
      then obtain j where j: "j \<in> set (xs_jobs s)" "jb_execution j = ex_id r"
        using assms(3) r1 p by (auto simp: awaited_def)
      then have "j \<noteq> xs_jobs s ! n" using False r1(2) by auto
      then show ?thesis using drop_nth_distinct(3) [OF jobs assms(4) j(1)] j(2) by blast
    qed
  qed
  then show ?thesis unfolding w(1) awaited_def by simp
qed

lemma reachable_awaited:
  assumes "\<And>rs. xe_encodes E rs"
  shows "exec_reachable E s \<Longrightarrow> awaited s"
proof (induction rule: exec_reachable.induct)
  case (start m)
  show ?case by (simp add: awaited_def initial_exec_def)
next
  case (next_state s s')
  have inv: "exec_inv s" using next_state(1) by (rule exec_reachable_inv)
  obtain ev where s': "s' = apply_exec E ev s" using next_state(2) by (rule exec_stepE)
  show ?case
  proof (cases ev)
    case (Submit now now2 t eid sid sql auth)
    obtain r u evs where p: "submit_execution E now now2 t eid sid sql auth s = (r, u, evs)"
      by (metis prod_cases3)
    have "awaited u"
      using submit_cases [OF p]
    proof (elim disjE exE conjE)
      fix x assume "recorded eid (tenant_of auth) sid sql (isoformat t) s u"
      then show "awaited u" using next_state.IH by (rule recorded_awaited)
    next
      assume "xs_rows u = xs_rows s" "xs_jobs u = xs_jobs s"
      then show "awaited u" using next_state.IH by (simp add: awaited_def)
    qed
    then show ?thesis using p by (simp add: s' Submit)
  next
    case (SubmitHtmx t eid sid sql auth)
    obtain r u where p: "submit_htmx t eid sid sql auth s = (r, u)" by (metis prod.collapse)
    show ?thesis using submit_htmx_cases [OF p] recorded_awaited next_state.IH p by (auto simp: s' SubmitHtmx)
  next
    case (Work n t t2 ms elapsed)
    then show ?thesis using work_awaited [OF assms inv next_state.IH] next_state.IH
      by (cases "n < length (xs_jobs s)") (simp_all add: s' del: apply_exec.simps(3), simp)
  qed (use next_state.IH in \<open>simp add: s' awaited_def\<close>)
qed

text \<open>
  Property C18. No execution is lost: if every result can be encoded as JSON, an execution that
  is still pending has an unfinished job in the pool, and when a worker finishes that job the
  execution is done, with a table or an error, whatever became of its session meanwhile.
\<close>

theorem pending_executions_finish:
  assumes "\<And>rs. xe_encodes E rs" and "exec_reachable E s"
    and "life_of (xs_rows s) eid = Some (tenant, sql, Pending)"
  shows "\<exists>n < length (xs_jobs s). jb_execution (xs_jobs s ! n) = eid \<and>
    (\<forall>t t2 ms elapsed. \<exists>x. life_of (xs_rows (apply_exec E (Work n t t2 ms elapsed) s)) eid =
       Some (tenant, sql, Done x))"
proof -
  have inv: "exec_inv s" using assms(2) by (rule exec_reachable_inv)
  obtain r where r: "fetch_row eid (xs_rows s) = Some r" "ex_tenant r = tenant" "ex_sql r = sql"
    "phase_of r = Pending"
    using assms(3) by (auto simp: life_of_def)
  then have rs: "r \<in> set (xs_rows s)" "ex_id r = eid" using fetch_row_SomeD by blast+
  have "row_wf r" using inv rs(1) by (simp add: exec_inv_def)
  then have "ex_status r = ''pending''" using r(4) phase_of_pending by blast
  then obtain j where "j \<in> set (xs_jobs s)" "jb_execution j = eid"
    using reachable_awaited [OF assms(1,2)] rs by (auto simp: awaited_def)
  then obtain n where n: "n < length (xs_jobs s)" "jb_execution (xs_jobs s ! n) = eid"
    by (metis in_set_conv_nth)
  have "\<exists>x. life_of (xs_rows (apply_exec E (Work n t t2 ms elapsed) s)) eid = Some (tenant, sql, Done x)"
    for t t2 ms elapsed
  proof -
    obtain m' ys r0 where w: "apply_exec E (Work n t t2 ms elapsed) s =
        s\<lparr>xs_manager := m', xs_rows := ys, xs_jobs := drop_nth n (xs_jobs s)\<rparr>"
      "finishing eid (xs_rows s) ys"
      "r0 \<in> set (xs_rows s)" "ex_id r0 = eid" "ex_status r0 = ''pending''" "row_wf r0"
      using work_step [OF inv n(1)] assms(1) n(2) by metis
    have d: "distinct (map ex_id (xs_rows s))" using inv by (simp add: exec_inv_def)
    have "r0 = r" using distinct_keyD [OF d w(3) rs(1)] w(4) rs(2) by simp
    then show ?thesis using life_of_finishing(1) [OF w(2) d w(3-6)] r(2,3) unfolding w(1) by auto
  qed
  then show ?thesis using n by blast
qed

section \<open>The rate limit of the submissions\<close>

definition subs_of :: "string \<Rightarrow> 'c exec_sys \<Rightarrow> int list" where
  "subs_of tenant s = get_or (xs_subs s tenant) []"

definition rate_limit_of :: "'c exec_env \<Rightarrow> nat" where
  "rate_limit_of E = (case py_int (get_or (xe_rate_limit E) ''10'') of None \<Rightarrow> 0 | Some l \<Rightarrow> nat l)"

text \<open>A submission that is accepted at \<open>t\<close>, counted at some earlier time; any other event.\<close>

definition accepted :: "'c exec_env \<Rightarrow> string \<Rightarrow> int \<Rightarrow> 'c exec_sys \<Rightarrow> 'c exec_sys \<Rightarrow> bool" where
  "accepted E tenant t s s' =
     (\<exists>now wall eid sid sql auth r evs. now \<le> t \<and> tenant_of auth = tenant \<and>
        submit_execution E now t wall eid sid sql auth s = (Inr r, s', evs))"

definition other_exec :: "'c exec_env \<Rightarrow> string \<Rightarrow> int \<Rightarrow> 'c exec_sys \<Rightarrow> 'c exec_sys \<Rightarrow> bool" where
  "other_exec E tenant t s s' =
     (\<exists>ev. s' = apply_exec E ev s \<and>
        (case ev of
           Submit now now2 wall eid sid sql auth \<Rightarrow> now \<le> t \<and> now2 = t \<and>
             \<not> (tenant_of auth = tenant \<and>
                is_ok (fst (submit_execution E now now2 wall eid sid sql auth s)))
         | _ \<Rightarrow> True))"

lemma filter_dropWhile_window:
  "c \<le> x \<Longrightarrow> filter (\<lambda>u. x < u) (dropWhile (\<lambda>u. u < c) ts) = filter (\<lambda>u. x < u) (ts :: int list)"
  by (induction ts) auto

lemma submit_subs:
  assumes "submit_execution E now now2 t eid sid sql auth s = (r, s', evs)"
  shows "is_ok r \<Longrightarrow> length (dropWhile (\<lambda>u. u < now - xe_window E) (subs_of (tenant_of auth) s)) < rate_limit_of E"
    and "is_ok r \<Longrightarrow> subs_of (tenant_of auth) s' =
      dropWhile (\<lambda>u. u < now - xe_window E) (subs_of (tenant_of auth) s) @ [now2]"
    and "subs_of tenant s' = subs_of tenant s \<or>
      (\<exists>tl. subs_of tenant s' = dropWhile (\<lambda>u. u < now - xe_window E) (subs_of tenant s) @ tl)"
  using assms
  by (auto simp: submit_execution_def count_window_def record_submission_def subs_of_def
      rate_limit_of_def Let_def split: if_splits option.splits prod.splits)

lemma other_exec_subs:
  assumes "other_exec E tenant t s s'"
  shows "subs_of tenant s' = subs_of tenant s \<or>
    (\<exists>now tl. now \<le> t \<and> subs_of tenant s' = dropWhile (\<lambda>u. u < now - xe_window E) (subs_of tenant s) @ tl)"
proof -
  obtain ev where ev: "s' = apply_exec E ev s" "\<And>now now2 w eid sid sql auth.
      ev = Submit now now2 w eid sid sql auth \<Longrightarrow> now \<le> t"
    using assms unfolding other_exec_def by fastforce
  show ?thesis
  proof (cases ev)
    case (Submit now now2 w eid sid sql auth)
    obtain r u evs where p: "submit_execution E now now2 w eid sid sql auth s = (r, u, evs)"
      by (metis prod_cases3)
    show ?thesis using submit_subs(3) [OF p, of tenant] ev(2) [OF Submit] p by (auto simp: ev(1) Submit)
  next
    case (SubmitHtmx w eid sid sql auth)
    then show ?thesis
      by (auto simp: ev(1) subs_of_def submit_htmx_def split: option.splits)
  next
    case (Work n w t2 ms elapsed)
    then show ?thesis by (simp add: ev(1) subs_of_def Let_def split: prod.splits)
  qed (simp add: ev(1) subs_of_def)
qed

lemma accepted_window:
  assumes "accepted E tenant t s s'"
  obtains c where "c \<le> t - xe_window E"
    "length (dropWhile (\<lambda>u. u < c) (subs_of tenant s)) < rate_limit_of E"
    "subs_of tenant s' = dropWhile (\<lambda>u. u < c) (subs_of tenant s) @ [t]"
proof -
  obtain now wall eid sid sql auth r evs where p: "now \<le> t" "tenant_of auth = tenant"
    "submit_execution E now t wall eid sid sql auth s = (Inr r, s', evs)"
    using assms unfolding accepted_def by blast
  from submit_subs(1,2) [OF p(3)] p(1,2) that [of "now - xe_window E"] show thesis by simp
qed

interpretation submission_limiter: window_limiter "accepted E tenant" "other_exec E tenant"
  "\<lambda>s x. length (filter (\<lambda>u. x < u) (subs_of tenant s))" "rate_limit_of E" "xe_window E" "\<lambda>_. True"
proof (unfold_locales, goal_cases)
  case (2 t s s')
  obtain c where c: "c \<le> t - xe_window E"
    "length (dropWhile (\<lambda>u. u < c) (subs_of tenant s)) < rate_limit_of E"
    using 2 by (rule accepted_window)
  have "length (filter (\<lambda>u. t - xe_window E < u) (subs_of tenant s))
      \<le> length (dropWhile (\<lambda>u. u < c) (subs_of tenant s))"
    using length_filter_le [of "\<lambda>u. t - xe_window E < u" "dropWhile (\<lambda>u. u < c) (subs_of tenant s)"]
    by (simp add: filter_dropWhile_window [OF c(1)])
  then show ?case using c(2) by simp
next
  case (3 t s s' x)
  obtain c where "c \<le> t - xe_window E" "subs_of tenant s' = dropWhile (\<lambda>u. u < c) (subs_of tenant s) @ [t]"
    using 3(1) by (rule accepted_window)
  then show ?case using 3(3,4) by (simp add: filter_dropWhile_window)
next
  case (4 t s s' x)
  then show ?case using other_exec_subs [OF 4(1)] by (auto simp: filter_dropWhile_window)
next
  case (5 t s s' x)
  obtain c where "c \<le> t - xe_window E" "subs_of tenant s' = dropWhile (\<lambda>u. u < c) (subs_of tenant s) @ [t]"
    using 5(1) by (rule accepted_window)
  then show ?case using 5(3) by (simp add: filter_dropWhile_window)
qed simp

text \<open>
  Submissions are limited per tenant: in any run of the service at non-decreasing
  times, from any state, the number of submissions of a tenant that the JSON endpoint accepts
  within one window never exceeds the configured limit. (The HTML endpoint is not limited at
  all: its submissions are among the other events.)
\<close>

theorem submissions_limited:
  assumes "limited_run (accepted E tenant) (other_exec E tenant) s0 ts t s"
  shows "in_window x (xe_window E) ts \<le> rate_limit_of E"
  using assms by (rule submission_limiter.never_exceeded)

section \<open>Polling\<close>


section \<open>Witnesses\<close>

definition one_row_duck :: "unit duck" where
  "one_row_duck = \<lparr>dk_connect = (), dk_exec = (\<lambda>c sql. (Inr (Some ([''a''], [[''1'']])), c)),
     dk_isolated = (\<lambda>sql. Inl [])\<rparr>"

definition sample_exec_env :: "unit exec_env" where
  "sample_exec_env =
     \<lparr>xe_duck = one_row_duck,
      xe_cfg = \<lparr>cf_idle_timeout = 300000000, cf_datasets = None, cf_memory_limit = ''2GB'',
                cf_threads = 4, cf_isolation = False\<rparr>,
      xe_encodes = (\<lambda>_. True), xe_rate_limit = None, xe_window = 60000000\<rparr>"

definition one_session :: "unit manager" where
  "one_session =
     \<lparr>sm_sessions = [\<lparr>s_id = ''s1'', s_status = ACTIVE, s_created_at = sample_time,
        s_last_active = sample_time, s_namespace = ''default'', s_conn = Some (),
        s_workgroup_id = ''default'', s_suspended_at = None\<rparr>], sm_store = None\<rparr>"

definition sample_submit :: "unit exec_event" where
  "sample_submit = Submit 1 1 sample_time ''e1'' ''s1'' ''a'' (no_claims\<lparr>c_tenant_id := Some ''t''\<rparr>)"

definition sample_pending :: "unit exec_sys" where
  "sample_pending = apply_exec sample_exec_env sample_submit (initial_exec one_session)"

lemma sample_pending_reachable: "exec_reachable sample_exec_env sample_pending"
  unfolding sample_pending_def
  by (rule exec_reachable.next_state [OF exec_reachable.start exec_step.step])

lemma sample_pending_rows:
  "xs_rows sample_pending = [pending_row ''e1'' ''t'' ''s1'' ''a'' (isoformat sample_time)]"
  by code_simp

lemma sample_pending_life: "life_of (xs_rows sample_pending) ''e1'' = Some (''t'', ''a'', Pending)"
  by (simp add: sample_pending_rows life_of_def fetch_row_def)

theorem executions_refine_lifecycle_witness:
  "\<exists>s'. exec_step sample_exec_env sample_pending s' \<and>
     life_of (xs_rows s') ''e1'' = Some (''t'', ''a'', Done (Table [''a''] [[''1'']] 1)) \<and>
     life_step (life_of (xs_rows sample_pending)) (life_of (xs_rows s'))"
proof -
  let ?s = "apply_exec sample_exec_env (Work 0 sample_time sample_time 1 2) sample_pending"
  have st: "exec_step sample_exec_env sample_pending ?s" by (rule exec_step.step)
  have "life_of (xs_rows ?s) ''e1'' = Some (''t'', ''a'', Done (Table [''a''] [[''1'']] 1))" by code_simp
  with st executions_refine_lifecycle [OF sample_pending_reachable st] show ?thesis by blast
qed

theorem pending_executions_finish_witness:
  "\<exists>n < length (xs_jobs sample_pending). jb_execution (xs_jobs sample_pending ! n) = ''e1''"
proof -
  have "xe_encodes sample_exec_env rs" for rs by (simp add: sample_exec_env_def)
  from pending_executions_finish [OF this sample_pending_reachable sample_pending_life]
  show ?thesis by blast
qed

theorem submissions_limited_witness:
  "\<exists>s. limited_run (accepted sample_exec_env ''t'') (other_exec sample_exec_env ''t'')
      (initial_exec one_session) [1] 1 s \<and>
    in_window 0 (xe_window sample_exec_env) [1] = 1 \<and>
    in_window 0 (xe_window sample_exec_env) [1] \<le> rate_limit_of sample_exec_env"
proof -
  let ?c = "no_claims\<lparr>c_tenant_id := Some ''t''\<rparr>"
  let ?p = "submit_execution sample_exec_env 1 1 sample_time ''e1'' ''s1'' ''a'' ?c (initial_exec one_session)"
  have ok: "is_ok (fst ?p)" by code_simp
  then obtain r where r: "fst ?p = Inr r" by (rule is_okE)
  obtain s' evs where "?p = (Inr r, s', evs)" using r by (metis prod_cases3 fst_conv)
  then have acc: "accepted sample_exec_env ''t'' 1 (initial_exec one_session) s'"
    unfolding accepted_def by (intro exI [of _ 1] exI [of _ sample_time] exI [of _ "''e1''"]
      exI [of _ "''s1''"] exI [of _ "''a''"] exI [of _ ?c]) (auto simp: tenant_of_def)
  have run: "limited_run (accepted sample_exec_env ''t'') (other_exec sample_exec_env ''t'')
      (initial_exec one_session) ([] @ [1]) 1 s'"
    by (rule limited_run.admitted) (rule limited_run.init [where t = 0], simp, rule acc)
  from submissions_limited [OF run, of 0] run show ?thesis
    by (intro exI [of _ s']) (simp add: in_window_def sample_exec_env_def)
qed


end
