(* ===== verification/Workgroups.thy ===== *)
theory Workgroups
  imports Http Clock
begin

text \<open>
  \<open>api/namespace_routes.py\<close>: namespaces, the workgroups in them, their session quotas and the
  count of their sessions. The three dictionaries of the server are ordered lists of their
  values; the handlers are those behind \<open>require_admin\<close>, whose claims they are given.
\<close>

section \<open>The registry\<close>

record namespace =
  ns_id :: string
  ns_name :: string
  ns_description :: string
  ns_created_at :: string
  ns_updated_at :: string

record quota =
  qt_max_sessions :: "int option"
  qt_max_query_duration_ms :: "int option"
  qt_max_result_mb :: "int option"

text \<open>The free-form configuration is kept as its JSON text.\<close>

record workgroup =
  wk_id :: string
  wk_name :: string
  wk_namespace_id :: string
  wk_description :: string
  wk_config :: string
  wk_quota :: "quota option"
  wk_active :: int
  wk_created_at :: string
  wk_updated_at :: string

record registry =
  rg_namespaces :: "namespace list"
  rg_workgroups :: "workgroup list"
  rg_sessions :: "(string \<times> string) list"

definition empty_registry :: registry where
  "empty_registry = \<lparr>rg_namespaces = [], rg_workgroups = [], rg_sessions = []\<rparr>"

definition find_namespace :: "string \<Rightarrow> registry \<Rightarrow> namespace option" where
  "find_namespace nid g = find (\<lambda>n. ns_id n = nid) (rg_namespaces g)"

definition find_workgroup :: "string \<Rightarrow> registry \<Rightarrow> workgroup option" where
  "find_workgroup wid g = find (\<lambda>w. wk_id w = wid) (rg_workgroups g)"

definition set_workgroup :: "workgroup \<Rightarrow> registry \<Rightarrow> registry" where
  "set_workgroup w g = g\<lparr>rg_workgroups := upsert_by wk_id w (rg_workgroups g)\<rparr>"

definition set_namespace :: "namespace \<Rightarrow> registry \<Rightarrow> registry" where
  "set_namespace n g = g\<lparr>rg_namespaces := upsert_by ns_id n (rg_namespaces g)\<rparr>"

section \<open>Request models\<close>

record namespace_create =
  nc_name :: string
  nc_description :: "string option"

record namespace_update =
  nu_name :: "string option"
  nu_description :: "string option"

record workgroup_create =
  wc_name :: string
  wc_namespace_id :: string
  wc_description :: "string option"
  wc_config :: "string option"
  wc_quota :: "quota option"

record workgroup_update =
  wu_name :: "string option"
  wu_description :: "string option"
  wu_config :: "string option"
  wu_quota :: "quota option"

definition quota_ok :: "quota option \<Rightarrow> bool" where
  "quota_ok q =
     (case q of None \<Rightarrow> True
      | Some x \<Rightarrow> (case qt_max_sessions x of None \<Rightarrow> True | Some n \<Rightarrow> \<not> n \<le> 0))"

definition namespace_create_ok :: "namespace_create \<Rightarrow> bool" where
  "namespace_create_ok b = (\<not> blank (nc_name b))"

definition workgroup_create_ok :: "workgroup_create \<Rightarrow> bool" where
  "workgroup_create_ok b = (\<not> blank (wc_name b) \<and> quota_ok (wc_quota b))"

definition workgroup_update_ok :: "workgroup_update \<Rightarrow> bool" where
  "workgroup_update_ok b = quota_ok (wu_quota b)"

definition invalid_body :: http_exc where
  "invalid_body = HTTPException 422 ''Unprocessable Entity''"

section \<open>Quota and usage\<close>

text \<open>\<open>check_and_reserve_session_slot\<close>: the left value is the text of the \<open>ValueError\<close>.\<close>

definition check_and_reserve_session_slot :: "workgroup \<Rightarrow> string + string" where
  "check_and_reserve_session_slot w =
     (case wk_quota w of
        None \<Rightarrow> Inr (wk_id w)
      | Some q \<Rightarrow>
          (case qt_max_sessions q of
             None \<Rightarrow> Inr (wk_id w)
           | Some n \<Rightarrow>
               if n \<le> wk_active w
               then Inl (''Session quota exceeded: workgroup has reached the limit of '' @ int_str n
                      @ '' active sessions ('' @ int_str (wk_active w) @ '' currently active).'')
               else Inr (wk_id w)))"

definition tracked :: "string \<Rightarrow> registry \<Rightarrow> nat" where
  "tracked wid g = count_where (\<lambda>(sid, w). w = wid) (rg_sessions g)"

text \<open>\<open>None\<close> is the \<open>KeyError\<close>.\<close>

definition reconcile_workgroup_usage :: "string \<Rightarrow> registry \<Rightarrow> (int \<times> registry) option" where
  "reconcile_workgroup_usage wid g =
     (case find_workgroup wid g of
        None \<Rightarrow> None
      | Some w \<Rightarrow>
          Some (int (tracked wid g), set_workgroup (w\<lparr>wk_active := int (tracked wid g)\<rparr>) g))"

section \<open>Namespace endpoints\<close>

definition ns_not_found :: "string \<Rightarrow> http_exc" where
  "ns_not_found nid = HTTPException 404 (''Namespace not found: '' @ nid)"

definition wg_not_found :: "string \<Rightarrow> http_exc" where
  "wg_not_found wid = HTTPException 404 (''Workgroup not found: '' @ wid)"

definition create_namespace ::
    "instant \<Rightarrow> string \<Rightarrow> namespace_create \<Rightarrow> registry \<Rightarrow> namespace http \<times> registry" where
  "create_namespace t fresh b g =
     (if \<not> namespace_create_ok b then (Inl invalid_body, g)
      else if \<exists>n \<in> set (rg_namespaces g). ns_name n = nc_name b
      then (Inl (HTTPException 409 (''Namespace '' @ [CHR 0x27] @ nc_name b @ [CHR 0x27] @ '' already exists'')), g)
      else
        (let n = \<lparr>ns_id = fresh, ns_name = nc_name b, ns_description = get_or (nc_description b) [],
                  ns_created_at = isoformat t, ns_updated_at = isoformat t\<rparr>
         in (Inr n, set_namespace n g)))"

definition list_namespaces :: "registry \<Rightarrow> namespace list" where
  "list_namespaces g = rg_namespaces g"

definition get_namespace :: "string \<Rightarrow> registry \<Rightarrow> namespace http" where
  "get_namespace nid g =
     (case find_namespace nid g of None \<Rightarrow> Inl (ns_not_found nid) | Some n \<Rightarrow> Inr n)"

definition update_namespace ::
    "instant \<Rightarrow> string \<Rightarrow> namespace_update \<Rightarrow> registry \<Rightarrow> namespace http \<times> registry" where
  "update_namespace t nid b g =
     (case find_namespace nid g of
        None \<Rightarrow> (Inl (ns_not_found nid), g)
      | Some n \<Rightarrow>
          (let n' = n\<lparr>ns_name := get_or (nu_name b) (ns_name n),
                      ns_description := get_or (nu_description b) (ns_description n),
                      ns_updated_at := isoformat t\<rparr>
           in (Inr n', set_namespace n' g)))"

definition delete_namespace :: "string \<Rightarrow> registry \<Rightarrow> string http \<times> registry" where
  "delete_namespace nid g =
     (case find_namespace nid g of
        None \<Rightarrow> (Inl (ns_not_found nid), g)
      | Some n \<Rightarrow>
          (Inr ''deleted'',
           g\<lparr>rg_namespaces := delete_where (\<lambda>n. ns_id n = nid) (rg_namespaces g),
             rg_workgroups := delete_where (\<lambda>w. wk_namespace_id w = nid) (rg_workgroups g)\<rparr>))"

section \<open>Workgroup endpoints\<close>

definition create_workgroup ::
    "instant \<Rightarrow> string \<Rightarrow> workgroup_create \<Rightarrow> claims \<Rightarrow> registry \<Rightarrow>
      workgroup http \<times> registry \<times> audit_event list" where
  "create_workgroup t fresh b admin g =
     (if \<not> workgroup_create_ok b then (Inl invalid_body, g, [])
      else if find_namespace (wc_namespace_id b) g = None
      then (Inl (ns_not_found (wc_namespace_id b)), g, [])
      else
        (let w = \<lparr>wk_id = fresh, wk_name = wc_name b, wk_namespace_id = wc_namespace_id b,
                  wk_description = get_or (wc_description b) [], wk_config = get_or (wc_config b) ''{}'',
                  wk_quota = wc_quota b, wk_active = 0, wk_created_at = isoformat t,
                  wk_updated_at = isoformat t\<rparr>
         in (Inr w, set_workgroup w g,
             [\<lparr>ae_type = ''workgroup_created'', ae_tenant_id = Some (get_or (c_tenant_id admin) ''default''),
               ae_ip = None, ae_user_agent = None,
               ae_detail = Some (''created workgroup '' @ wc_name b @ '' in namespace '' @ wc_namespace_id b)\<rparr>])))"

definition list_workgroups :: "string option \<Rightarrow> registry \<Rightarrow> workgroup list" where
  "list_workgroups nid g =
     (case nid of None \<Rightarrow> rg_workgroups g
      | Some n \<Rightarrow> filter (\<lambda>w. wk_namespace_id w = n) (rg_workgroups g))"

text \<open>\<open>round(x, 4)\<close>: ties go to the even digit.\<close>

definition round4 :: "rat \<Rightarrow> rat" where
  "round4 x =
     (let y = 10000 * x; f = \<lfloor>y\<rfloor>; d = y - of_int f
      in of_int (if d < 1/2 \<or> (d = 1/2 \<and> even f) then f else f + 1) / 10000)"

record usage =
  us_workgroup_id :: string
  us_quota :: "quota option"
  us_active :: int
  us_available :: "int option"
  us_utilization :: rat

definition get_workgroup_usage :: "string \<Rightarrow> registry \<Rightarrow> usage http" where
  "get_workgroup_usage wid g =
     (case find_workgroup wid g of
        None \<Rightarrow> Inl (wg_not_found wid)
      | Some w \<Rightarrow>
          (let max_s = (case wk_quota w of None \<Rightarrow> None | Some q \<Rightarrow> qt_max_sessions q)
           in Inr \<lparr>us_workgroup_id = wid, us_quota = wk_quota w, us_active = wk_active w,
                   us_available = map_option (\<lambda>n. n - wk_active w) max_s,
                   us_utilization = (case max_s of None \<Rightarrow> 0
                     | Some n \<Rightarrow> if n = 0 then 0
                                 else round4 (of_int (wk_active w) / of_int n * 100))\<rparr>))"

definition get_workgroup :: "string \<Rightarrow> registry \<Rightarrow> workgroup http" where
  "get_workgroup wid g =
     (case find_workgroup wid g of None \<Rightarrow> Inl (wg_not_found wid) | Some w \<Rightarrow> Inr w)"

definition update_workgroup ::
    "instant \<Rightarrow> string \<Rightarrow> workgroup_update \<Rightarrow> registry \<Rightarrow> workgroup http \<times> registry" where
  "update_workgroup t wid b g =
     (if \<not> workgroup_update_ok b then (Inl invalid_body, g)
      else case find_workgroup wid g of
        None \<Rightarrow> (Inl (wg_not_found wid), g)
      | Some w \<Rightarrow>
          (let w' = w\<lparr>wk_name := get_or (wu_name b) (wk_name w),
                      wk_description := get_or (wu_description b) (wk_description w),
                      wk_config := get_or (wu_config b) (wk_config w),
                      wk_quota := (case wu_quota b of None \<Rightarrow> wk_quota w | Some q \<Rightarrow> Some q),
                      wk_updated_at := isoformat t\<rparr>
           in (Inr w', set_workgroup w' g)))"

definition delete_workgroup :: "string \<Rightarrow> registry \<Rightarrow> string http \<times> registry" where
  "delete_workgroup wid g =
     (case find_workgroup wid g of
        None \<Rightarrow> (Inl (wg_not_found wid), g)
      | Some w \<Rightarrow>
          (Inr ''deleted'', g\<lparr>rg_workgroups := delete_where (\<lambda>w. wk_id w = wid) (rg_workgroups g)\<rparr>))"

definition reconcile_workgroup :: "string \<Rightarrow> registry \<Rightarrow> int http \<times> registry" where
  "reconcile_workgroup wid g =
     (case reconcile_workgroup_usage wid g of
        None \<Rightarrow> (Inl (wg_not_found wid), g)
      | Some (n, g') \<Rightarrow> (Inr n, g'))"

section \<open>The invariant of the registry\<close>

text \<open>
  Identifiers are unique, every workgroup belongs to an existing namespace, a quota is
  positive, and the sessions tracked for a workgroup are counted in it.
\<close>

definition registry_inv :: "registry \<Rightarrow> bool" where
  "registry_inv g =
     (distinct (map ns_id (rg_namespaces g)) \<and> distinct (map wk_id (rg_workgroups g))
      \<and> distinct (map fst (rg_sessions g))
      \<and> (\<forall>w \<in> set (rg_workgroups g). find_namespace (wk_namespace_id w) g \<noteq> None
           \<and> quota_ok (wk_quota w) \<and> int (tracked (wk_id w) g) \<le> wk_active w))"

text \<open>A count that is exact, not only an upper bound.\<close>

definition counts_exact :: "registry \<Rightarrow> bool" where
  "counts_exact g = (\<forall>w \<in> set (rg_workgroups g). wk_active w = int (tracked (wk_id w) g))"

lemma distinct_delete_where: "distinct (map key rs) \<Longrightarrow> distinct (map key (delete_where P rs))"
  unfolding delete_where_def by (rule distinct_map_filter_key)

lemma find_workgroupD: "find_workgroup wid g = Some w \<Longrightarrow> w \<in> set (rg_workgroups g) \<and> wk_id w = wid"
  unfolding find_workgroup_def by (rule find_SomeD)

lemma find_namespaceD: "find_namespace nid g = Some n \<Longrightarrow> n \<in> set (rg_namespaces g) \<and> ns_id n = nid"
  unfolding find_namespace_def by (rule find_SomeD)

lemma set_workgroup_sel [simp]:
  "rg_namespaces (set_workgroup w g) = rg_namespaces g" "rg_sessions (set_workgroup w g) = rg_sessions g"
  "find_namespace nid (set_workgroup w g) = find_namespace nid g"
  "tracked wid (set_workgroup w g) = tracked wid g"
  by (simp_all add: set_workgroup_def find_namespace_def tracked_def)

lemma find_set_workgroup:
  "find_workgroup wid (set_workgroup w g) = (if wid = wk_id w then Some w else find_workgroup wid g)"
  by (simp add: find_workgroup_def set_workgroup_def find_upsert_by)

lemma find_set_namespace:
  "find_namespace nid (set_namespace n g) = (if nid = ns_id n then Some n else find_namespace nid g)"
  by (simp add: find_namespace_def set_namespace_def find_upsert_by)

lemma set_workgroup_members:
  "x \<in> set (rg_workgroups (set_workgroup w g)) \<Longrightarrow> x = w \<or> x \<in> set (rg_workgroups g)"
  using set_upsert_by [of x wk_id w "rg_workgroups g"] by (auto simp: set_workgroup_def)

lemma set_workgroup_inv:
  assumes "registry_inv g" "find_namespace (wk_namespace_id w) g \<noteq> None" "quota_ok (wk_quota w)"
    "int (tracked (wk_id w) g) \<le> wk_active w"
  shows "registry_inv (set_workgroup w g)"
proof -
  have "x = w \<or> x \<in> set (rg_workgroups g)" if "x \<in> set (rg_workgroups (set_workgroup w g))" for x
    using that by (rule set_workgroup_members)
  moreover have "distinct (map wk_id (rg_workgroups (set_workgroup w g)))"
    using assms(1) distinct_upsert_by by (auto simp: set_workgroup_def registry_inv_def)
  ultimately show ?thesis using assms unfolding registry_inv_def by auto
qed

lemma set_workgroup_exact:
  "counts_exact g \<Longrightarrow> wk_active w = int (tracked (wk_id w) g) \<Longrightarrow> counts_exact (set_workgroup w g)"
proof -
  assume a: "counts_exact g" "wk_active w = int (tracked (wk_id w) g)"
  have "x = w \<or> x \<in> set (rg_workgroups g)" if "x \<in> set (rg_workgroups (set_workgroup w g))" for x
    using that by (rule set_workgroup_members)
  then show "counts_exact (set_workgroup w g)" using a unfolding counts_exact_def by auto
qed

lemma set_namespace_inv: "registry_inv g \<Longrightarrow> registry_inv (set_namespace n g)"
proof -
  assume inv: "registry_inv g"
  have "distinct (map ns_id (rg_namespaces (set_namespace n g)))"
    using inv distinct_upsert_by by (auto simp: set_namespace_def registry_inv_def)
  moreover have "rg_workgroups (set_namespace n g) = rg_workgroups g" "rg_sessions (set_namespace n g) = rg_sessions g"
    "tracked wid (set_namespace n g) = tracked wid g" for wid
    by (simp_all add: set_namespace_def tracked_def)
  ultimately show ?thesis using inv unfolding registry_inv_def by (simp add: find_set_namespace)
qed

end
