(* ===== verification/SessionSystem.thy ===== *)
theory SessionSystem
  imports Sessions
begin

text \<open>
  The session manager as a state machine: every operation, the watchdog and the reaper keep
  the connections in step with the states, the store in step with the memory, and every
  connection hardened. What a restart recovers, and what the periodic tasks do.
\<close>

section \<open>The invariant\<close>

text \<open>
  What is relied on of DuckDB: once external access is off and the configuration is locked,
  no statement turns it on again. \<open>off\<close> and \<open>safe\<close> are the two states of a connection.
\<close>

definition hardens :: "'c duck \<Rightarrow> ('c \<Rightarrow> bool) \<Rightarrow> ('c \<Rightarrow> bool) \<Rightarrow> bool" where
  "hardens D off safe =
     ((\<forall>c r c'. dk_exec D c access_off = (Inr r, c') \<longrightarrow> off c')
      \<and> (\<forall>c r c'. off c \<longrightarrow> dk_exec D c config_lock = (Inr r, c') \<longrightarrow> safe c')
      \<and> (\<forall>c sql. safe c \<longrightarrow> safe (snd (dk_exec D c sql))))"

definition sess_ok :: "('c \<Rightarrow> bool) \<Rightarrow> 'c session \<Rightarrow> bool" where
  "sess_ok safe s =
     ((s_status s = ACTIVE \<longleftrightarrow> s_conn s \<noteq> None) \<and> s_status s \<noteq> DESTROYED
      \<and> (\<forall>c. s_conn s = Some c \<longrightarrow> safe c))"

text \<open>The part of a session the store keeps.\<close>

definition sess_view :: "'c session \<Rightarrow> string \<times> string \<times> string" where
  "sess_view s = (s_namespace s, status_text (s_status s), isoformat (s_created_at s))"

definition store_mirrors :: "'c manager \<Rightarrow> bool" where
  "store_mirrors m =
     (case sm_store m of None \<Rightarrow> True
      | Some db \<Rightarrow> mirrors find_session sess_view (\<lambda>k. find_sess k m) db
          \<and> distinct (map sr_id (md_sessions db)))"

definition mgr_inv :: "('c \<Rightarrow> bool) \<Rightarrow> 'c manager \<Rightarrow> bool" where
  "mgr_inv safe m =
     (distinct (map s_id (sm_sessions m)) \<and> (\<forall>s \<in> set (sm_sessions m). sess_ok safe s)
      \<and> store_mirrors m)"

lemma find_sess_SomeD: "find_sess sid m = Some s \<Longrightarrow> s \<in> set (sm_sessions m) \<and> s_id s = sid"
  unfolding find_sess_def by (drule find_SomeD) blast

lemma find_sess_set: "find_sess k (set_sess s m) = (if k = s_id s then Some s else find_sess k m)"
  by (simp add: find_sess_def set_sess_def put_sess_def find_upsert_by)

lemma find_sess_save [simp]: "find_sess k (save_sess s m) = find_sess k m"
  by (simp add: find_sess_def save_sess_def)

lemma set_sess_members: "x \<in> set (sm_sessions (set_sess s m)) \<Longrightarrow> x = s \<or> x \<in> set (sm_sessions m)"
  by (auto simp: set_sess_def put_sess_def dest: set_upsert_by)

lemma mgr_inv_set_save:
  assumes "mgr_inv safe m" "sess_ok safe s"
  shows "mgr_inv safe (save_sess s (set_sess s m))"
proof -
  have "mirrors find_session sess_view (\<lambda>k. find_sess k (save_sess s (set_sess s m)))
      (save_session (s_id s) (s_namespace s) (status_text (s_status s)) (s_created_at s)
         (s_last_active s) db)" if "sm_store m = Some db" for db
    unfolding save_session_put
  proof (rule sessions_table.mirrors_save)
    show "mirrors find_session sess_view (\<lambda>k. find_sess k m) db"
      using assms(1) that by (simp add: mgr_inv_def store_mirrors_def)
  qed (simp_all add: find_sess_set sess_view_def session_view_def)
  then have "store_mirrors (save_sess s (set_sess s m))"
    using assms(1)
    by (auto simp: store_mirrors_def save_sess_def set_sess_def mgr_inv_def save_session_def
        upsert_session_def distinct_upsert_by split: option.splits)
  moreover have "distinct (map s_id (sm_sessions (set_sess s m)))"
    using assms(1) by (simp add: mgr_inv_def set_sess_def put_sess_def distinct_upsert_by)
  ultimately show ?thesis
    using assms by (auto simp: mgr_inv_def save_sess_def dest: set_sess_members)
qed

lemma mgr_inv_set:
  assumes "mgr_inv safe m" "sess_ok safe s'" "find_sess (s_id s') m = Some s"
    "sess_view s' = sess_view s"
  shows "mgr_inv safe (set_sess s' m)"
proof -
  have "mirrors find_session sess_view (\<lambda>k. find_sess k (set_sess s' m)) db"
    if "sm_store m = Some db" for db
  proof (rule sessions_table.mirrors_keep)
    show "mirrors find_session sess_view (\<lambda>k. find_sess k m) db"
      using assms(1) that by (simp add: mgr_inv_def store_mirrors_def)
  qed (use assms(3,4) in \<open>auto simp: find_sess_set\<close>)
  then have "store_mirrors (set_sess s' m)"
    using assms(1) by (auto simp: store_mirrors_def set_sess_def mgr_inv_def split: option.splits)
  moreover have "distinct (map s_id (sm_sessions (set_sess s' m)))"
    using assms(1) by (simp add: mgr_inv_def set_sess_def put_sess_def distinct_upsert_by)
  ultimately show ?thesis
    using assms by (auto simp: mgr_inv_def dest: set_sess_members)
qed

lemma find_sess_destroy:
  "find_sess sid m = Some s \<Longrightarrow>
    find_sess k (snd (destroy_session sid m)) = (if k = sid then None else find_sess k m)"
  by (simp add: destroy_session_def find_sess_def find_delete_key)

lemma destroy_session_inv:
  assumes "mgr_inv safe m"
  shows "mgr_inv safe (snd (destroy_session sid m))"
proof (cases "find_sess sid m")
  case (Some s)
  have "mirrors find_session sess_view (\<lambda>k. find_sess k (snd (destroy_session sid m))) (delete_session sid db)"
    if "sm_store m = Some db" for db
  proof (rule sessions_table.mirrors_remove)
    show "mirrors find_session sess_view (\<lambda>k. find_sess k m) db"
      using assms that by (simp add: mgr_inv_def store_mirrors_def)
  qed (rule find_sess_destroy [OF Some])
  then show ?thesis using assms Some
    by (auto simp: mgr_inv_def store_mirrors_def destroy_session_def delete_where_def
        delete_session_def distinct_map_filter_key split: option.splits)
qed (use assms in \<open>simp add: destroy_session_def\<close>)

section \<open>Hardened connections\<close>

lemma hardened_safe:
  assumes "hardens D off safe" "create_hardened_connection D cfg = Inr c"
  shows "safe c"
proof -
  obtain c0 where "run_statements D c0 [access_off, config_lock] = Inr c"
    using assms(2) by (auto simp: create_hardened_connection_def split: sum.splits)
  then obtain r1 c1 r2 where "dk_exec D c0 access_off = (Inr r1, c1)"
    "dk_exec D c1 config_lock = (Inr r2, c)"
    by (auto split: prod.splits sum.splits)
  then show ?thesis using assms(1) unfolding hardens_def by blast
qed

section \<open>Every operation keeps the invariant\<close>

lemma suspend_session_inv:
  "mgr_inv safe m \<Longrightarrow> mgr_inv safe (snd (suspend_session t sid m))"
  by (auto simp: suspend_session_def Let_def sess_ok_def split: option.splits
      intro!: mgr_inv_set_save)

lemma resume_session_inv:
  assumes "hardens D off safe" "mgr_inv safe m"
  shows "mgr_inv safe (snd (resume_session D cfg t sid m))"
  using assms hardened_safe [OF assms(1), of cfg]
  by (auto simp: resume_session_def Let_def sess_ok_def split: option.splits sum.splits
      intro!: mgr_inv_set_save)

lemma create_session_inv:
  assumes "hardens D off safe" "mgr_inv safe m"
  shows "mgr_inv safe (snd (create_session D cfg t fresh ns wg k m))"
proof -
  have "mgr_inv safe m'" if "resume_session D cfg t sid m = (r, m')" for sid r m'
    using resume_session_inv [OF assms, of cfg t sid] that by simp
  then show ?thesis
    using assms(2) hardened_safe [OF assms(1), of cfg]
    by (auto simp: create_session_def Let_def sess_ok_def split: option.splits sum.splits prod.splits
        intro!: mgr_inv_set_save)
qed

lemma run_in_session_inv:
  assumes "hardens D off safe" "mgr_inv safe m"
  shows "mgr_inv safe (snd (run_in_session D cfg t ms sid sql m))"
proof (cases "cf_isolation cfg \<or> find_sess sid m = None")
  case True
  then show ?thesis using assms(2) by (auto simp: run_in_session_def split: sum.splits)
next
  case False
  then obtain s where s: "find_sess sid m = Some s" by blast
  have ok: "sess_ok safe s" and id: "s_id s = sid"
    using assms(2) find_sess_SomeD [OF s] by (auto simp: mgr_inv_def)
  show ?thesis
  proof (cases "s_conn s")
    case None
    then show ?thesis using assms(2) s False by (simp add: run_in_session_def)
  next
    case (Some c)
    obtain r c' where e: "dk_exec D c sql = (r, c')" by (cases "dk_exec D c sql")
    have "safe c'" using assms(1) ok Some e unfolding hardens_def sess_ok_def by (metis snd_conv)
    then have "sess_ok safe (s\<lparr>s_conn := Some c'\<rparr>)" "sess_ok safe (s\<lparr>s_conn := Some c', s_last_active := t\<rparr>)"
      using ok Some by (auto simp: sess_ok_def)
    then have "mgr_inv safe (set_sess (s\<lparr>s_conn := Some c'\<rparr>) m)"
      "mgr_inv safe (set_sess (s\<lparr>s_conn := Some c', s_last_active := t\<rparr>) m)"
      using s id by (auto intro!: mgr_inv_set [OF assms(2)] simp: sess_view_def)
    then show ?thesis using s Some e False by (cases r) (auto simp: run_in_session_def)
  qed
qed

lemma execute_query_inv:
  assumes "hardens D off safe" "mgr_inv safe m"
  shows "mgr_inv safe (snd (execute_query D cfg t t2 ms sid sql m))"
proof -
  have "mgr_inv safe m'" if "resume_session D cfg t sid m = (r, m')" for r m'
    using resume_session_inv [OF assms, of cfg t sid] that by simp
  then show ?thesis
    using assms(2) run_in_session_inv [OF assms(1)]
    by (auto simp: execute_query_def split: option.splits sum.splits prod.splits)
qed

lemma suspend_all_inv: "mgr_inv safe m \<Longrightarrow> mgr_inv safe (snd (suspend_all clk sids m))"
proof (induction clk sids m rule: suspend_all.induct)
  case (2 clk sid sids m)
  then show ?case using suspend_session_inv [of safe m "clk sid" sid]
    by (auto split: prod.splits sum.splits)
qed simp

lemma destroy_all_inv: "mgr_inv safe m \<Longrightarrow> mgr_inv safe (snd (destroy_all sids m))"
proof (induction sids m rule: destroy_all.induct)
  case (2 sid sids m)
  then show ?case using destroy_session_inv [of safe m sid]
    by (auto split: prod.splits sum.splits)
qed simp

section \<open>Reachable states\<close>

datatype session_event =
    Create instant string string string "int option"
  | Destroy string
  | Suspend instant string
  | Resume instant string
  | Execute instant instant rat string string
  | Watchdog instant "string \<Rightarrow> instant"
  | Reaper int instant

fun apply_session_event :: "'c duck \<Rightarrow> session_cfg \<Rightarrow> session_event \<Rightarrow> 'c manager \<Rightarrow> 'c manager" where
  "apply_session_event D cfg (Create t fresh ns wg k) m = snd (create_session D cfg t fresh ns wg k m)"
| "apply_session_event D cfg (Destroy sid) m = snd (destroy_session sid m)"
| "apply_session_event D cfg (Suspend t sid) m = snd (suspend_session t sid m)"
| "apply_session_event D cfg (Resume t sid) m = snd (resume_session D cfg t sid m)"
| "apply_session_event D cfg (Execute t t2 ms sid sql) m = snd (execute_query D cfg t t2 ms sid sql m)"
| "apply_session_event D cfg (Watchdog t clk) m = snd (run_watchdog_once cfg t clk m)"
| "apply_session_event D cfg (Reaper k t) m = snd (run_reaper_once k t m)"

text \<open>The manager starts without sessions, and with an empty store if it has one.\<close>

inductive session_reachable :: "'c duck \<Rightarrow> session_cfg \<Rightarrow> 'c manager \<Rightarrow> bool" for D cfg where
  no_store: "session_reachable D cfg \<lparr>sm_sessions = [], sm_store = None\<rparr>"
| with_store: "session_reachable D cfg \<lparr>sm_sessions = [], sm_store = Some empty_meta\<rparr>"
| event: "session_reachable D cfg m \<Longrightarrow> session_reachable D cfg (apply_session_event D cfg ev m)"

lemma apply_session_event_inv:
  "hardens D off safe \<Longrightarrow> mgr_inv safe m \<Longrightarrow> mgr_inv safe (apply_session_event D cfg ev m)"
  by (cases ev) (simp_all add: create_session_inv destroy_session_inv suspend_session_inv
      resume_session_inv execute_query_inv run_watchdog_once_def suspend_all_inv
      run_reaper_once_def destroy_all_inv)

lemma session_reachable_inv:
  assumes "session_reachable D cfg m" "hardens D off safe"
  shows "mgr_inv safe m"
  using assms(1)
proof (induction rule: session_reachable.induct)
  case (event m ev)
  then show ?case using apply_session_event_inv [OF assms(2)] by blast
qed (simp_all add: mgr_inv_def store_mirrors_def mirrors_def find_sess_def find_session_def
    empty_meta_def)


section \<open>The periodic tasks\<close>

definition suspended :: "instant \<Rightarrow> 'c session \<Rightarrow> 'c session" where
  "suspended t s = s\<lparr>s_conn := None, s_status := SUSPENDED, s_suspended_at := Some t\<rparr>"

lemma suspend_active:
  assumes "find_sess sid m = Some s" "s_status s \<noteq> SUSPENDED"
  shows "fst (suspend_session t sid m) = Inr ()"
    "find_sess k (snd (suspend_session t sid m)) =
      (if k = sid then Some (suspended t s) else find_sess k m)"
  using assms find_sess_SomeD [OF assms(1)]
  by (simp_all add: suspend_session_def Let_def find_sess_set suspended_def)

lemma suspend_all_active:
  assumes "distinct sids" "\<And>k. k \<in> set sids \<Longrightarrow> \<exists>s. find_sess k m = Some s \<and> s_status s \<noteq> SUSPENDED"
  shows "fst (suspend_all clk sids m) = sids \<and>
    (\<forall>k. find_sess k (snd (suspend_all clk sids m)) =
      map_option (\<lambda>s. if k \<in> set sids then suspended (clk k) s else s) (find_sess k m))"
  using assms
proof (induction sids arbitrary: m)
  case Nil
  then show ?case by (simp add: option.map_ident)
next
  case (Cons sid sids)
  obtain s where s: "find_sess sid m = Some s" "s_status s \<noteq> SUSPENDED"
    using Cons.prems(2) [of sid] by auto
  obtain m1 where m1: "suspend_session (clk sid) sid m = (Inr (), m1)"
    using suspend_active(1) [OF s, of "clk sid"] by (metis prod.collapse)
  have f1: "find_sess k m1 = (if k = sid then Some (suspended (clk sid) s) else find_sess k m)" for k
    using suspend_active(2) [OF s, of k "clk sid"] m1 by simp
  have "fst (suspend_all clk sids m1) = sids \<and>
    (\<forall>k. find_sess k (snd (suspend_all clk sids m1)) =
      map_option (\<lambda>s. if k \<in> set sids then suspended (clk k) s else s) (find_sess k m1))"
    by (rule Cons.IH) (use Cons.prems f1 in auto)
  then show ?case using Cons.prems(1) s m1 f1
    by (auto split: prod.splits)
qed

lemma filtered_ids:
  assumes "distinct (map s_id ss)"
  shows "distinct (map s_id (filter P ss))"
    "k \<in> s_id ` set (filter P ss) \<longleftrightarrow> (\<exists>s. find (\<lambda>x. s_id x = k) ss = Some s \<and> P s)"
proof -
  show "distinct (map s_id (filter P ss))" by (rule distinct_map_filter_key [OF assms])
  show "k \<in> s_id ` set (filter P ss) \<longleftrightarrow> (\<exists>s. find (\<lambda>x. s_id x = k) ss = Some s \<and> P s)"
  proof
    assume "k \<in> s_id ` set (filter P ss)"
    then obtain s where "s \<in> set ss" "P s" "s_id s = k" by auto
    then show "\<exists>s. find (\<lambda>x. s_id x = k) ss = Some s \<and> P s"
      using find_unique_key [OF assms] by blast
  next
    assume "\<exists>s. find (\<lambda>x. s_id x = k) ss = Some s \<and> P s"
    then obtain s where s: "find (\<lambda>x. s_id x = k) ss = Some s" "P s" by blast
    from find_SomeD [OF s(1)] s(2) show "k \<in> s_id ` set (filter P ss)" by auto
  qed
qed

text \<open>
  A round of the watchdog at \<open>t\<close> suspends exactly the active sessions that have
  been idle for longer than the timeout, closing their connections, and reports them; it
  touches no other session, so afterwards no active session exceeds the timeout.
\<close>

theorem watchdog_suspends_exactly_idle:
  assumes "mgr_inv safe m" and "run_watchdog_once cfg t clk m = (ids, m')"
  shows "(\<forall>k. find_sess k m' = map_option (\<lambda>s.
        if s_status s = ACTIVE \<and> cf_idle_timeout cfg < t - s_last_active s
        then suspended (clk k) s else s) (find_sess k m)) \<and>
    (\<forall>k. k \<in> set ids \<longleftrightarrow> (\<exists>s. find_sess k m = Some s \<and> s_status s = ACTIVE \<and>
       cf_idle_timeout cfg < t - s_last_active s)) \<and>
    (\<forall>k s. find_sess k m' = Some s \<and> s_status s = ACTIVE \<longrightarrow> t - s_last_active s \<le> cf_idle_timeout cfg)"
proof -
  let ?idle = "\<lambda>s. s_status s = ACTIVE \<and> cf_idle_timeout cfg < t - s_last_active s"
  let ?ids = "map s_id (filter ?idle (sm_sessions m))"
  have dist: "distinct (map s_id (sm_sessions m))" using assms(1) by (simp add: mgr_inv_def)
  have mem: "k \<in> set ?ids \<longleftrightarrow> (\<exists>s. find_sess k m = Some s \<and> ?idle s)" for k
    using filtered_ids(2) [OF dist] by (simp add: find_sess_def)
  have "fst (suspend_all clk ?ids m) = ?ids \<and>
    (\<forall>k. find_sess k (snd (suspend_all clk ?ids m)) =
      map_option (\<lambda>s. if k \<in> set ?ids then suspended (clk k) s else s) (find_sess k m))"
    by (rule suspend_all_active) (use filtered_ids(1) [OF dist] mem in auto)
  then have r: "ids = ?ids" "\<And>k. find_sess k m' =
      map_option (\<lambda>s. if k \<in> set ?ids then suspended (clk k) s else s) (find_sess k m)"
    using assms(2) by (simp_all add: run_watchdog_once_def)
  have upd: "find_sess k m' = map_option (\<lambda>s. if ?idle s then suspended (clk k) s else s) (find_sess k m)" for k
    unfolding r(2) using mem [of k] by (cases "find_sess k m") auto
  moreover have "t - s_last_active s \<le> cf_idle_timeout cfg"
    if act: "find_sess k m' = Some s" "s_status s = ACTIVE" for k s
  proof -
    obtain s0 where s0: "find_sess k m = Some s0" "s = (if ?idle s0 then suspended (clk k) s0 else s0)"
      using act(1) upd [of k] by (cases "find_sess k m") auto
    have "\<not> ?idle s0"
    proof
      assume "?idle s0"
      then have "s_status s = SUSPENDED" using s0(2) by (simp add: suspended_def)
      then show False using act(2) by simp
    qed
    then show ?thesis using s0(2) act(2) by auto
  qed
  ultimately show ?thesis using mem r(1) by blast
qed

lemma destroy_all_found:
  assumes "distinct sids" "\<And>k. k \<in> set sids \<Longrightarrow> find_sess k m \<noteq> None"
  shows "fst (destroy_all sids m) = sids \<and>
    (\<forall>k. find_sess k (snd (destroy_all sids m)) = (if k \<in> set sids then None else find_sess k m))"
  using assms
proof (induction sids arbitrary: m)
  case (Cons sid sids)
  obtain s where s: "find_sess sid m = Some s" using Cons.prems(2) [of sid] by auto
  obtain m1 where m1: "destroy_session sid m = (Inr (), m1)"
    using s by (auto simp: destroy_session_def)
  have f1: "find_sess k m1 = (if k = sid then None else find_sess k m)" for k
    using find_sess_destroy [OF s, of k] m1 by simp
  have "fst (destroy_all sids m1) = sids \<and>
    (\<forall>k. find_sess k (snd (destroy_all sids m1)) = (if k \<in> set sids then None else find_sess k m1))"
    by (rule Cons.IH) (use Cons.prems f1 in auto)
  then show ?case using m1 f1 by (auto split: prod.splits)
qed simp

text \<open>
  Property C13. A round of the reaper at \<open>t\<close> destroys exactly the suspended sessions whose
  suspension is recorded and older than the limit, and reports them. A session that was
  restored as suspended at a restart has no recorded suspension and is never destroyed.
\<close>

theorem reaper_destroys_exactly_stale:
  assumes "mgr_inv safe m" and "run_reaper_once max_age t m = (ids, m')"
  shows "(\<forall>k. find_sess k m' = (case find_sess k m of None \<Rightarrow> None | Some s \<Rightarrow>
        if s_status s = SUSPENDED \<and> (\<exists>u. s_suspended_at s = Some u \<and> max_age < t - u)
        then None else Some s)) \<and>
    (\<forall>k. k \<in> set ids \<longleftrightarrow> find_sess k m \<noteq> None \<and> find_sess k m' = None) \<and>
    (\<forall>k s. find_sess k m = Some s \<and> s_suspended_at s = None \<longrightarrow> find_sess k m' = Some s)"
proof -
  let ?stale = "\<lambda>s. s_status s = SUSPENDED \<and>
    (case s_suspended_at s of None \<Rightarrow> False | Some u \<Rightarrow> max_age < t - u)"
  let ?ids = "map s_id (filter ?stale (sm_sessions m))"
  have dist: "distinct (map s_id (sm_sessions m))" using assms(1) by (simp add: mgr_inv_def)
  have mem: "k \<in> set ?ids \<longleftrightarrow> (\<exists>s. find_sess k m = Some s \<and> ?stale s)" for k
    using filtered_ids(2) [OF dist] by (simp add: find_sess_def)
  have "fst (destroy_all ?ids m) = ?ids \<and>
    (\<forall>k. find_sess k (snd (destroy_all ?ids m)) = (if k \<in> set ?ids then None else find_sess k m))"
    by (rule destroy_all_found) (use filtered_ids(1) [OF dist] mem in auto)
  then have r: "ids = ?ids" "\<And>k. find_sess k m' = (if k \<in> set ?ids then None else find_sess k m)"
    using assms(2) by (simp_all add: run_reaper_once_def)
  have stale: "?stale s \<longleftrightarrow> s_status s = SUSPENDED \<and> (\<exists>u. s_suspended_at s = Some u \<and> max_age < t - u)" for s
    by (cases "s_suspended_at s") auto
  have upd: "find_sess k m' = (case find_sess k m of None \<Rightarrow> None | Some s \<Rightarrow>
        if s_status s = SUSPENDED \<and> (\<exists>u. s_suspended_at s = Some u \<and> max_age < t - u)
        then None else Some s)" for k
    unfolding r(2) using mem [of k] stale by (cases "find_sess k m") auto
  moreover have "k \<in> set ids \<longleftrightarrow> find_sess k m \<noteq> None \<and> find_sess k m' = None" for k
    using mem [of k] r by auto
  ultimately show ?thesis by simp
qed

section \<open>Queries\<close>

lemma resume_session_find:
  assumes "resume_session D cfg t sid m = (Inr u, m')"
  shows "\<exists>s c. find_sess sid m = Some s \<and> create_hardened_connection D cfg = Inr c \<and>
    (\<forall>k. find_sess k m' = (if k = sid then Some (s\<lparr>s_conn := Some c, s_status := ACTIVE,
       s_suspended_at := None, s_last_active := t\<rparr>) else find_sess k m))"
  using assms find_sess_SomeD [of sid m]
  by (auto simp: resume_session_def Let_def find_sess_set split: option.splits if_splits sum.splits)

lemma run_in_session_find:
  assumes "find_sess sid m = Some s" "s_status s = ACTIVE" "run_in_session D cfg t ms sid sql m = (r, m')"
  shows "(\<forall>k. k \<noteq> sid \<longrightarrow> find_sess k m' = find_sess k m) \<and>
    (\<exists>s'. find_sess sid m' = Some s' \<and> s_status s' = ACTIVE \<and> s_workgroup_id s' = s_workgroup_id s \<and>
       (is_ok r \<and> \<not> cf_isolation cfg \<longrightarrow> s_last_active s' = t))"
  using assms find_sess_SomeD [OF assms(1)]
  by (auto simp: run_in_session_def find_sess_set split: if_splits sum.splits option.splits prod.splits)

text \<open>
  Property C7. A statement reaches DuckDB only if its session exists and the sandbox lets it
  through: otherwise the manager does not change at all. A statement that is run leaves its
  session active, resuming it first if it was suspended, with the time of the last activity
  refreshed when it succeeded in the session's own connection; the other sessions are not
  touched.
\<close>

theorem query_execution_contract:
  assumes "mgr_inv safe m" and "execute_query D cfg t t2 ms sid sql m = (r, m')"
  shows "(find_sess sid m = None \<or> blank sql \<or> check_sql sql \<noteq> None \<longrightarrow> \<not> is_ok r \<and> m' = m) \<and>
    (is_ok r \<longrightarrow> (\<exists>s s'. find_sess sid m = Some s \<and> check_sql sql = None \<and>
       find_sess sid m' = Some s' \<and> s_status s' = ACTIVE \<and> s_workgroup_id s' = s_workgroup_id s \<and>
       (\<not> cf_isolation cfg \<longrightarrow> s_last_active s' = t2))) \<and>
    (\<forall>k. k \<noteq> sid \<longrightarrow> find_sess k m' = find_sess k m)"
proof (cases "find_sess sid m")
  case None
  then show ?thesis using assms(2) by (auto simp: execute_query_def)
next
  case (Some s)
  show ?thesis
  proof (cases "blank sql \<or> check_sql sql \<noteq> None")
    case True
    then have "\<not> is_ok r \<and> m' = m"
      using assms(2) Some by (auto simp: execute_query_def split: if_splits)
    then show ?thesis by auto
  next
    case False
    then have run: "(if s_status s = SUSPENDED then
        (case resume_session D cfg t sid m of (Inl e, m') \<Rightarrow> (Inl e, m')
         | (Inr _, m') \<Rightarrow> run_in_session D cfg t2 ms sid sql m')
       else run_in_session D cfg t2 ms sid sql m) = (r, m')"
      using assms(2) Some by (simp add: execute_query_def)
    show ?thesis
    proof (cases "s_status s = SUSPENDED")
      case False
      then have "s_status s = ACTIVE"
        using assms(1) find_sess_SomeD [OF Some]
        by (cases "s_status s") (auto simp: mgr_inv_def sess_ok_def)
      from run_in_session_find [OF Some this, of D cfg t2 ms sql r m'] run False
      show ?thesis using Some \<open>\<not> (blank sql \<or> _)\<close> by auto
    next
      case True
      show ?thesis
      proof (cases "fst (resume_session D cfg t sid m)")
        case (Inl e)
        then have "snd (resume_session D cfg t sid m) = m"
          by (auto simp: resume_session_def Let_def split: option.splits sum.splits if_splits)
        then have "r = Inl e \<and> m' = m" using Inl run True
          by (cases "resume_session D cfg t sid m") auto
        then show ?thesis by simp
      next
        case (Inr u)
        then obtain m1 where m1: "resume_session D cfg t sid m = (Inr u, m1)"
          by (metis prod.collapse)
        then have run1: "run_in_session D cfg t2 ms sid sql m1 = (r, m')" using run True by simp
        from resume_session_find [OF m1] Some obtain s1 where
          s1: "find_sess sid m1 = Some s1" "s_status s1 = ACTIVE" "s_workgroup_id s1 = s_workgroup_id s"
          and o: "\<forall>k. k \<noteq> sid \<longrightarrow> find_sess k m1 = find_sess k m" by auto
        from run_in_session_find [OF s1(1,2) run1] s1(3) o
        show ?thesis using Some \<open>\<not> (blank sql \<or> _)\<close> by auto
      qed
    qed
  qed
qed

section \<open>Restart\<close>

definition loaded :: "'c \<Rightarrow> session_row \<Rightarrow> 'c session" where
  "loaded c r =
     \<lparr>s_id = sr_id r, s_status = the (parse_status (sr_state r)),
      s_created_at = the (fromisoformat (sr_created_at r)),
      s_last_active = the (fromisoformat (sr_last_active r)), s_namespace = sr_namespace r,
      s_conn = (if parse_status (sr_state r) = Some ACTIVE then Some c else None),
      s_workgroup_id = ''default'', s_suspended_at = None\<rparr>"

definition row_loadable :: "session_row \<Rightarrow> bool" where
  "row_loadable r = (parse_status (sr_state r) \<noteq> None \<and> fromisoformat (sr_created_at r) \<noteq> None
     \<and> fromisoformat (sr_last_active r) \<noteq> None)"

lemma loaded_id [simp]: "s_id (loaded c r) = sr_id r"
  by (simp add: loaded_def)

lemma load_row_ok:
  assumes "create_hardened_connection D cfg = Inr c" "row_loadable r"
  shows "load_row D cfg r m = (Inr (), set_sess (loaded c r) m)"
  using assms by (auto simp: load_row_def row_loadable_def loaded_def Let_def split: option.splits)

lemma load_rows_ok:
  assumes "create_hardened_connection D cfg = Inr c" "\<forall>r \<in> set rs. row_loadable r"
    "distinct (map sr_id rs)"
  shows "fst (load_rows D cfg rs m) = Inr () \<and>
    (\<forall>k. find_sess k (snd (load_rows D cfg rs m)) =
      (case find (\<lambda>r. sr_id r = k) rs of Some r \<Rightarrow> Some (loaded c r) | None \<Rightarrow> find_sess k m))"
  using assms(2,3)
proof (induction rs arbitrary: m)
  case (Cons r rs)
  let ?m1 = "set_sess (loaded c r) m"
  have l: "load_row D cfg r m = (Inr (), ?m1)"
    using load_row_ok [OF assms(1)] Cons.prems(1) by simp
  have IH: "fst (load_rows D cfg rs ?m1) = Inr () \<and>
    (\<forall>k. find_sess k (snd (load_rows D cfg rs ?m1)) =
      (case find (\<lambda>r. sr_id r = k) rs of Some r \<Rightarrow> Some (loaded c r) | None \<Rightarrow> find_sess k ?m1))"
    by (rule Cons.IH) (use Cons.prems in auto)
  have "find (\<lambda>x. sr_id x = sr_id r) rs = None"
    using Cons.prems(2) find_fresh_key [of "sr_id r" sr_id rs] by simp
  then show ?case using IH l by (auto simp: find_sess_set split: option.splits)
qed simp

text \<open>
  Property C14. A restart brings every session back: if connections can be opened and the
  stored times are readable, a fresh manager on the same store ends up with exactly the
  sessions that were there, in the same state, namespace and with the same creation time,
  the active ones with a connection. Two things are lost, the workgroup, which becomes the
  default one, and the time of the suspension.
\<close>

theorem restart_restores_sessions:
  assumes "mgr_inv safe m" and "sm_store m = Some db"
    and "create_hardened_connection D cfg = Inr c"
    and "\<forall>s \<in> set (sm_sessions m). valid_instant (s_created_at s)"
    and "\<forall>r \<in> set (md_sessions db). fromisoformat (sr_last_active r) \<noteq> None"
  shows "\<exists>m'. load_from_store D cfg \<lparr>sm_sessions = [], sm_store = Some db\<rparr> = (Inr (), m') \<and>
    (\<forall>k. case find_sess k m of
       None \<Rightarrow> find_sess k m' = None
     | Some s \<Rightarrow> (\<exists>s'. find_sess k m' = Some s' \<and> s_status s' = s_status s \<and>
         s_namespace s' = s_namespace s \<and> s_created_at s' = s_created_at s \<and>
         (s_conn s' \<noteq> None \<longleftrightarrow> s_status s = ACTIVE) \<and>
         s_workgroup_id s' = ''default'' \<and> s_suspended_at s' = None))"
proof -
  let ?m0 = "\<lparr>sm_sessions = [], sm_store = Some db\<rparr>"
  have dist: "distinct (map sr_id (md_sessions db))"
    and mir: "find_session k db = map_option sess_view (find_sess k m)" for k
    using assms(1,2) by (auto simp: mgr_inv_def store_mirrors_def mirrors_def)
  have row: "\<exists>s. find_sess (sr_id r) m = Some s \<and> session_view r = sess_view s \<and> sess_ok safe s
      \<and> valid_instant (s_created_at s)" if "r \<in> set (md_sessions db)" for r
  proof -
    have "find (\<lambda>x. sr_id x = sr_id r) (md_sessions db) = Some r"
      by (rule find_unique_key [OF dist that])
    then have "Some (session_view r) = map_option sess_view (find_sess (sr_id r) m)"
      using mir [of "sr_id r"] by (simp add: find_session_def)
    then obtain s where "find_sess (sr_id r) m = Some s" "session_view r = sess_view s"
      by (cases "find_sess (sr_id r) m") auto
    then show ?thesis using find_sess_SomeD assms(1,4) by (fastforce simp: mgr_inv_def)
  qed
  have ok: "row_loadable r \<and> sr_state r \<noteq> ''DESTROYED''" if r: "r \<in> set (md_sessions db)" for r
  proof -
    from row [OF r] obtain s where s: "session_view r = sess_view s" "sess_ok safe s"
      "valid_instant (s_created_at s)" by blast
    then have "sr_state r = status_text (s_status s)" "sr_created_at r = isoformat (s_created_at s)"
      by (auto simp: session_view_def sess_view_def)
    then show ?thesis using s r assms(5)
      by (cases "s_status s") (auto simp: row_loadable_def parse_status_text read_isoformat
          sess_ok_def parse_status_def)
  qed
  then have "load_sessions db = md_sessions db"
    unfolding load_sessions_def by (intro filter_True) blast
  then have "load_from_store D cfg ?m0 = load_rows D cfg (md_sessions db) ?m0"
    by (simp add: load_from_store_def)
  then obtain m' where m': "load_from_store D cfg ?m0 = (Inr (), m')"
    and f: "\<And>k. find_sess k m' = (case find (\<lambda>r. sr_id r = k) (md_sessions db) of
        Some r \<Rightarrow> Some (loaded c r) | None \<Rightarrow> find_sess k ?m0)"
    using load_rows_ok [OF assms(3) _ dist, of ?m0] ok by (metis prod.collapse)
  have "case find_sess k m of
       None \<Rightarrow> find_sess k m' = None
     | Some s \<Rightarrow> (\<exists>s'. find_sess k m' = Some s' \<and> s_status s' = s_status s \<and>
         s_namespace s' = s_namespace s \<and> s_created_at s' = s_created_at s \<and>
         (s_conn s' \<noteq> None \<longleftrightarrow> s_status s = ACTIVE) \<and>
         s_workgroup_id s' = ''default'' \<and> s_suspended_at s' = None)" for k
  proof (cases "find (\<lambda>r. sr_id r = k) (md_sessions db)")
    case None
    then have "find_sess k m = None" using mir [of k] by (simp add: find_session_def)
    then show ?thesis using f [of k] None by (simp add: find_sess_def)
  next
    case (Some r)
    from find_SomeD [OF Some] have r: "r \<in> set (md_sessions db)" "sr_id r = k" by auto
    from row [OF r(1)] r(2) obtain s where s: "find_sess k m = Some s" "session_view r = sess_view s"
      "valid_instant (s_created_at s)" by blast
    then have "loaded c r = loaded c r \<and> s_status (loaded c r) = s_status s \<and>
        s_namespace (loaded c r) = s_namespace s \<and> s_created_at (loaded c r) = s_created_at s \<and>
        (s_conn (loaded c r) \<noteq> None \<longleftrightarrow> s_status s = ACTIVE)"
      by (simp add: session_view_def sess_view_def loaded_def parse_status_text read_isoformat)
    then show ?thesis using f [of k] Some s(1) by (simp add: loaded_def)
  qed
  then show ?thesis using m' by blast
qed

section \<open>The session quota\<close>

text \<open>
  A creation below the quota opens a session; at the quota it resumes a suspended
  session of the workgroup if there is one, and refuses otherwise. Resuming takes the
  workgroup one active session above its maximum.
\<close>

theorem create_session_quota:
  assumes "create_hardened_connection D cfg = Inr c" and "wg \<noteq> ''default''"
    and "mgr_inv safe m" and "find_sess fresh m = None"
    and "create_session D cfg t fresh ns wg (Some k) m = (r, m')"
  shows "(int (active_count_for_workgroup wg m) < k \<longrightarrow> r = Inr fresh \<and>
      active_count_for_workgroup wg m' = Suc (active_count_for_workgroup wg m)) \<and>
    (k \<le> int (active_count_for_workgroup wg m) \<and> find_suspended_in_workgroup wg m = None \<longrightarrow>
      \<not> is_ok r \<and> m' = m) \<and>
    (\<forall>sid. k \<le> int (active_count_for_workgroup wg m) \<and> find_suspended_in_workgroup wg m = Some sid \<longrightarrow>
      r = Inr sid \<and> k < int (active_count_for_workgroup wg m'))"
proof -
  let ?P = "\<lambda>s. s_workgroup_id s = wg \<and> s_status s = ACTIVE"
  have grow: "count_where ?P (put_sess s' ss) = Suc (count_where ?P ss)"
    if "distinct (map s_id ss)" "s \<in> set ss" "s_id s' = s_id s" "\<not> ?P s" "?P s'" for s s' ss
    using that
  proof (induction ss)
    case (Cons a ss)
    have upd: "put_sess s' xs = update_where (\<lambda>x. s_id x = s_id s') (\<lambda>_. s') xs" if "s \<in> set xs" for xs
      using that Cons.prems(3) by (auto simp: put_sess_def upsert_by_def)
    show ?case
    proof (cases "a = s")
      case True
      then have "update_where (\<lambda>x. s_id x = s_id s') (\<lambda>_. s') ss = ss"
        using Cons.prems by (intro update_where_id) (auto simp: image_iff)
      then show ?thesis using True Cons.prems upd [of "a # ss"]
        by (simp add: count_where_Cons)
    next
      case False
      then have m: "s \<in> set ss" using Cons.prems by simp
      then have "s_id a \<noteq> s_id s'" using Cons.prems by (auto simp: image_iff)
      then show ?thesis using Cons m upd [of "a # ss"] upd [of ss]
        by (simp add: count_where_Cons)
    qed
  qed simp
  have dist: "distinct (map s_id (sm_sessions m))" using assms(3) by (simp add: mgr_inv_def)
  show ?thesis
  proof (intro conjI impI allI)
    assume lt: "int (active_count_for_workgroup wg m) < k"
    have "fresh \<notin> s_id ` set (sm_sessions m)"
      using assms(4) unfolding find_sess_def find_None_iff_ball by auto
    then show "r = Inr fresh" "active_count_for_workgroup wg m' = Suc (active_count_for_workgroup wg m)"
      using assms(1,5) lt
      by (auto simp: create_session_def Let_def active_count_for_workgroup_def save_sess_def set_sess_def
          put_sess_def upsert_by_def count_where_append count_where_Cons)
  next
    assume a: "k \<le> int (active_count_for_workgroup wg m) \<and> find_suspended_in_workgroup wg m = None"
    then show "\<not> is_ok r" "m' = m" using assms(2,5) by (auto simp: create_session_def)
  next
    fix sid
    assume a: "k \<le> int (active_count_for_workgroup wg m) \<and> find_suspended_in_workgroup wg m = Some sid"
    then obtain s where s0: "find (\<lambda>s. s_workgroup_id s = wg \<and> s_status s = SUSPENDED) (sm_sessions m) = Some s"
      "s_id s = sid" by (auto simp: find_suspended_in_workgroup_def)
    from find_SomeD [OF s0(1)] have s: "s \<in> set (sm_sessions m)" "s_workgroup_id s = wg" "s_status s = SUSPENDED"
      by auto
    have "find_sess sid m = Some s"
      unfolding find_sess_def using find_unique_key [OF dist s(1)] s0(2) by simp
    then have res: "resume_session D cfg t sid m =
        (Inr (), save_sess (s\<lparr>s_conn := Some c, s_status := ACTIVE, s_suspended_at := None, s_last_active := t\<rparr>)
          (set_sess (s\<lparr>s_conn := Some c, s_status := ACTIVE, s_suspended_at := None, s_last_active := t\<rparr>) m))"
      using assms(1) s(3) by (simp add: resume_session_def Let_def)
    then have "r = Inr sid \<and> m' = snd (resume_session D cfg t sid m)"
      using assms(2,5) a by (simp add: create_session_def)
    moreover have "active_count_for_workgroup wg (snd (resume_session D cfg t sid m)) =
        Suc (active_count_for_workgroup wg m)"
      unfolding res active_count_for_workgroup_def
      using grow [OF dist s(1)] s(2,3) by (simp add: save_sess_def set_sess_def)
    ultimately show "r = Inr sid" "k < int (active_count_for_workgroup wg m')" using a by simp_all
  qed
qed

section \<open>Concrete instances\<close>

text \<open>A database whose connections remember the statements they ran.\<close>

definition sample_duck :: "string list duck" where
  "sample_duck =
     \<lparr>dk_connect = [],
      dk_exec = (\<lambda>c sql. if sql = ''boom'' then (Inl ''error'', c @ [sql])
                         else (Inr (Some ([''x''], [[''1'']])), c @ [sql])),
      dk_isolated = (\<lambda>sql. Inl ''off'')\<rparr>"

definition sample_off :: "string list \<Rightarrow> bool" where
  "sample_off c = (access_off \<in> set c)"

definition sample_safe :: "string list \<Rightarrow> bool" where
  "sample_safe c = (access_off \<in> set c \<and> config_lock \<in> set c)"

definition sample_cfg :: session_cfg where
  "sample_cfg =
     \<lparr>cf_idle_timeout = 300000000, cf_datasets = None, cf_memory_limit = ''2GB'', cf_threads = 4,
      cf_isolation = False\<rparr>"

lemma sample_hardens: "hardens sample_duck sample_off sample_safe"
  by (auto simp: hardens_def sample_duck_def sample_off_def sample_safe_def split: if_splits)

definition sample_conn :: "string list" where
  "sample_conn = [''SET memory_limit = '' @ [CHR 0x27] @ ''2GB'' @ [CHR 0x27], ''SET threads = 4'',
     access_off, config_lock]"

lemma sample_opens: "create_hardened_connection sample_duck sample_cfg = Inr sample_conn"
  by code_simp

text \<open>Two sessions of workgroup \<open>w1\<close>; \<open>s2\<close> is suspended ten minutes after its creation.\<close>

definition sample_manager :: "string list manager" where
  "sample_manager =
     apply_session_event sample_duck sample_cfg (Suspend (sample_time + 600000000) ''s2'')
       (apply_session_event sample_duck sample_cfg (Create (sample_time + 1) ''s2'' ''n2'' ''w1'' None)
         (apply_session_event sample_duck sample_cfg (Create sample_time ''s1'' ''n1'' ''w1'' None)
           \<lparr>sm_sessions = [], sm_store = Some empty_meta\<rparr>))"

lemma sample_reachable: "session_reachable sample_duck sample_cfg sample_manager"
  unfolding sample_manager_def by (intro session_reachable.intros)

lemma sample_manager_inv: "mgr_inv sample_safe sample_manager"
  by (rule session_reachable_inv [OF sample_reachable sample_hardens])


theorem watchdog_suspends_exactly_idle_witness:
  "\<exists>ids m'. run_watchdog_once sample_cfg (sample_time + 900000000) (\<lambda>k. sample_time + 900000000) sample_manager
      = (ids, m') \<and> ''s1'' \<in> set ids \<and>
   map_option s_status (find_sess ''s1'' m') = Some SUSPENDED"
proof -
  obtain ids m' where w: "run_watchdog_once sample_cfg (sample_time + 900000000)
      (\<lambda>k. sample_time + 900000000) sample_manager = (ids, m')"
    by (cases "run_watchdog_once sample_cfg (sample_time + 900000000)
      (\<lambda>k. sample_time + 900000000) sample_manager")
  have "map_option (\<lambda>s. (s_status s, s_last_active s)) (find_sess ''s1'' sample_manager) = Some (ACTIVE, sample_time)"
    "cf_idle_timeout sample_cfg < 900000000"
    by code_simp+
  then obtain s where s: "find_sess ''s1'' sample_manager = Some s"
    "s_status s = ACTIVE \<and> cf_idle_timeout sample_cfg < sample_time + 900000000 - s_last_active s"
    by auto
  note wd = watchdog_suspends_exactly_idle [OF sample_manager_inv w]
  have "find_sess ''s1'' m' = Some (suspended (sample_time + 900000000) s)"
    using wd [THEN conjunct1, rule_format, of "''s1''"] s by simp
  moreover have "''s1'' \<in> set ids"
    using wd [THEN conjunct2, THEN conjunct1, rule_format, of "''s1''"] s by simp
  ultimately show ?thesis using w by (simp add: suspended_def)
qed

theorem reaper_destroys_exactly_stale_witness:
  "\<exists>ids m'. run_reaper_once 3600000000 (sample_time + 9000000000) sample_manager = (ids, m') \<and>
    find_sess ''s2'' m' = None \<and> find_sess ''s1'' m' \<noteq> None"
proof -
  obtain ids m' where w: "run_reaper_once 3600000000 (sample_time + 9000000000) sample_manager = (ids, m')"
    by (cases "run_reaper_once 3600000000 (sample_time + 9000000000) sample_manager")
  have "map_option (\<lambda>s. (s_status s, s_suspended_at s)) (find_sess ''s2'' sample_manager)
      = Some (SUSPENDED, Some (sample_time + 600000000))"
    "map_option (\<lambda>s. (s_status s, s_suspended_at s)) (find_sess ''s1'' sample_manager) = Some (ACTIVE, None)"
    by code_simp+
  with reaper_destroys_exactly_stale [OF sample_manager_inv w] w show ?thesis
    by (auto split: option.splits)
qed

theorem query_execution_contract_witness:
  "\<exists>r m'. execute_query sample_duck sample_cfg (sample_time + 2) (sample_time + 3) 1 ''s2'' ''SELECT 1'' sample_manager
      = (r, m') \<and> is_ok r \<and> map_option s_status (find_sess ''s2'' m') = Some ACTIVE \<and>
   find_sess ''s1'' m' = find_sess ''s1'' sample_manager"
proof -
  let ?x = "execute_query sample_duck sample_cfg (sample_time + 2) (sample_time + 3) 1 ''s2'' ''SELECT 1'' sample_manager"
  obtain r m' where x: "?x = (r, m')" by (cases ?x)
  have "is_ok (fst ?x)" by code_simp
  with query_execution_contract [OF sample_manager_inv x] x show ?thesis by auto
qed

theorem restart_restores_sessions_witness:
  "\<exists>db m'. sm_store sample_manager = Some db \<and>
    load_from_store sample_duck sample_cfg \<lparr>sm_sessions = [], sm_store = Some db\<rparr> = (Inr (), m') \<and>
    map_option s_workgroup_id (find_sess ''s1'' m') = Some ''default'' \<and>
    map_option s_status (find_sess ''s2'' m') = Some SUSPENDED"
proof -
  have "\<not> Option.is_none (sm_store sample_manager)" by code_simp
  then obtain db where db: "sm_store sample_manager = Some db"
    by (cases "sm_store sample_manager") auto
  have h: "\<forall>s \<in> set (sm_sessions sample_manager). valid_instant (s_created_at s)"
    "\<forall>r \<in> set (md_sessions (the (sm_store sample_manager))). fromisoformat (sr_last_active r) \<noteq> None"
    "map_option s_status (find_sess ''s2'' sample_manager) = Some SUSPENDED"
    "find_sess ''s1'' sample_manager \<noteq> None"
    by code_simp+
  from restart_restores_sessions [OF sample_manager_inv db sample_opens h(1)] h(2) db obtain m' where
    m': "load_from_store sample_duck sample_cfg \<lparr>sm_sessions = [], sm_store = Some db\<rparr> = (Inr (), m')"
    and f: "\<And>k s. find_sess k sample_manager = Some s \<Longrightarrow>
      \<exists>s'. find_sess k m' = Some s' \<and> s_status s' = s_status s \<and> s_workgroup_id s' = ''default''"
    by (fastforce split: option.splits)
  show ?thesis using m' f [of "''s1''"] f [of "''s2''"] h(3,4) db by auto
qed

theorem create_session_quota_witness:
  "\<exists>r m'. create_session sample_duck sample_cfg sample_time ''s3'' ''n'' ''w1'' (Some 1) sample_manager = (r, m') \<and>
    r = Inr ''s2'' \<and> 1 < active_count_for_workgroup ''w1'' m'"
proof -
  obtain r m' where x: "create_session sample_duck sample_cfg sample_time ''s3'' ''n'' ''w1'' (Some 1) sample_manager = (r, m')"
    by (cases "create_session sample_duck sample_cfg sample_time ''s3'' ''n'' ''w1'' (Some 1) sample_manager")
  have "active_count_for_workgroup ''w1'' sample_manager = 1"
    "find_suspended_in_workgroup ''w1'' sample_manager = Some ''s2''"
    "find_sess ''s3'' sample_manager = None" "''w1'' \<noteq> ''default''"
    by code_simp+
  with create_session_quota [OF sample_opens _ sample_manager_inv _ x] x show ?thesis by auto
qed

end
