(* ===== verification/AppSessions.thy ===== *)
theory AppSessions
  imports Workgroups SessionSystem
begin

text \<open>
  The session endpoints of \<open>app.py\<close> on top of the session manager and the registry of
  workgroups: creation under a workgroup's quota, destruction, listing. The server counts the
  sessions of a workgroup twice, in the workgroup and in its dictionary of sessions; the main
  result is how far the two agree, and what the background tasks do to them.
\<close>

section \<open>Endpoints\<close>

record 'c app_sys =
  ap_manager :: "'c manager"
  ap_registry :: registry

record session_created =
  sc_session_id :: string
  sc_status :: string
  sc_workgroup_id :: string

text \<open>Datasets are registered again in the new connection, where external access is off by now.\<close>

definition register_again :: "'c duck \<Rightarrow> session_cfg \<Rightarrow> string \<Rightarrow> 'c manager \<Rightarrow> 'c manager" where
  "register_again D cfg sid m =
     (case find_sess sid m of
        None \<Rightarrow> m
      | Some s \<Rightarrow>
          (case s_conn s of
             None \<Rightarrow> m
           | Some c \<Rightarrow>
               set_sess (s\<lparr>s_conn := Some (register_in_session D (get_or (cf_datasets cfg) []) c)\<rparr>) m))"

text \<open>The slot of a workgroup is taken before the session is opened.\<close>

definition take_slot :: "string option \<Rightarrow> registry \<Rightarrow> registry http" where
  "take_slot wid g =
     (case wid of
        None \<Rightarrow> Inr g
      | Some w \<Rightarrow>
          (case find_workgroup w g of
             None \<Rightarrow> Inl (wg_not_found w)
           | Some wk \<Rightarrow>
               (case check_and_reserve_session_slot wk of
                  Inl e \<Rightarrow> Inl (HTTPException 429 e)
                | Inr _ \<Rightarrow> Inr (set_workgroup (wk\<lparr>wk_active := wk_active wk + 1\<rparr>) g))))"

definition track_session :: "string \<Rightarrow> string option \<Rightarrow> registry \<Rightarrow> registry" where
  "track_session sid wid g =
     (case wid of None \<Rightarrow> g | Some w \<Rightarrow> g\<lparr>rg_sessions := upsert_by fst (sid, w) (rg_sessions g)\<rparr>)"

definition post_session ::
    "'c duck \<Rightarrow> session_cfg \<Rightarrow> instant \<Rightarrow> string \<Rightarrow> string \<Rightarrow> string option \<Rightarrow> 'c app_sys \<Rightarrow>
      session_created http \<times> 'c app_sys" where
  "post_session D cfg t fresh ns wid s =
     (case take_slot wid (ap_registry s) of
        Inl e \<Rightarrow> (Inl e, s)
      | Inr g \<Rightarrow>
          (case create_session D cfg t fresh ns (get_or wid ''default'') None (ap_manager s) of
             (Inl _, m) \<Rightarrow> (Inl server_error, \<lparr>ap_manager = m, ap_registry = g\<rparr>)
           | (Inr sid, m) \<Rightarrow>
               (let m' = register_again D cfg sid m; s' = \<lparr>ap_manager = m', ap_registry = track_session sid wid g\<rparr>
                in case get_session sid m' of
                     Inl _ \<Rightarrow> (Inl server_error, s')
                   | Inr info \<Rightarrow>
                       (Inr \<lparr>sc_session_id = sid, sc_status = si_status info,
                             sc_workgroup_id = get_or wid ''default''\<rparr>, s'))))"

definition free_slot :: "string \<Rightarrow> registry \<Rightarrow> registry" where
  "free_slot sid g =
     (case map_of (rg_sessions g) sid of
        None \<Rightarrow> g
      | Some w \<Rightarrow>
          (let g' = g\<lparr>rg_sessions := delete_where (\<lambda>x. fst x = sid) (rg_sessions g)\<rparr>
           in case find_workgroup w g' of
                None \<Rightarrow> g'
              | Some wk \<Rightarrow> set_workgroup (wk\<lparr>wk_active := max 0 (wk_active wk - 1)\<rparr>) g'))"

definition delete_session_route :: "string \<Rightarrow> 'c app_sys \<Rightarrow> string http \<times> 'c app_sys" where
  "delete_session_route sid s =
     (case destroy_session sid (ap_manager s) of
        (Inl _, m) \<Rightarrow> (Inl (HTTPException 404 (''Session not found: '' @ sid)), s)
      | (Inr _, m) \<Rightarrow> (Inr ''destroyed'', \<lparr>ap_manager = m, ap_registry = free_slot sid (ap_registry s)\<rparr>))"

definition list_sessions_route :: "string option \<Rightarrow> string option \<Rightarrow> 'c app_sys \<Rightarrow> session_info list" where
  "list_sessions_route ns wid s = list_sessions ns wid (ap_manager s)"

section \<open>The server as a state machine\<close>

datatype app_event =
    NewNamespace instant string namespace_create
  | ChangeNamespace instant string namespace_update
  | DropNamespace string
  | NewWorkgroup instant string workgroup_create claims
  | ChangeWorkgroup instant string workgroup_update
  | DropWorkgroup string
  | Reconcile string
  | PostSession instant string string "string option"
  | DeleteSession string
  | OnManager session_event

fun apply_app :: "'c duck \<Rightarrow> session_cfg \<Rightarrow> app_event \<Rightarrow> 'c app_sys \<Rightarrow> 'c app_sys" where
  "apply_app D cfg (NewNamespace t nid b) s = s\<lparr>ap_registry := snd (create_namespace t nid b (ap_registry s))\<rparr>"
| "apply_app D cfg (ChangeNamespace t nid b) s = s\<lparr>ap_registry := snd (update_namespace t nid b (ap_registry s))\<rparr>"
| "apply_app D cfg (DropNamespace nid) s = s\<lparr>ap_registry := snd (delete_namespace nid (ap_registry s))\<rparr>"
| "apply_app D cfg (NewWorkgroup t wid b c) s = s\<lparr>ap_registry := fst (snd (create_workgroup t wid b c (ap_registry s)))\<rparr>"
| "apply_app D cfg (ChangeWorkgroup t wid b) s = s\<lparr>ap_registry := snd (update_workgroup t wid b (ap_registry s))\<rparr>"
| "apply_app D cfg (DropWorkgroup wid) s = s\<lparr>ap_registry := snd (delete_workgroup wid (ap_registry s))\<rparr>"
| "apply_app D cfg (Reconcile wid) s = s\<lparr>ap_registry := snd (reconcile_workgroup wid (ap_registry s))\<rparr>"
| "apply_app D cfg (PostSession t sid ns wid) s = snd (post_session D cfg t sid ns wid s)"
| "apply_app D cfg (DeleteSession sid) s = snd (delete_session_route sid s)"
| "apply_app D cfg (OnManager ev) s = s\<lparr>ap_manager := apply_session_event D cfg ev (ap_manager s)\<rparr>"

text \<open>Identifiers handed out by \<open>uuid4()\<close> were never used before.\<close>

fun fresh_ids :: "app_event \<Rightarrow> 'c app_sys \<Rightarrow> bool" where
  "fresh_ids (NewWorkgroup t wid b c) s =
     (wid \<notin> wk_id ` set (rg_workgroups (ap_registry s)) \<and> wid \<notin> snd ` set (rg_sessions (ap_registry s)))"
| "fresh_ids (PostSession t sid ns wid) s = (sid \<notin> fst ` set (rg_sessions (ap_registry s)))"
| "fresh_ids _ s = True"

inductive app_reachable :: "'c duck \<Rightarrow> session_cfg \<Rightarrow> 'c app_sys \<Rightarrow> bool" for D cfg where
  start: "app_reachable D cfg \<lparr>ap_manager = \<lparr>sm_sessions = [], sm_store = Some empty_meta\<rparr>,
     ap_registry = empty_registry\<rparr>"
| event: "app_reachable D cfg s \<Longrightarrow> fresh_ids ev s \<Longrightarrow> app_reachable D cfg (apply_app D cfg ev s)"

section \<open>The registry keeps its invariant\<close>

lemma tracked_upsert:
  "sid \<notin> fst ` set (rg_sessions g) \<Longrightarrow>
    tracked w (g\<lparr>rg_sessions := upsert_by fst (sid, v) (rg_sessions g)\<rparr>) =
    tracked w g + (if v = w then 1 else 0)"
  by (simp add: tracked_def upsert_by_def count_where_append count_where_Cons)

lemma take_slot_cases:
  assumes "take_slot wid g = Inr g'"
  shows "(wid = None \<and> g' = g) \<or> (\<exists>w wk. wid = Some w \<and> find_workgroup w g = Some wk \<and>
    (\<forall>q n. wk_quota wk = Some q \<longrightarrow> qt_max_sessions q = Some n \<longrightarrow> wk_active wk < n) \<and>
    g' = set_workgroup (wk\<lparr>wk_active := wk_active wk + 1\<rparr>) g)"
  using assms
  by (auto simp: take_slot_def check_and_reserve_session_slot_def split: option.splits sum.splits if_splits)

lemma count_where_delete_key:
  assumes "distinct (map fst xs)" "map_of xs sid = Some v"
  shows "count_where (\<lambda>(k, w). w = x) xs =
    count_where (\<lambda>(k, w). w = x) (delete_where (\<lambda>y. fst y = sid) xs) + (if v = x then 1 else 0)"
  using assms
proof (induction xs)
  case (Cons a xs)
  obtain k w where a: "a = (k, w)" by (cases a)
  show ?case
  proof (cases "k = sid")
    case True
    have "delete_where (\<lambda>y. fst y = sid) xs = xs"
      using Cons.prems(1) a True by (auto simp: delete_where_def filter_id_conv image_iff)
    then show ?thesis using Cons.prems a True by (auto simp: count_where_Cons)
  next
    case False
    then show ?thesis using Cons a by (auto simp: count_where_Cons)
  qed
qed simp

lemma registry_rowI:
  assumes "registry_inv g" "w \<in> set (rg_workgroups g)"
  shows "find_namespace (wk_namespace_id w) g \<noteq> None" "quota_ok (wk_quota w)"
    "int (tracked (wk_id w) g) \<le> wk_active w"
  using assms by (simp_all add: registry_inv_def)

lemma take_slot_inv:
  assumes "registry_inv g" "take_slot wid g = Inr g'"
  shows "registry_inv g'"
  using take_slot_cases [OF assms(2)]
proof (elim disjE exE conjE)
  fix w wk assume wk: "find_workgroup w g = Some wk"
    and g': "g' = set_workgroup (wk\<lparr>wk_active := wk_active wk + 1\<rparr>) g"
  have "wk \<in> set (rg_workgroups g)" using find_workgroupD [OF wk] by blast
  from registry_rowI [OF assms(1) this] show ?thesis
    unfolding g' by (intro set_workgroup_inv [OF assms(1)]) simp_all
qed (simp add: assms(1))

lemma track_session_inv:
  assumes "registry_inv g" "take_slot wid g = Inr g'" "sid \<notin> fst ` set (rg_sessions g)"
  shows "registry_inv (track_session sid wid g')"
proof (cases wid)
  case None
  then show ?thesis using take_slot_inv [OF assms(1,2)] by (simp add: track_session_def)
next
  case (Some w)
  obtain wk where wk: "find_workgroup w g = Some wk"
    and g': "g' = set_workgroup (wk\<lparr>wk_active := wk_active wk + 1\<rparr>) g"
    using take_slot_cases [OF assms(2)] Some by auto
  let ?g = "g'\<lparr>rg_sessions := upsert_by fst (sid, w) (rg_sessions g')\<rparr>"
  have in_g: "wk \<in> set (rg_workgroups g)" "wk_id wk = w" using find_workgroupD [OF wk] by blast+
  have inv': "registry_inv g'" using take_slot_inv [OF assms(1,2)] .
  have sess: "rg_sessions g' = rg_sessions g" by (simp add: g')
  have tr: "tracked x ?g = tracked x g' + (if w = x then 1 else 0)" for x
    using tracked_upsert [of sid g' x w] assms(3) sess by simp
  have "int (tracked (wk_id x) ?g) \<le> wk_active x" if x: "x \<in> set (rg_workgroups g')" for x
  proof (cases "wk_id x = w")
    case True
    have "find_workgroup w g' = Some (wk\<lparr>wk_active := wk_active wk + 1\<rparr>)"
      by (simp add: g' find_set_workgroup in_g(2))
    moreover have "find_workgroup w g' = Some x"
      using find_unique_key [of wk_id "rg_workgroups g'" x] inv' x True
      by (simp add: find_workgroup_def registry_inv_def)
    ultimately have "wk_active x = wk_active wk + 1" by auto
    moreover have "tracked w g' = tracked w g" by (simp add: g')
    ultimately show ?thesis using registry_rowI(3) [OF assms(1) in_g(1)] in_g(2) True by (simp add: tr)
  next
    case False
    then show ?thesis using registry_rowI(3) [OF inv' x] by (simp add: tr)
  qed
  then show ?thesis
    using inv' distinct_upsert_by [of fst "rg_sessions g'" "(sid, w)"]
    unfolding registry_inv_def track_session_def Some by (simp add: find_namespace_def)
qed

lemma track_session_exact:
  assumes "registry_inv g" "counts_exact g" "take_slot wid g = Inr g'" "sid \<notin> fst ` set (rg_sessions g)"
  shows "counts_exact (track_session sid wid g')"
proof (cases wid)
  case None
  then show ?thesis using take_slot_cases [OF assms(3)] assms(2) by (simp add: track_session_def)
next
  case (Some w)
  obtain wk where wk: "find_workgroup w g = Some wk"
    and g': "g' = set_workgroup (wk\<lparr>wk_active := wk_active wk + 1\<rparr>) g"
    using take_slot_cases [OF assms(3)] Some by auto
  have in_g: "wk \<in> set (rg_workgroups g)" "wk_id wk = w" using find_workgroupD [OF wk] by blast+
  have tr: "tracked x (track_session sid wid g') = tracked x g + (if w = x then 1 else 0)" for x
    using tracked_upsert [of sid g' x w] assms(4) by (simp add: track_session_def Some g')
  have "wk_active x = int (tracked (wk_id x) (track_session sid wid g'))" if x: "x \<in> set (rg_workgroups g')" for x
  proof (cases "wk_id x = w")
    case True
    have "find_workgroup w g' = Some x"
      using find_unique_key [of wk_id "rg_workgroups g'" x] take_slot_inv [OF assms(1,3)] x True
      by (simp add: find_workgroup_def registry_inv_def)
    then have "x = wk\<lparr>wk_active := wk_active wk + 1\<rparr>" by (simp add: g' find_set_workgroup in_g(2))
    then show ?thesis using assms(2) in_g by (simp add: counts_exact_def tr)
  next
    case False
    have "x \<in> set (rg_workgroups g)"
      using set_workgroup_members x False in_g(2) unfolding g' by fastforce
    then show ?thesis using assms(2) False by (simp add: counts_exact_def tr)
  qed
  then show ?thesis by (simp add: counts_exact_def track_session_def Some)
qed

lemma tracked_free:
  assumes "registry_inv g" "map_of (rg_sessions g) sid = Some w"
  shows "tracked x g = tracked x (g\<lparr>rg_sessions := delete_where (\<lambda>y. fst y = sid) (rg_sessions g)\<rparr>) +
    (if w = x then 1 else 0)"
  using count_where_delete_key [of "rg_sessions g" sid w x] assms by (simp add: tracked_def registry_inv_def)

lemma free_slot_cases:
  assumes "registry_inv g"
  shows "registry_inv (free_slot sid g) \<and> (counts_exact g \<longrightarrow> counts_exact (free_slot sid g))"
proof (cases "map_of (rg_sessions g) sid")
  case None
  then show ?thesis using assms by (simp add: free_slot_def)
next
  case (Some w)
  let ?g = "g\<lparr>rg_sessions := delete_where (\<lambda>y. fst y = sid) (rg_sessions g)\<rparr>"
  have tr: "tracked x g = tracked x ?g + (if w = x then 1 else 0)" for x using tracked_free [OF assms Some] .
  have keys: "distinct (map fst (rg_sessions ?g))"
    using assms by (simp add: registry_inv_def distinct_delete_where)
  have inv: "registry_inv ?g"
    using assms keys tr unfolding registry_inv_def by (simp add: find_namespace_def) fastforce
  show ?thesis
  proof (cases "find_workgroup w g")
    case None
    then have "find_workgroup w ?g = None" by (simp add: find_workgroup_def)
    moreover have "wk_id x \<noteq> w" if "x \<in> set (rg_workgroups g)" for x
      using None that by (auto simp: find_workgroup_def find_None_iff_ball)
    ultimately show ?thesis using inv tr by (auto simp: free_slot_def Some counts_exact_def)
  next
    case (Some wk)
    let ?wk = "wk\<lparr>wk_active := max 0 (wk_active wk - 1)\<rparr>"
    have in_g: "wk \<in> set (rg_workgroups g)" "wk_id wk = w" using find_workgroupD [OF Some] by blast+
    have eq: "free_slot sid g = set_workgroup ?wk ?g"
      using Some by (simp add: free_slot_def \<open>map_of (rg_sessions g) sid = Some w\<close> find_workgroup_def Let_def)
    have bound: "int (tracked w g) \<le> wk_active wk" using registry_rowI(3) [OF assms in_g(1)] in_g(2) by simp
    have ns: "find_namespace (wk_namespace_id ?wk) ?g \<noteq> None" "quota_ok (wk_quota ?wk)"
      using registry_rowI(1,2) [OF assms in_g(1)] by (simp_all add: find_namespace_def)
    have "int (tracked (wk_id ?wk) ?g) \<le> wk_active ?wk" using bound tr [of w] in_g(2) by simp
    then have "registry_inv (free_slot sid g)" unfolding eq by (rule set_workgroup_inv [OF inv ns])
    moreover have "counts_exact (free_slot sid g)" if ex: "counts_exact g"
    proof -
      have act: "wk_active ?wk = int (tracked w ?g)" using ex in_g tr [of w] by (simp add: counts_exact_def)
      have "wk_active x = int (tracked (wk_id x) ?g)"
        if "x \<in> set (rg_workgroups (set_workgroup ?wk ?g))" for x
      proof (cases "wk_id x = w")
        case True
        have "find_workgroup w (set_workgroup ?wk ?g) = Some x"
          using find_unique_key [of wk_id "rg_workgroups (set_workgroup ?wk ?g)" x] that True
            \<open>registry_inv (free_slot sid g)\<close> eq by (simp add: find_workgroup_def registry_inv_def)
        then have "x = ?wk" by (simp add: find_set_workgroup in_g(2))
        then show ?thesis using act in_g(2) by simp
      next
        case False
        have "x = ?wk \<or> x \<in> set (rg_workgroups ?g)" using that by (rule set_workgroup_members)
        then have "x \<in> set (rg_workgroups g)" using False in_g(2) by auto
        then show ?thesis using ex False tr [of "wk_id x"] by (simp add: counts_exact_def)
      qed
      then show ?thesis unfolding eq counts_exact_def set_workgroup_sel by blast
    qed
    ultimately show ?thesis by blast
  qed
qed

lemma delete_namespace_inv:
  "registry_inv g \<Longrightarrow> registry_inv (snd (delete_namespace nid g))"
proof (cases "find_namespace nid g")
  case (Some n)
  assume inv: "registry_inv g"
  let ?g = "g\<lparr>rg_namespaces := delete_where (\<lambda>n. ns_id n = nid) (rg_namespaces g),
    rg_workgroups := delete_where (\<lambda>w. wk_namespace_id w = nid) (rg_workgroups g)\<rparr>"
  have f: "find_namespace k ?g = (if k = nid then None else find_namespace k g)" for k
    by (simp add: find_namespace_def find_delete_key)
  have tr: "tracked x ?g = tracked x g" for x by (simp add: tracked_def)
  have d: "distinct (map ns_id (rg_namespaces ?g))" "distinct (map wk_id (rg_workgroups ?g))"
    "distinct (map fst (rg_sessions ?g))"
    using inv by (simp_all add: registry_inv_def distinct_delete_where)
  have "find_namespace (wk_namespace_id w) ?g \<noteq> None \<and> quota_ok (wk_quota w) \<and>
      int (tracked (wk_id w) ?g) \<le> wk_active w" if "w \<in> set (rg_workgroups ?g)" for w
    unfolding f tr using that registry_rowI [OF inv, of w] by simp
  then have "registry_inv ?g" unfolding registry_inv_def using d by blast
  then show ?thesis by (simp add: delete_namespace_def Some)
qed (simp add: delete_namespace_def)

lemma delete_workgroup_inv: "registry_inv g \<Longrightarrow> registry_inv (snd (delete_workgroup wid g))"
proof (cases "find_workgroup wid g")
  case (Some w)
  assume inv: "registry_inv g"
  let ?g = "g\<lparr>rg_workgroups := delete_where (\<lambda>w. wk_id w = wid) (rg_workgroups g)\<rparr>"
  have "find_namespace k ?g = find_namespace k g" "tracked x ?g = tracked x g" for k x
    by (simp_all add: find_namespace_def tracked_def)
  moreover have "distinct (map wk_id (rg_workgroups ?g))"
    using inv by (simp_all add: registry_inv_def distinct_delete_where)
  ultimately have "registry_inv ?g" using inv unfolding registry_inv_def by simp
  then show ?thesis by (simp add: delete_workgroup_def Some)
qed (simp add: delete_workgroup_def)

lemma delete_exact:
  "counts_exact g \<Longrightarrow> counts_exact (snd (delete_workgroup wid g))"
  "counts_exact g \<Longrightarrow> counts_exact (snd (delete_namespace wid g))"
  by (auto simp: delete_workgroup_def delete_namespace_def counts_exact_def tracked_def split: option.splits)

lemma tracked_0: "w \<notin> snd ` set (rg_sessions g) \<Longrightarrow> tracked w g = 0"
  by (auto simp: tracked_def count_where_0 image_iff)

lemma create_workgroup_inv:
  assumes "registry_inv g" "wid \<notin> snd ` set (rg_sessions g)"
  shows "registry_inv (fst (snd (create_workgroup t wid b c g)))"
    and "counts_exact g \<Longrightarrow> counts_exact (fst (snd (create_workgroup t wid b c g)))"
  using assms tracked_0 [OF assms(2)]
  by (auto simp: create_workgroup_def workgroup_create_ok_def Let_def
      intro!: set_workgroup_inv set_workgroup_exact)

lemma update_workgroup_inv:
  assumes "registry_inv g"
  shows "registry_inv (snd (update_workgroup t wid b g))"
    and "counts_exact g \<Longrightarrow> counts_exact (snd (update_workgroup t wid b g))"
proof -
  have row: "w \<in> set (rg_workgroups g)" if "find_workgroup wid g = Some w" for w
    using find_workgroupD [OF that] by blast
  show "registry_inv (snd (update_workgroup t wid b g))"
    using assms registry_rowI [OF assms row]
    by (auto simp: update_workgroup_def workgroup_update_ok_def Let_def split: option.splits
        intro!: set_workgroup_inv)
  show "counts_exact g \<Longrightarrow> counts_exact (snd (update_workgroup t wid b g))"
  proof -
    assume ex: "counts_exact g"
    show ?thesis
    proof (cases "find_workgroup wid g")
      case (Some w)
      have "wk_active w = int (tracked (wk_id w) g)" using ex row [OF Some] by (simp add: counts_exact_def)
      then show ?thesis using ex
        by (simp add: update_workgroup_def Some Let_def set_workgroup_exact)
    qed (simp add: update_workgroup_def ex)
  qed
qed

lemma reconcile_inv:
  assumes "registry_inv g"
  shows "registry_inv (snd (reconcile_workgroup wid g))"
    and "counts_exact g \<Longrightarrow> counts_exact (snd (reconcile_workgroup wid g))"
proof -
  have row: "w \<in> set (rg_workgroups g) \<and> wk_id w = wid" if "find_workgroup wid g = Some w" for w
    using find_workgroupD [OF that] .
  show "registry_inv (snd (reconcile_workgroup wid g))"
    using assms registry_rowI [OF assms] row
    by (auto simp: reconcile_workgroup_def reconcile_workgroup_usage_def split: option.splits
        intro!: set_workgroup_inv)
  show "counts_exact g \<Longrightarrow> counts_exact (snd (reconcile_workgroup wid g))"
    using row by (auto simp: reconcile_workgroup_def reconcile_workgroup_usage_def split: option.splits
        intro!: set_workgroup_exact)
qed

lemma namespace_changes:
  assumes "registry_inv g"
  shows "registry_inv (snd (create_namespace t nid b g))" "registry_inv (snd (update_namespace t nid b' g))"
    "counts_exact g \<Longrightarrow> counts_exact (snd (create_namespace t nid b g))"
    "counts_exact g \<Longrightarrow> counts_exact (snd (update_namespace t nid b' g))"
  using assms
  by (auto simp: create_namespace_def update_namespace_def Let_def set_namespace_inv counts_exact_def
      set_namespace_def tracked_def split: option.splits intro!: set_namespace_inv [unfolded set_namespace_def])

lemma create_session_unlimited:
  assumes "create_session D cfg t fresh ns wg None m = (r, m')"
  shows "r = Inr fresh \<or> (\<not> is_ok r \<and> (\<exists>e. create_hardened_connection D cfg = Inl e))"
  using assms by (auto simp: create_session_def Let_def split: sum.splits)

lemma post_session_registry:
  assumes "post_session D cfg t sid ns wid s = (r, s')"
  obtains "ap_registry s' = ap_registry s"
  | g where "take_slot wid (ap_registry s) = Inr g" "ap_registry s' = track_session sid wid g"
  | g e where "take_slot wid (ap_registry s) = Inr g" "ap_registry s' = g" "create_hardened_connection D cfg = Inl e"
proof (cases "take_slot wid (ap_registry s)")
  case (Inl e)
  then show thesis using assms that(1) by (simp add: post_session_def)
next
  case (Inr g)
  obtain r0 m where c: "create_session D cfg t sid ns (get_or wid ''default'') None (ap_manager s) = (r0, m)"
    by (metis prod.collapse)
  show thesis
  proof (cases r0)
    case (Inl e)
    then show thesis using assms that(3) Inr c create_session_unlimited [OF c] by (auto simp: post_session_def)
  next
    case r0: (Inr k)
    then have "k = sid" using create_session_unlimited [OF c] by auto
    then show thesis using assms that(2) [OF Inr] c r0 Inr
      by (auto simp: post_session_def Let_def split: sum.splits)
  qed
qed

lemma apply_app_registry:
  assumes "registry_inv (ap_registry s)" "fresh_ids ev s"
  shows "registry_inv (ap_registry (apply_app D cfg ev s))"
    and "counts_exact (ap_registry s) \<Longrightarrow> create_hardened_connection D cfg = Inr c \<Longrightarrow>
      counts_exact (ap_registry (apply_app D cfg ev s))"
proof -
  have post: "registry_inv (ap_registry (apply_app D cfg ev s)) \<and>
      (counts_exact (ap_registry s) \<longrightarrow> create_hardened_connection D cfg = Inr c \<longrightarrow>
        counts_exact (ap_registry (apply_app D cfg ev s)))"
    if ev: "ev = PostSession t sid ns wid" for t sid ns wid
  proof -
    obtain r s' where p: "post_session D cfg t sid ns wid s = (r, s')" by (metis prod.collapse)
    have fresh: "sid \<notin> fst ` set (rg_sessions (ap_registry s))" using assms(2) ev by simp
    from p show ?thesis
    proof (cases rule: post_session_registry)
      case 1
      then show ?thesis using assms(1) ev p by simp
    next
      case (2 g)
      then show ?thesis using ev p track_session_inv [OF assms(1) 2(1) fresh]
          track_session_exact [OF assms(1) _ 2(1) fresh] by simp
    next
      case (3 g e)
      then show ?thesis using ev p take_slot_inv [OF assms(1) 3(1)] by simp
    qed
  qed
  have del: "registry_inv (ap_registry (snd (delete_session_route sid s))) \<and>
      (counts_exact (ap_registry s) \<longrightarrow> counts_exact (ap_registry (snd (delete_session_route sid s))))" for sid
    using assms(1) free_slot_cases [OF assms(1), of sid]
    by (auto simp: delete_session_route_def split: prod.splits sum.splits)
  note changes = namespace_changes [OF assms(1)] create_workgroup_inv [OF assms(1)]
    update_workgroup_inv [OF assms(1)] reconcile_inv [OF assms(1)] delete_namespace_inv [OF assms(1)]
    delete_workgroup_inv [OF assms(1)] delete_exact
  show "registry_inv (ap_registry (apply_app D cfg ev s))"
    using assms post del by (cases ev) (simp_all add: changes)
  show "counts_exact (ap_registry (apply_app D cfg ev s))"
    if "counts_exact (ap_registry s)" "create_hardened_connection D cfg = Inr c"
    using assms(2) post del that by (cases ev) (simp_all add: changes)
qed

lemma app_reachable_inv:
  "app_reachable D cfg s \<Longrightarrow> registry_inv (ap_registry s)"
proof (induction rule: app_reachable.induct)
  case start
  show ?case by (simp add: registry_inv_def empty_registry_def)
qed (rule apply_app_registry(1))

lemma app_reachable_exact:
  "app_reachable D cfg s \<Longrightarrow> create_hardened_connection D cfg = Inr c \<Longrightarrow> counts_exact (ap_registry s)"
proof (induction rule: app_reachable.induct)
  case start
  show ?case by (simp add: counts_exact_def empty_registry_def)
next
  case (event s ev)
  then show ?case using apply_app_registry(2) [OF app_reachable_inv [OF event(1)] event(2)] by blast
qed

text \<open>
  Property C21. In every state the server reaches through its administration and session
  endpoints, interleaved with anything the session manager does, identifiers are unique, every
  workgroup belongs to an existing namespace and has a positive quota if any, and a workgroup's
  count of active sessions is never negative and never below the number of sessions tracked
  for it. If connections can always be opened the two agree; otherwise a failed creation
  leaves its slot taken.
\<close>

theorem registry_invariant:
  assumes "app_reachable D cfg s"
  shows "distinct (map ns_id (rg_namespaces (ap_registry s))) \<and>
    distinct (map wk_id (rg_workgroups (ap_registry s))) \<and>
    (\<forall>w \<in> set (rg_workgroups (ap_registry s)).
       wk_namespace_id w \<in> ns_id ` set (rg_namespaces (ap_registry s)) \<and> quota_ok (wk_quota w) \<and>
       0 \<le> wk_active w \<and> int (tracked (wk_id w) (ap_registry s)) \<le> wk_active w \<and>
       (is_ok (create_hardened_connection D cfg) \<longrightarrow> wk_active w = int (tracked (wk_id w) (ap_registry s))))"
proof -
  have inv: "registry_inv (ap_registry s)" using assms by (rule app_reachable_inv)
  have "wk_namespace_id w \<in> ns_id ` set (rg_namespaces (ap_registry s))"
    if "w \<in> set (rg_workgroups (ap_registry s))" for w
    using registry_rowI(1) [OF inv that] find_fresh_key unfolding find_namespace_def by metis
  moreover have "wk_active w = int (tracked (wk_id w) (ap_registry s))"
    if "w \<in> set (rg_workgroups (ap_registry s))" "is_ok (create_hardened_connection D cfg)" for w
    using app_reachable_exact [OF assms] that unfolding counts_exact_def by (metis is_okE)
  ultimately show ?thesis using inv unfolding registry_inv_def by fastforce
qed

text \<open>
  A session slot: a creation under a workgroup succeeds only below its quota and
  takes one slot; deleting the session through the API gives the slot back. A session that
  left the manager on another way, as those the reaper destroys do, keeps its slot: deleting it
  is answered with 404 and changes nothing, and reconciliation still counts it.
\<close>

theorem session_slots:
  assumes "app_reachable D cfg s" and "find_workgroup w (ap_registry s) = Some wk"
    and "sid \<notin> fst ` set (rg_sessions (ap_registry s))"
    and "post_session D cfg t sid ns (Some w) s = (Inr x, s1)"
  shows "(\<forall>q n. wk_quota wk = Some q \<longrightarrow> qt_max_sessions q = Some n \<longrightarrow> wk_active wk < n) \<and>
    find_workgroup w (ap_registry s1) = Some (wk\<lparr>wk_active := wk_active wk + 1\<rparr>) \<and>
    (\<exists>s2. delete_session_route sid s1 = (Inr ''destroyed'', s2) \<and>
       find_workgroup w (ap_registry s2) = Some wk) \<and>
    (\<forall>m. find_sess sid m = None \<longrightarrow>
       status_of (fst (delete_session_route sid (s1\<lparr>ap_manager := m\<rparr>))) = Some 404 \<and>
       snd (delete_session_route sid (s1\<lparr>ap_manager := m\<rparr>)) = s1\<lparr>ap_manager := m\<rparr> \<and>
       (\<exists>n. fst (reconcile_workgroup w (ap_registry s1)) = Inr n \<and> 1 \<le> n))"
proof -
  let ?g = "ap_registry s" and ?wk = "wk\<lparr>wk_active := wk_active wk + 1\<rparr>"
  have inv: "registry_inv ?g" using assms(1) by (rule app_reachable_inv)
  have in_g: "wk \<in> set (rg_workgroups ?g)" "wk_id wk = w" using find_workgroupD [OF assms(2)] by blast+
  have pos: "0 \<le> wk_active wk" using registry_rowI(3) [OF inv in_g(1)] by linarith
  obtain g where g: "take_slot (Some w) ?g = Inr g" "ap_registry s1 = track_session sid (Some w) g"
    "find_sess sid (ap_manager s1) \<noteq> None"
    using assms(4) create_session_unlimited
    by (fastforce simp: post_session_def Let_def get_session_def split: sum.splits prod.splits option.splits)
  have quota: "\<forall>q n. wk_quota wk = Some q \<longrightarrow> qt_max_sessions q = Some n \<longrightarrow> wk_active wk < n"
    and g_eq: "g = set_workgroup ?wk ?g"
    using take_slot_cases [OF g(1)] assms(2) by auto
  have sess: "rg_sessions (ap_registry s1) = rg_sessions ?g @ [(sid, w)]"
    using assms(3) by (simp add: g(2) g_eq track_session_def upsert_by_def)
  have wg1: "find_workgroup w (ap_registry s1) = Some ?wk"
    by (simp add: g(2) g_eq track_session_def find_workgroup_def set_workgroup_def find_upsert_by in_g(2))
  have m: "map_of (rg_sessions (ap_registry s1)) sid = Some w"
    using assms(3) by (simp add: sess map_add_def map_of_eq_None_iff [THEN iffD2])
  have max: "max 0 (wk_active wk) = wk_active wk" using pos by simp
  let ?r = "(ap_registry s1)\<lparr>rg_sessions := delete_where (\<lambda>x. fst x = sid) (rg_sessions (ap_registry s1))\<rparr>"
  have "find_workgroup w ?r = Some ?wk" using wg1 by (simp add: find_workgroup_def)
  then have freed: "find_workgroup w (free_slot sid (ap_registry s1)) = Some wk"
    by (simp add: free_slot_def m Let_def find_set_workgroup in_g(2) max)
  have "1 \<le> tracked w (ap_registry s1)"
    by (simp add: tracked_def sess count_where_append count_where_Cons)
  then have rec: "\<exists>n. fst (reconcile_workgroup w (ap_registry s1)) = Inr n \<and> 1 \<le> n"
    by (simp add: reconcile_workgroup_def reconcile_workgroup_usage_def wg1)
  have del: "\<exists>s2. delete_session_route sid s1 = (Inr ''destroyed'', s2) \<and> find_workgroup w (ap_registry s2) = Some wk"
    using g(3) freed by (auto simp: delete_session_route_def destroy_session_def)
  have gone: "status_of (fst (delete_session_route sid (s1\<lparr>ap_manager := m\<rparr>))) = Some 404 \<and>
       snd (delete_session_route sid (s1\<lparr>ap_manager := m\<rparr>)) = s1\<lparr>ap_manager := m\<rparr>"
    if "find_sess sid m = None" for m
    using that by (simp add: delete_session_route_def destroy_session_def)
  show ?thesis using quota wg1 del gone rec by blast
qed

section \<open>Witnesses\<close>

definition sample_app :: "string list app_sys" where
  "sample_app =
     apply_app sample_duck sample_cfg
       (NewWorkgroup sample_time ''w'' \<lparr>wc_name = ''team'', wc_namespace_id = ''n'', wc_description = None,
          wc_config = None, wc_quota = Some \<lparr>qt_max_sessions = Some 1, qt_max_query_duration_ms = None,
          qt_max_result_mb = None\<rparr>\<rparr> no_claims)
       (apply_app sample_duck sample_cfg (NewNamespace sample_time ''n'' \<lparr>nc_name = ''acme'', nc_description = None\<rparr>)
         \<lparr>ap_manager = \<lparr>sm_sessions = [], sm_store = Some empty_meta\<rparr>, ap_registry = empty_registry\<rparr>)"

lemma sample_app_reachable: "app_reachable sample_duck sample_cfg sample_app"
proof -
  have "app_reachable sample_duck sample_cfg
    (apply_app sample_duck sample_cfg (NewNamespace sample_time ''n'' \<lparr>nc_name = ''acme'', nc_description = None\<rparr>)
         \<lparr>ap_manager = \<lparr>sm_sessions = [], sm_store = Some empty_meta\<rparr>, ap_registry = empty_registry\<rparr>)"
    by (rule app_reachable.event [OF app_reachable.start]) simp
  then show ?thesis unfolding sample_app_def
    by (rule app_reachable.event) (simp add: create_namespace_def namespace_create_ok_def Let_def
        set_namespace_def empty_registry_def)
qed

theorem registry_invariant_witness:
  "map wk_active (rg_workgroups (ap_registry sample_app)) = [0] \<and>
   distinct (map wk_id (rg_workgroups (ap_registry sample_app)))"
proof -
  have "map wk_active (rg_workgroups (ap_registry sample_app)) = [0]" by code_simp
  then show ?thesis using registry_invariant [OF sample_app_reachable] by blast
qed

theorem session_slots_witness:
  "\<exists>x s1 wk. post_session sample_duck sample_cfg sample_time ''s'' ''default'' (Some ''w'') sample_app = (Inr x, s1) \<and>
     find_workgroup ''w'' (ap_registry s1) = Some wk \<and> wk_active wk = 1"
proof -
  let ?p = "post_session sample_duck sample_cfg sample_time ''s'' ''default'' (Some ''w'') sample_app"
  have ok: "is_ok (fst ?p)" "''s'' \<notin> fst ` set (rg_sessions (ap_registry sample_app))"
    "map_option wk_active (find_workgroup ''w'' (ap_registry sample_app)) = Some 0"
    by code_simp+
  obtain x s1 where p: "?p = (Inr x, s1)" using ok(1) by (metis is_okE prod.collapse)
  obtain wk where wk: "find_workgroup ''w'' (ap_registry sample_app) = Some wk" "wk_active wk = 0"
    using ok(3) by blast
  from session_slots [OF sample_app_reachable wk(1) ok(2) p]
  have "find_workgroup ''w'' (ap_registry s1) = Some (wk\<lparr>wk_active := wk_active wk + 1\<rparr>)" by blast
  then show ?thesis using p wk(2)
    by (intro exI [of _ x] exI [of _ s1] exI [of _ "wk\<lparr>wk_active := wk_active wk + 1\<rparr>"]) simp
qed

end
