(* ===== verification/ResultCache.thy ===== *)
theory ResultCache
  imports Prelude
begin

text \<open>
  \<open>pondapi/result_cache.py\<close>: query results kept for a time to live. Times are those of
  \<open>time.monotonic()\<close> in microseconds; the dictionary is a map. The main result compares the
  cache, which forgets an entry only when a lookup finds it expired, with a reference that
  looks at the history of the operations.
\<close>

type_synonym 'a cache = "string \<Rightarrow> ('a \<times> int) option"

definition empty_cache :: "'a cache" where
  "empty_cache = (\<lambda>_. None)"

text \<open>\<open>sha256\<close> is a parameter.\<close>

definition make_key :: "(string \<Rightarrow> string) \<Rightarrow> string \<Rightarrow> string \<Rightarrow> string" where
  "make_key sha256 sql version = sha256 (sql @ [CHR 0x00] @ version)"

definition cache_get :: "int \<Rightarrow> string \<Rightarrow> 'a cache \<Rightarrow> 'a option \<times> 'a cache" where
  "cache_get now key c =
     (case c key of
        None \<Rightarrow> (None, c)
      | Some (data, expires_at) \<Rightarrow>
          if expires_at < now then (None, c(key := None)) else (Some data, c))"

definition cache_set :: "int \<Rightarrow> int \<Rightarrow> string \<Rightarrow> 'a \<Rightarrow> 'a cache \<Rightarrow> 'a cache" where
  "cache_set ttl now key data c = c(key \<mapsto> (data, now + ttl))"

definition cache_invalidate :: "string \<Rightarrow> 'a cache \<Rightarrow> 'a cache" where
  "cache_invalidate key c = c(key := None)"

definition cache_clear :: "'a cache \<Rightarrow> 'a cache" where
  "cache_clear c = empty_cache"

section \<open>The reference\<close>

datatype 'a cache_op = CGet string | CSet string 'a | CInvalidate string | CClear

fun apply_cache :: "int \<Rightarrow> int \<times> 'a cache_op \<Rightarrow> 'a cache \<Rightarrow> 'a cache" where
  "apply_cache ttl (t, CGet k) c = snd (cache_get t k c)"
| "apply_cache ttl (t, CSet k d) c = cache_set ttl t k d c"
| "apply_cache ttl (t, CInvalidate k) c = cache_invalidate k c"
| "apply_cache ttl (t, CClear) c = cache_clear c"

definition run_cache :: "int \<Rightarrow> (int \<times> 'a cache_op) list \<Rightarrow> 'a cache" where
  "run_cache ttl ops = foldl (\<lambda>c op. apply_cache ttl op c) empty_cache ops"

text \<open>The value last stored under a key and the time of it, unless it was taken out since; the
  operations are listed latest first.\<close>

fun last_stored :: "string \<Rightarrow> (int \<times> 'a cache_op) list \<Rightarrow> ('a \<times> int) option" where
  "last_stored k [] = None"
| "last_stored k ((t, CGet j) # ops) = last_stored k ops"
| "last_stored k ((t, CSet j d) # ops) = (if j = k then Some (d, t) else last_stored k ops)"
| "last_stored k ((t, CInvalidate j) # ops) = (if j = k then None else last_stored k ops)"
| "last_stored k ((t, CClear) # ops) = None"

lemma run_cache_snoc [simp]: "run_cache ttl (ops @ [op]) = apply_cache ttl op (run_cache ttl ops)"
  by (simp add: run_cache_def)

text \<open>
  The cache holds what the reference holds, except for entries that had expired by the time of
  the last operation.
\<close>

lemma run_cache_last:
  assumes "sorted (map fst ops)" "\<And>t. t \<in> fst ` set ops \<Longrightarrow> t \<le> now"
  shows "run_cache ttl ops k = map_option (\<lambda>(d, t). (d, t + ttl)) (last_stored k (rev ops)) \<or>
    (run_cache ttl ops k = None \<and> (\<exists>d t. last_stored k (rev ops) = Some (d, t) \<and> t + ttl < now))"
  using assms
proof (induction ops arbitrary: now rule: rev_induct)
  case Nil
  show ?case by (simp add: run_cache_def empty_cache_def)
next
  case (snoc op ops)
  obtain t p where op: "op = (t, p)" by (cases op)
  have "sorted (map fst ops)" "\<And>u. u \<in> fst ` set ops \<Longrightarrow> u \<le> t"
    using snoc.prems(1) by (auto simp: op sorted_append)
  from snoc.IH [OF this] have IH:
    "run_cache ttl ops k = map_option (\<lambda>(d, t). (d, t + ttl)) (last_stored k (rev ops)) \<or>
     (run_cache ttl ops k = None \<and> (\<exists>d u. last_stored k (rev ops) = Some (d, u) \<and> u + ttl < t))" .
  have "t \<le> now" using snoc.prems(2) by (simp add: op)
  then show ?case using IH
    by (cases p) (auto simp: op cache_get_def cache_set_def cache_invalidate_def cache_clear_def
        empty_cache_def split: option.splits; force)+
qed

text \<open>
  The cache is equivalent to its history: after any sequence of operations at
  non-decreasing times, a lookup answers exactly the value last stored under the key, if it was
  not invalidated or cleared since and was stored at most the time to live ago.
\<close>

theorem cache_answers_last_stored:
  assumes "sorted (map fst ops)" and "\<And>t. t \<in> fst ` set ops \<Longrightarrow> t \<le> now"
  shows "fst (cache_get now k (run_cache ttl ops)) =
    (case last_stored k (rev ops) of
       None \<Rightarrow> None
     | Some (d, t) \<Rightarrow> if now \<le> t + ttl then Some d else None)"
  using run_cache_last [OF assms(1), of now ttl k] assms(2)
  by (fastforce simp: cache_get_def split: option.splits)

theorem cache_answers_last_stored_witness:
  "fst (cache_get 400 ''k'' (run_cache 300 [(0, CSet ''k'' (1::nat)), (100, CSet ''k'' 2), (200, CGet ''k'')])) = Some 2"
proof -
  let ?ops = "[(0::int, CSet ''k'' (1::nat)), (100, CSet ''k'' 2), (200, CGet ''k'')]"
  have s: "sorted (map fst ?ops)" by simp
  have t: "t \<le> 400" if "t \<in> fst ` set ?ops" for t using that by auto
  from cache_answers_last_stored [OF s t, of "''k''" 300] show ?thesis by simp
qed

end
