(* ===== verification/AppQuery.thy ===== *)
theory AppQuery
  imports SessionSystem ResultCache Jwt
begin

text \<open>
  The query endpoint of \<open>app.py\<close> with its result cache, its per-session dataset versions, the
  query history and the metrics; and the history endpoint.
\<close>

section \<open>Metrics\<close>

text \<open>The upper bounds of the histogram; the last one is infinity.\<close>

definition bucket_bounds :: "rat option list" where
  "bucket_bounds = [Some (1/1000), Some (5/1000), Some (1/100), Some (25/1000), Some (5/100), Some (1/10),
     Some (25/100), Some (1/2), Some 1, Some (5/2), Some 5, None]"

record metrics =
  mt_buckets :: "nat list"
  mt_sum :: rat
  mt_count :: nat
  mt_units :: rat

definition initial_metrics :: metrics where
  "initial_metrics = \<lparr>mt_buckets = replicate 12 0, mt_sum = 0, mt_count = 0, mt_units = 0\<rparr>"

definition fits :: "rat \<Rightarrow> rat option \<Rightarrow> bool" where
  "fits d bound = (case bound of None \<Rightarrow> True | Some b \<Rightarrow> d \<le> b)"

definition record_query_duration :: "rat \<Rightarrow> metrics \<Rightarrow> metrics" where
  "record_query_duration d mt =
     \<lparr>mt_buckets = map2 (\<lambda>n bound. if fits d bound then n + 1 else n) (mt_buckets mt) bucket_bounds,
      mt_sum = mt_sum mt + d, mt_count = mt_count mt + 1, mt_units = mt_units mt + d * 1000\<rparr>"

text \<open>The running sums of \<open>_render_metrics\<close>.\<close>

fun cumulated :: "nat \<Rightarrow> nat list \<Rightarrow> nat list" where
  "cumulated acc [] = []"
| "cumulated acc (n # ns) = (acc + n) # cumulated (acc + n) ns"

text \<open>\<open>str(x)\<close> of a float is a parameter.\<close>

definition render_metrics :: "(rat \<Rightarrow> string) \<Rightarrow> nat \<Rightarrow> metrics \<Rightarrow> string list" where
  "render_metrics float sessions mt =
     [''# HELP ponddb_sessions_active Number of active PondDB sessions'',
      ''# TYPE ponddb_sessions_active gauge'',
      ''ponddb_sessions_active '' @ float (of_nat sessions),
      ''# HELP ponddb_query_duration_seconds Query execution wall time in seconds'',
      ''# TYPE ponddb_query_duration_seconds histogram'']
     @ map2 (\<lambda>bound n. ''ponddb_query_duration_seconds_bucket{le='' @ [CHR 0x22]
           @ (case bound of None \<Rightarrow> ''+Inf'' | Some b \<Rightarrow> float b) @ [CHR 0x22] @ ''} '' @ float (of_nat n))
         bucket_bounds (cumulated 0 (mt_buckets mt))
     @ [''ponddb_query_duration_seconds_sum '' @ float (mt_sum mt),
        ''ponddb_query_duration_seconds_count '' @ float (of_nat (mt_count mt)),
        ''# HELP ponddb_compute_units_total Total compute units consumed (query ms)'',
        ''# TYPE ponddb_compute_units_total counter'',
        ''ponddb_compute_units_total '' @ float (mt_units mt)]"

section \<open>The query endpoint\<close>

text \<open>\<open>_WRITE_RE\<close>: the first word is a writing keyword.\<close>

definition write_words :: "string list" where
  "write_words = [''insert'', ''update'', ''delete'', ''create'', ''drop'', ''alter'', ''replace'',
     ''truncate'', ''merge'']"

definition is_write :: "string \<Rightarrow> bool" where
  "is_write sql = (\<exists>w \<in> set write_words. rx_match_start (Many is_space # lit_ic w @ [Boundary]) sql)"

record query_request =
  qq_session :: string
  qq_sql :: string
  qq_format :: string

text \<open>\<open>qy_versions\<close> is the dictionary of dataset versions; the store of the manager is the
  metadata store of the server.\<close>

record 'c query_sys =
  qy_manager :: "'c manager"
  qy_versions :: "string \<Rightarrow> int option"
  qy_cache :: "query_result cache"
  qy_metrics :: metrics

text \<open>
  The readings of the clocks during a call: wall clock before and after, monotonic clock of the
  lookup and of the store, the duration of the lookup and of the query.
\<close>

record query_clock =
  qk_start :: instant
  qk_end :: instant
  qk_lookup :: int
  qk_store :: int
  qk_lookup_ms :: rat
  qk_elapsed_ms :: rat

definition log_history ::
    "string \<Rightarrow> string \<Rightarrow> string \<Rightarrow> rat \<Rightarrow> int \<Rightarrow> string \<Rightarrow> string option \<Rightarrow> instant \<Rightarrow> 'c manager \<Rightarrow> 'c manager" where
  "log_history ns tenant sql ms n status err t m =
     m\<lparr>sm_store := map_option (log_query_history
        \<lparr>hr_namespace = ns, hr_tenant_id = tenant, hr_sql = sql, hr_duration_ms = ms, hr_rows_returned = n,
         hr_status = status, hr_error_message = err, hr_executed_at = isoformat t\<rparr>) (sm_store m)\<rparr>"

definition version_of :: "string \<Rightarrow> 'c query_sys \<Rightarrow> int" where
  "version_of sid s = get_or (qy_versions s sid) 0"

definition bump_version :: "string \<Rightarrow> 'c query_sys \<Rightarrow> 'c query_sys" where
  "bump_version sid s = s\<lparr>qy_versions := (qy_versions s)(sid \<mapsto> version_of sid s + 1)\<rparr>"

definition query_key :: "(string \<Rightarrow> string) \<Rightarrow> string \<Rightarrow> string \<Rightarrow> int \<Rightarrow> string" where
  "query_key sha256 sql tenant version = make_key sha256 sql (tenant @ '':'' @ int_str version)"

definition cache_ttl :: int where
  "cache_ttl = 300 * 1000000"

text \<open>The part of the handler after the lookup: run, count, log, store.\<close>

definition run_and_record ::
    "'c duck \<Rightarrow> session_cfg \<Rightarrow> query_clock \<Rightarrow> string \<Rightarrow> string \<Rightarrow> string \<Rightarrow> query_request \<Rightarrow> 'c query_sys \<Rightarrow>
      (string \<times> query_result) http \<times> 'c query_sys" where
  "run_and_record D cfg k tenant ns key req s =
     (case execute_query D cfg (qk_start k) (qk_end k) (qk_elapsed_ms k) (qq_session req) (qq_sql req)
             (qy_manager s) of
        (Inl (BlockedSqlError p), m) \<Rightarrow>
          (Inl (HTTPException 403 (''Blocked SQL pattern '' @ [CHR 0x27] @ p @ [CHR 0x27] @ '': not allowed'')),
           s\<lparr>qy_manager := m\<rparr>)
      | (Inl (KeyError _), m) \<Rightarrow>
          (Inl (HTTPException 404 (''Session not found: '' @ qq_session req)), s\<lparr>qy_manager := m\<rparr>)
      | (Inl (QueryError e), m) \<Rightarrow>
          (Inl (HTTPException 400 e),
           s\<lparr>qy_manager := log_history ns tenant (qq_sql req) 0 0 ''error'' (Some e) (qk_start k) m\<rparr>)
      | (Inl _, m) \<Rightarrow> (Inl server_error, s\<lparr>qy_manager := m\<rparr>)
      | (Inr r, m) \<Rightarrow>
          (Inr (''MISS'', r),
           s\<lparr>qy_manager := log_history ns tenant (qq_sql req) (qs_elapsed_ms r) (qs_rowcount r) ''success''
                              None (qk_start k) m,
             qy_metrics := record_query_duration (qs_elapsed_ms r / 1000) (qy_metrics s),
             qy_cache := (if is_write (qq_sql req) then qy_cache s
                          else cache_set cache_ttl (qk_store k) key r (qy_cache s))\<rparr>))"

text \<open>\<open>POST /query\<close>: the answer is the \<open>X-Cache\<close> header and the payload.\<close>

definition post_query ::
    "'c duck \<Rightarrow> session_cfg \<Rightarrow> (string \<Rightarrow> string) \<Rightarrow> query_clock \<Rightarrow> query_request \<Rightarrow> claims \<Rightarrow> 'c query_sys \<Rightarrow>
      (string \<times> query_result) http \<times> 'c query_sys" where
  "post_query D cfg sha256 k req auth s =
     (let sid = qq_session req; sql = qq_sql req; tenant = get_or (c_tenant_id auth) ''default'' in
      if 50000 < int (length sql) then (Inl (HTTPException 422 ''Unprocessable Entity''), s)
      else if qq_format req \<noteq> ''json''
      then (Inl (HTTPException 400 (''Unsupported format: '' @ qq_format req)), s)
      else if blank sql then (Inl (HTTPException 400 ''SQL must not be empty''), s)
      else
        (case get_session sid (qy_manager s) of
           Inl _ \<Rightarrow> (Inl (HTTPException 404 (''Session not found: '' @ sid)), s)
         | Inr info \<Rightarrow>
             (case (case c_workgroup_id auth of None \<Rightarrow> Inr ()
                    | Some w \<Rightarrow> check_workgroup_access sid (Some w) (qy_manager s)) of
                Inl (WorkgroupAccessError e) \<Rightarrow> (Inl (HTTPException 403 e), s)
              | Inl _ \<Rightarrow> (Inl server_error, s)
              | Inr _ \<Rightarrow>
                  (let s1 = (if is_write sql then bump_version sid s else s);
                       key = query_key sha256 sql tenant (version_of sid s1)
                   in if is_write sql then run_and_record D cfg k tenant (si_namespace info) key req s1
                      else
                        (case cache_get (qk_lookup k) key (qy_cache s1) of
                           (Some data, c) \<Rightarrow>
                             (Inr (''HIT'', data\<lparr>qs_elapsed_ms := qk_lookup_ms k\<rparr>), s1\<lparr>qy_cache := c\<rparr>)
                         | (None, c) \<Rightarrow>
                             run_and_record D cfg k tenant (si_namespace info) key req (s1\<lparr>qy_cache := c\<rparr>))))))"

section \<open>The history endpoint\<close>

text \<open>
  The bounds are parsed by \<open>datetime.fromisoformat\<close> after the blanks became plus signs and \<open>Z\<close>
  the offset zero, and stored times compare with their \<open>isoformat\<close>; \<open>read_ts\<close> is that
  conversion, \<open>None\<close> a \<open>ValueError\<close> (its text is a parameter of the model as well).
\<close>

definition restore_ts :: "string \<Rightarrow> string" where
  "restore_ts ts = replace_char CHR ''Z'' ''+00:00'' (replace_char CHR '' '' ''+'' ts)"

definition history_statuses :: "string list" where
  "history_statuses = [''success'', ''error'']"

definition get_history ::
    "(string \<Rightarrow> string + string) \<Rightarrow> claims \<Rightarrow> string option \<Rightarrow> string option \<Rightarrow> string option \<Rightarrow> int \<Rightarrow> int \<Rightarrow>
      meta_db \<Rightarrow> history_row list http" where
  "get_history read_ts auth status start until limit offset db =
     (let tenant = get_or (c_tenant_id auth) ''default'';
          parse = (\<lambda>ts. case ts of None \<Rightarrow> Inr None | Some x \<Rightarrow> map_sum id Some (read_ts (restore_ts x)))
      in if (case status of None \<Rightarrow> False | Some st \<Rightarrow> st \<notin> set history_statuses)
         then Inl (HTTPException 400 (''Invalid status: '' @ py_repr (the status) @ ''. Must be ''
                @ [CHR 0x27] @ ''success'' @ [CHR 0x27] @ '' or '' @ [CHR 0x27] @ ''error'' @ [CHR 0x27]))
         else
           (case parse start of
              Inl e \<Rightarrow> Inl (HTTPException 400 (''Invalid date format: '' @ e))
            | Inr a \<Rightarrow>
                (case parse until of
                   Inl e \<Rightarrow> Inl (HTTPException 400 (''Invalid date format: '' @ e))
                 | Inr b \<Rightarrow> Inr (get_query_history None (Some tenant) status a b limit offset db))))"

section \<open>What the cache answers\<close>

lemma run_and_record_ok:
  assumes "run_and_record D cfg k tenant ns key req s = (Inr (x, r), s')"
  shows "x = ''MISS''" "check_sql (qq_sql req) = None" "qy_versions s' = qy_versions s"
    "\<not> is_write (qq_sql req) \<Longrightarrow> qy_cache s' key = Some (r, qk_store k + cache_ttl)"
proof -
  obtain e m where p: "execute_query D cfg (qk_start k) (qk_end k) (qk_elapsed_ms k) (qq_session req) (qq_sql req)
      (qy_manager s) = (e, m)" by (metis prod.collapse)
  have e: "e = Inr r" and out: "x = ''MISS''" "qy_versions s' = qy_versions s"
    "\<not> is_write (qq_sql req) \<Longrightarrow> qy_cache s' key = Some (r, qk_store k + cache_ttl)"
    using assms p
    by (auto simp: run_and_record_def cache_set_def split: sum.splits session_error.splits)
  from p e show "check_sql (qq_sql req) = None"
    by (auto simp: execute_query_def split: option.splits if_splits)
  from out show "x = ''MISS''" "qy_versions s' = qy_versions s"
    "\<not> is_write (qq_sql req) \<Longrightarrow> qy_cache s' key = Some (r, qk_store k + cache_ttl)" by blast+
qed

lemma post_query_ok:
  assumes "post_query D cfg H k req auth s = (Inr (x, r), s')"
  shows "\<exists>ss. find_sess (qq_session req) (qy_manager s) = Some ss \<and>
      (\<forall>w. c_workgroup_id auth = Some w \<longrightarrow> s_workgroup_id ss = w)"
    and "int (length (qq_sql req)) \<le> 50000" "qq_format req = ''json''" "\<not> blank (qq_sql req)"
  using assms
  by (auto simp: post_query_def get_session_def check_workgroup_access_def Let_def
      split: if_splits sum.splits option.splits session_error.splits)

lemma post_read:
  assumes "find_sess (qq_session req) (qy_manager s) = Some ss"
    and "\<forall>w. c_workgroup_id auth = Some w \<longrightarrow> s_workgroup_id ss = w"
    and "int (length (qq_sql req)) \<le> 50000" "qq_format req = ''json''" "\<not> blank (qq_sql req)"
    and "\<not> is_write (qq_sql req)"
  shows "post_query D cfg H k req auth s =
    (let key = query_key H (qq_sql req) (get_or (c_tenant_id auth) ''default'') (version_of (qq_session req) s)
     in case cache_get (qk_lookup k) key (qy_cache s) of
          (Some data, c) \<Rightarrow> (Inr (''HIT'', data\<lparr>qs_elapsed_ms := qk_lookup_ms k\<rparr>), s\<lparr>qy_cache := c\<rparr>)
        | (None, c) \<Rightarrow> run_and_record D cfg k (get_or (c_tenant_id auth) ''default'') (s_namespace ss) key req
                          (s\<lparr>qy_cache := c\<rparr>))"
proof -
  have a: "(case c_workgroup_id auth of None \<Rightarrow> Inr ()
      | Some w \<Rightarrow> check_workgroup_access (qq_session req) (Some w) (qy_manager s)) = Inr ()"
    using assms(1,2) by (auto simp: check_workgroup_access_def split: option.splits)
  have n: "si_namespace (session_info_of ss) = s_namespace ss" by (simp add: session_info_of_def)
  show ?thesis
    unfolding post_query_def Let_def get_session_def assms(1) option.case sum.case a n
    using assms(3-6) by simp
qed


definition query_claims :: "string option \<Rightarrow> claims" where
  "query_claims w = no_claims\<lparr>c_workgroup_id := w, c_tenant_id := Some ''t''\<rparr>"

definition open_session :: "string \<Rightarrow> string list session" where
  "open_session sid =
     \<lparr>s_id = sid, s_status = ACTIVE, s_created_at = sample_time, s_last_active = sample_time, s_namespace = ''n1'',
      s_conn = Some [access_off, config_lock], s_workgroup_id = ''w1'', s_suspended_at = None\<rparr>"

definition sample_query_sys :: "string list query_sys" where
  "sample_query_sys =
     \<lparr>qy_manager = \<lparr>sm_sessions = [open_session ''s1'', open_session ''s2''], sm_store = Some empty_meta\<rparr>,
      qy_versions = (\<lambda>_. None), qy_cache = (\<lambda>_. None), qy_metrics = initial_metrics\<rparr>"

definition sample_clock :: "instant \<Rightarrow> query_clock" where
  "sample_clock t =
     \<lparr>qk_start = t, qk_end = t + 5, qk_lookup = t, qk_store = t + 5, qk_lookup_ms = 1, qk_elapsed_ms = 7\<rparr>"

definition sample_query :: query_request where
  "sample_query = \<lparr>qq_session = ''s1'', qq_sql = ''a'', qq_format = ''json''\<rparr>"


section \<open>The history\<close>

lemma execute_query_history:
  assumes "execute_query D cfg t t2 ms sid sql m = (r, m')" "sm_store m = Some db"
  shows "\<exists>db'. sm_store m' = Some db' \<and> md_history db' = md_history db"
  using assms
  by (auto simp: execute_query_def resume_session_def run_in_session_def set_sess_def save_sess_def
      save_session_def Let_def split: option.splits if_splits sum.splits prod.splits)



end
