(* ===== verification/Invites.thy ===== *)
theory Invites
  imports MetaStore Jwt IsoParse
begin

text \<open>
  Invitations: \<open>store/invite_store.py\<close> and \<open>api/invite_routes.py\<close>. The e-mail of a new
  invitation is in InviteMail; every exception it raises is swallowed by the handler. The audit events of
  these handlers are logged with the pool \<open>None\<close>, which drops them.
\<close>

section \<open>The store\<close>

text \<open>\<open>None\<close>: the end of the invitation is no \<open>datetime\<close> (\<open>OverflowError\<close>), or the token is
  taken (\<open>IntegrityError\<close>).\<close>

definition create_invite ::
    "instant \<Rightarrow> string \<Rightarrow> string \<Rightarrow> string \<Rightarrow> string \<Rightarrow> string \<Rightarrow> int \<Rightarrow> meta_db \<Rightarrow> invite_row option \<times> meta_db" where
  "create_invite t token email tenant created_by role hours db =
     (let expires = t + hours * 3600000000;
          row = \<lparr>ir_token = token, ir_email = lower email, ir_tenant_id = tenant, ir_role = role,
                 ir_status = ''pending'', ir_created_by = created_by, ir_created_at = isoformat t,
                 ir_expires_at = isoformat expires, ir_accepted_at = None\<rparr>
      in if \<not> valid_instant expires \<or> token \<in> ir_token ` set (md_invites db) then (None, db)
         else (Some row, db\<lparr>md_invites := md_invites db @ [row]\<rparr>))"

definition get_invite :: "string \<Rightarrow> meta_db \<Rightarrow> invite_row option" where
  "get_invite token db = find (\<lambda>r. ir_token r = token) (md_invites db)"

definition newest_invite :: "invite_row \<Rightarrow> invite_row \<Rightarrow> bool" where
  "newest_invite r r' = (ir_created_at r' \<le> ir_created_at r)"

definition list_invites :: "string \<Rightarrow> meta_db \<Rightarrow> invite_row list" where
  "list_invites tenant db = sort_by newest_invite (filter (\<lambda>r. ir_tenant_id r = tenant) (md_invites db))"

datatype invite_error = InviteNotFound string | BadTimestamp string | AlreadyAccepted | EmailForbidden

definition invite_error_text :: "invite_error \<Rightarrow> string" where
  "invite_error_text e =
     (case e of
        InviteNotFound token \<Rightarrow> ''Invite token not found: '' @ token
      | BadTimestamp x \<Rightarrow> ''Invalid isoformat string: '' @ py_repr x
      | AlreadyAccepted \<Rightarrow> ''Already accepted: conflict''
      | EmailForbidden \<Rightarrow> ''Email forbidden: does not match invite'')"

definition revoke_invite :: "string \<Rightarrow> meta_db \<Rightarrow> (invite_error + unit) \<times> meta_db" where
  "revoke_invite token db =
     (let db' = db\<lparr>md_invites := update_where (\<lambda>r. ir_token r = token) (\<lambda>r. r\<lparr>ir_status := ''revoked''\<rparr>)
                                   (md_invites db)\<rparr>
      in if count_where (\<lambda>r. ir_token r = token) (md_invites db) = 0
         then (Inl (InviteNotFound token), db') else (Inr (), db'))"

text \<open>The result is a dictionary with a key \<open>error\<close>, or the accepted invitation.\<close>

datatype accept_result = InviteExpired | InviteRevoked | Accepted invite_row

definition mark_accepted :: "instant \<Rightarrow> invite_row \<Rightarrow> invite_row" where
  "mark_accepted t r = r\<lparr>ir_status := ''accepted'', ir_accepted_at := Some (isoformat t)\<rparr>"

definition accept_invite ::
    "instant \<Rightarrow> string \<Rightarrow> string \<Rightarrow> meta_db \<Rightarrow> (invite_error + accept_result) \<times> meta_db" where
  "accept_invite t token email db =
     (case get_invite token db of
        None \<Rightarrow> (Inl (InviteNotFound token), db)
      | Some row \<Rightarrow>
          (case fromisoformat (ir_expires_at row) of
             None \<Rightarrow> (Inl (BadTimestamp (ir_expires_at row)), db)
           | Some expires \<Rightarrow>
               if expires < t then (Inr InviteExpired, db)
               else if ir_status row = ''accepted'' then (Inl AlreadyAccepted, db)
               else if ir_status row = ''revoked'' then (Inr InviteRevoked, db)
               else if lower (ir_email row) \<noteq> lower email then (Inl EmailForbidden, db)
               else (Inr (Accepted (mark_accepted t row)),
                     db\<lparr>md_invites := update_where (\<lambda>r. ir_token r = token) (mark_accepted t)
                                       (md_invites db)\<rparr>)))"

section \<open>The handlers\<close>

text \<open>\<open>_EMAIL_RE\<close>\<close>

definition email_char :: "char \<Rightarrow> bool" where
  "email_char c = (c \<noteq> CHR ''@'' \<and> \<not> is_space c)"

definition email_pattern :: pattern where
  "email_pattern =
     [Bol, One email_char, Many email_char, One (\<lambda>c. c = CHR ''@''), One email_char, Many email_char,
      One (\<lambda>c. c = CHR ''.''), One email_char, Many email_char, Eol]"

definition valid_email :: "string \<Rightarrow> bool" where
  "valid_email s = rx_match_start email_pattern s"

record invite_request =
  iq_email :: string
  iq_role :: string
  iq_expires_in_hours :: int

definition create_invite_route ::
    "auth_deps \<Rightarrow> auth_env \<Rightarrow> string list \<Rightarrow> int \<Rightarrow> instant \<Rightarrow> string \<Rightarrow> request \<Rightarrow> invite_request \<Rightarrow> meta_db \<Rightarrow>
      invite_row http \<times> meta_db" where
  "create_invite_route D env bl now t token rq b db =
     (case require_admin D env bl now rq of
        Inl e \<Rightarrow> (Inl e, db)
      | Inr c \<Rightarrow>
          if \<not> valid_email (iq_email b) then (Inl (HTTPException 422 ''Unprocessable Entity''), db)
          else
            (let tenant = get_or (c_tenant_id c) ''default''; created_by = get_or (c_sub c) tenant in
             case create_invite t token (iq_email b) tenant created_by (iq_role b)
                    (iq_expires_in_hours b) db of
               (None, db') \<Rightarrow> (Inl server_error, db')
             | (Some row, db') \<Rightarrow> (Inr row, db')))"

definition list_invites_route ::
    "auth_deps \<Rightarrow> auth_env \<Rightarrow> string list \<Rightarrow> int \<Rightarrow> request \<Rightarrow> meta_db \<Rightarrow> invite_row list http" where
  "list_invites_route D env bl now rq db =
     map_sum id (\<lambda>c. list_invites (get_or (c_tenant_id c) ''default'') db) (require_admin D env bl now rq)"

definition invite_missing :: "string \<Rightarrow> http_exc" where
  "invite_missing token = HTTPException 404 (''Invite not found: '' @ token)"

definition get_invite_route ::
    "auth_deps \<Rightarrow> auth_env \<Rightarrow> string list \<Rightarrow> int \<Rightarrow> request \<Rightarrow> string \<Rightarrow> meta_db \<Rightarrow> invite_row http" where
  "get_invite_route D env bl now rq token db =
     (case require_admin D env bl now rq of
        Inl e \<Rightarrow> Inl e
      | Inr _ \<Rightarrow> (case get_invite token db of None \<Rightarrow> Inl (invite_missing token) | Some r \<Rightarrow> Inr r))"

definition revoke_invite_route ::
    "auth_deps \<Rightarrow> auth_env \<Rightarrow> string list \<Rightarrow> int \<Rightarrow> request \<Rightarrow> string \<Rightarrow> meta_db \<Rightarrow> string http \<times> meta_db" where
  "revoke_invite_route D env bl now rq token db =
     (case require_admin D env bl now rq of
        Inl e \<Rightarrow> (Inl e, db)
      | Inr _ \<Rightarrow>
          (case revoke_invite token db of
             (Inl _, db') \<Rightarrow> (Inl (invite_missing token), db')
           | (Inr _, db') \<Rightarrow> (Inr ''revoked'', db')))"

text \<open>The handler chooses the status by words in the text of the exception.\<close>

definition accept_failure :: "invite_error \<Rightarrow> http_exc" where
  "accept_failure e =
     (let text = invite_error_text e; msg = lower text in
      if contains_sub ''already'' msg \<or> contains_sub ''conflict'' msg then HTTPException 409 text
      else if contains_sub ''email'' msg \<or> contains_sub ''forbidden'' msg then HTTPException 403 text
      else if contains_sub ''revoked'' msg then HTTPException 410 text
      else HTTPException 400 text)"

record invite_accepted =
  ia_tenant_id :: string
  ia_access_token :: string
  ia_status :: string
  ia_email :: string

definition accept_invite_route ::
    "auth_deps \<Rightarrow> auth_env \<Rightarrow> int \<Rightarrow> instant \<Rightarrow> string \<Rightarrow> string \<Rightarrow> string \<Rightarrow> meta_db \<Rightarrow>
      invite_accepted http \<times> meta_db" where
  "accept_invite_route D env now t jti token email db =
     (if \<not> valid_email email then (Inl (HTTPException 422 ''Unprocessable Entity''), db)
      else if get_invite token db = None then (Inl (invite_missing token), db)
      else
        (case accept_invite t token email db of
           (Inl e, db') \<Rightarrow> (Inl (accept_failure e), db')
         | (Inr InviteExpired, db') \<Rightarrow> (Inl (HTTPException 410 ''Invite has expired''), db')
         | (Inr InviteRevoked, db') \<Rightarrow> (Inl (HTTPException 410 ''Invite has been revoked''), db')
         | (Inr (Accepted row), db') \<Rightarrow>
             (case create_access_token (ad_jwt D) env now jti (ir_tenant_id row) None (Some (ir_role row)) of
                Inl e \<Rightarrow> (Inl e, db')
              | Inr access \<Rightarrow>
                  (Inr \<lparr>ia_tenant_id = ir_tenant_id row, ia_access_token = access,
                        ia_status = ir_status row, ia_email = ir_email row\<rparr>, db'))))"

section \<open>An invitation is accepted once\<close>

text \<open>
  A run of the four changing handlers from an empty store, with any callers, clocks and
  revocation lists; it collects the acceptances that were answered with a token.
\<close>

type_synonym acceptance = "instant \<times> string \<times> string \<times> invite_accepted"

inductive invite_run :: "auth_deps \<Rightarrow> auth_env \<Rightarrow> acceptance list \<Rightarrow> meta_db \<Rightarrow> bool" for D env where
  start: "invite_run D env [] empty_meta"
| created: "invite_run D env acc db \<Longrightarrow> create_invite_route D env bl now t token rq b db = (r, db') \<Longrightarrow>
    invite_run D env acc db'"
| revoked: "invite_run D env acc db \<Longrightarrow> revoke_invite_route D env bl now rq token db = (r', db') \<Longrightarrow>
    invite_run D env acc db'"
| refused: "invite_run D env acc db \<Longrightarrow>
    accept_invite_route D env now t jti token email db = (Inl e, db') \<Longrightarrow> invite_run D env acc db'"
| accepted: "invite_run D env acc db \<Longrightarrow>
    accept_invite_route D env now t jti token email db = (Inr a, db') \<Longrightarrow>
    invite_run D env (acc @ [(t, token, email, a)]) db'"

definition by_admin :: "auth_deps \<Rightarrow> auth_env \<Rightarrow> invite_row \<Rightarrow> bool" where
  "by_admin D env row =
     (\<exists>bl now rq c. require_admin D env bl now rq = Inr c \<and> ir_tenant_id row = get_or (c_tenant_id c) ''default'')"

text \<open>What the acceptance and the row of the invitation have in common afterwards.\<close>

definition accepted_from :: "auth_deps \<Rightarrow> auth_env \<Rightarrow> acceptance \<Rightarrow> invite_row \<Rightarrow> bool" where
  "accepted_from D env x row =
     (case x of (t, token, email, a) \<Rightarrow>
        ir_token row = token \<and> lower email = lower (ir_email row) \<and>
        (ir_status row = ''accepted'' \<or> ir_status row = ''revoked'') \<and>
        ir_accepted_at row = Some (isoformat t) \<and> (\<exists>e. ir_expires_at row = isoformat e \<and> t \<le> e) \<and>
        ia_tenant_id a = ir_tenant_id row \<and> ia_email a = ir_email row \<and> ia_status a = ''accepted'' \<and>
        (\<exists>now jti. create_access_token (ad_jwt D) env now jti (ir_tenant_id row) None (Some (ir_role row)) =
           Inr (ia_access_token a)))"

definition invite_row_ok :: "auth_deps \<Rightarrow> auth_env \<Rightarrow> invite_row \<Rightarrow> bool" where
  "invite_row_ok D env row =
     (by_admin D env row \<and> (ir_status row = ''pending'' \<or> ir_status row = ''accepted'' \<or> ir_status row = ''revoked'') \<and>
      (\<exists>e. valid_instant e \<and> ir_expires_at row = isoformat e))"

definition invites_inv :: "auth_deps \<Rightarrow> auth_env \<Rightarrow> acceptance list \<Rightarrow> meta_db \<Rightarrow> bool" where
  "invites_inv D env acc db =
     (distinct (map ir_token (md_invites db)) \<and> (\<forall>row \<in> set (md_invites db). invite_row_ok D env row) \<and>
      distinct (map (fst \<circ> snd) acc) \<and>
      (\<forall>x \<in> set acc. \<exists>row \<in> set (md_invites db). accepted_from D env x row))"

lemma invites_update:
  assumes "invites_inv D env acc db" and "\<And>r. ir_token (f r) = ir_token r"
    and "\<And>r. r \<in> set (md_invites db) \<Longrightarrow> invite_row_ok D env r \<Longrightarrow> invite_row_ok D env (f r)"
    and "\<And>x r. x \<in> set acc \<Longrightarrow> r \<in> set (md_invites db) \<Longrightarrow> ir_token r = token \<Longrightarrow> accepted_from D env x r \<Longrightarrow>
      accepted_from D env x (f r)"
  shows "invites_inv D env acc (db\<lparr>md_invites := update_where (\<lambda>r. ir_token r = token) f (md_invites db)\<rparr>)"
proof -
  let ?rows = "update_where (\<lambda>r. ir_token r = token) f (md_invites db)"
  have keys: "map ir_token ?rows = map ir_token (md_invites db)"
    by (rule map_update_where) (rule assms(2))
  have rows: "invite_row_ok D env r" if "r \<in> set ?rows" for r
    using that assms(1,3) by (auto simp: set_update_where invites_inv_def)
  have acc: "\<exists>r \<in> set ?rows. accepted_from D env x r" if x: "x \<in> set acc" for x
  proof -
    obtain r where r: "r \<in> set (md_invites db)" "accepted_from D env x r"
      using assms(1) x by (auto simp: invites_inv_def)
    then have "(if ir_token r = token then f r else r) \<in> set ?rows" by (auto simp: set_update_where)
    moreover have "accepted_from D env x (if ir_token r = token then f r else r)"
      using r assms(4) [OF x] by simp
    ultimately show ?thesis by blast
  qed
  show ?thesis using assms(1) rows acc by (simp add: invites_inv_def keys)
qed

lemma create_invite_effect:
  assumes "create_invite_route D env bl now t token rq b db = (r, db')"
  shows "db' = db \<or> (\<exists>row. db' = db\<lparr>md_invites := md_invites db @ [row]\<rparr> \<and> invite_row_ok D env row \<and>
    ir_token row \<notin> ir_token ` set (md_invites db))"
proof (cases "db' = db")
  case False
  then obtain c where c: "require_admin D env bl now rq = Inr c"
    using assms by (auto simp: create_invite_route_def split: sum.splits)
  let ?tenant = "get_or (c_tenant_id c) ''default''"
  from assms False c obtain row where
    row: "create_invite t token (iq_email b) ?tenant (get_or (c_sub c) ?tenant) (iq_role b)
            (iq_expires_in_hours b) db = (Some row, db')"
    by (auto simp: create_invite_route_def create_invite_def Let_def split: if_splits)
  then have "db' = db\<lparr>md_invites := md_invites db @ [row]\<rparr>" "ir_token row \<notin> ir_token ` set (md_invites db)"
    "ir_tenant_id row = ?tenant" "ir_status row = ''pending''"
    "\<exists>e. valid_instant e \<and> ir_expires_at row = isoformat e"
    by (auto simp: create_invite_def Let_def split: if_splits)
  moreover have "by_admin D env row" using c \<open>ir_tenant_id row = ?tenant\<close> unfolding by_admin_def by blast
  ultimately show ?thesis unfolding invite_row_ok_def by blast
qed simp

lemma accept_invite_effect:
  assumes "accept_invite_route D env now t jti token email db = (r, db')"
  shows "(db' = db \<and> \<not> is_ok r) \<or>
    (\<exists>row e. get_invite token db = Some row \<and> fromisoformat (ir_expires_at row) = Some e \<and> t \<le> e \<and>
       ir_status row \<noteq> ''accepted'' \<and> ir_status row \<noteq> ''revoked'' \<and> lower (ir_email row) = lower email \<and>
       db' = db\<lparr>md_invites := update_where (\<lambda>r. ir_token r = token) (mark_accepted t) (md_invites db)\<rparr> \<and>
       (\<forall>a. r = Inr a \<longrightarrow> ia_tenant_id a = ir_tenant_id row \<and> ia_email a = ir_email row \<and> ia_status a = ''accepted'' \<and>
          create_access_token (ad_jwt D) env now jti (ir_tenant_id row) None (Some (ir_role row)) =
            Inr (ia_access_token a)))"
proof -
  have "(\<exists>e. accept_invite t token email db = (Inl e, db)) \<or> accept_invite t token email db = (Inr InviteExpired, db) \<or>
      accept_invite t token email db = (Inr InviteRevoked, db) \<or>
      (\<exists>row e. get_invite token db = Some row \<and> fromisoformat (ir_expires_at row) = Some e \<and> t \<le> e \<and>
         ir_status row \<noteq> ''accepted'' \<and> ir_status row \<noteq> ''revoked'' \<and> lower (ir_email row) = lower email \<and>
         accept_invite t token email db = (Inr (Accepted (mark_accepted t row)),
           db\<lparr>md_invites := update_where (\<lambda>r. ir_token r = token) (mark_accepted t) (md_invites db)\<rparr>))"
    by (cases "get_invite token db"; cases "fromisoformat (ir_expires_at (the (get_invite token db)))")
      (simp_all add: accept_invite_def)
  then consider (same) "accept_invite t token email db = (Inr InviteExpired, db)"
    | (same2) "accept_invite t token email db = (Inr InviteRevoked, db)"
    | (err) e where "accept_invite t token email db = (Inl e, db)"
    | (mark) row e where "get_invite token db = Some row" "fromisoformat (ir_expires_at row) = Some e" "t \<le> e"
        "ir_status row \<noteq> ''accepted''" "ir_status row \<noteq> ''revoked''" "lower (ir_email row) = lower email"
        "accept_invite t token email db = (Inr (Accepted (mark_accepted t row)),
           db\<lparr>md_invites := update_where (\<lambda>r. ir_token r = token) (mark_accepted t) (md_invites db)\<rparr>)"
    by blast
  then show ?thesis
  proof cases
    case mark
    with assms have "db' = db \<and> \<not> is_ok r \<or>
        db' = db\<lparr>md_invites := update_where (\<lambda>r. ir_token r = token) (mark_accepted t) (md_invites db)\<rparr> \<and>
        (\<forall>a. r = Inr a \<longrightarrow> ia_tenant_id a = ir_tenant_id row \<and> ia_email a = ir_email row \<and> ia_status a = ''accepted'' \<and>
          create_access_token (ad_jwt D) env now jti (ir_tenant_id row) None (Some (ir_role row)) =
            Inr (ia_access_token a))"
      by (auto simp: accept_invite_route_def mark_accepted_def split: if_splits sum.splits)
    with mark(1-6) show ?thesis by blast
  qed (use assms in \<open>auto simp: accept_invite_route_def split: if_splits\<close>)
qed

lemma invites_inv_created:
  assumes "invites_inv D env acc db" "create_invite_route D env bl now t token rq b db = (r, db')"
  shows "invites_inv D env acc db'"
  using create_invite_effect [OF assms(2)] assms(1) by (fastforce simp: invites_inv_def)

lemma invites_inv_revoked:
  assumes "invites_inv D env acc db" "revoke_invite_route D env bl now rq token db = (r, db')"
  shows "invites_inv D env acc db'"
proof -
  have "db' = db \<or> db' = db\<lparr>md_invites := update_where (\<lambda>r. ir_token r = token)
      (\<lambda>r. r\<lparr>ir_status := ''revoked''\<rparr>) (md_invites db)\<rparr>"
    using assms(2) by (auto simp: revoke_invite_route_def revoke_invite_def Let_def split: sum.splits if_splits)
  moreover have "invites_inv D env acc (db\<lparr>md_invites := update_where (\<lambda>r. ir_token r = token)
      (\<lambda>r. r\<lparr>ir_status := ''revoked''\<rparr>) (md_invites db)\<rparr>)"
    by (rule invites_update [OF assms(1)])
      (auto simp: invite_row_ok_def by_admin_def accepted_from_def split: prod.splits)
  ultimately show ?thesis using assms(1) by blast
qed

text \<open>An invitation that can still be accepted has not been accepted before.\<close>

lemma pending_not_accepted:
  assumes "invites_inv D env acc db" "get_invite token db = Some row"
    and "ir_status row \<noteq> ''accepted''" "ir_status row \<noteq> ''revoked''" and "x \<in> set acc"
  shows "fst (snd x) \<noteq> token"
proof
  assume tok: "fst (snd x) = token"
  obtain r where r: "r \<in> set (md_invites db)" "accepted_from D env x r"
    using assms(1,5) by (auto simp: invites_inv_def)
  have row: "row \<in> set (md_invites db)" "ir_token row = token"
    using find_SomeD [OF assms(2) [unfolded get_invite_def]] by blast+
  have "ir_token r = token" using r(2) tok by (auto simp: accepted_from_def)
  then have "r = row"
    using distinct_keyD [of ir_token "md_invites db" r row] assms(1) r(1) row by (simp add: invites_inv_def)
  then show False using r(2) assms(3,4) by (auto simp: accepted_from_def)
qed

lemma invites_inv_marked:
  assumes "invites_inv D env acc db" "get_invite token db = Some row"
    and "ir_status row \<noteq> ''accepted''" "ir_status row \<noteq> ''revoked''"
  shows "invites_inv D env acc
    (db\<lparr>md_invites := update_where (\<lambda>r. ir_token r = token) (mark_accepted t) (md_invites db)\<rparr>)"
proof (rule invites_update [OF assms(1)])
  show "accepted_from D env x (mark_accepted t r)"
    if "x \<in> set acc" "r \<in> set (md_invites db)" "ir_token r = token" "accepted_from D env x r" for x r
    using pending_not_accepted [OF assms that(1)] that(3,4) by (auto simp: accepted_from_def)
qed (auto simp: mark_accepted_def invite_row_ok_def by_admin_def)

lemma invites_inv_accepted:
  assumes inv: "invites_inv D env acc db"
    and ok: "accept_invite_route D env now t jti token email db = (Inr a, db')"
  shows "invites_inv D env (acc @ [(t, token, email, a)]) db'"
proof -
  from accept_invite_effect [OF ok] obtain row e where
    row: "get_invite token db = Some row" "fromisoformat (ir_expires_at row) = Some e" "t \<le> e"
      "ir_status row \<noteq> ''accepted''" "ir_status row \<noteq> ''revoked''" "lower (ir_email row) = lower email"
    and db': "db' = db\<lparr>md_invites := update_where (\<lambda>r. ir_token r = token) (mark_accepted t) (md_invites db)\<rparr>"
    and a: "ia_tenant_id a = ir_tenant_id row" "ia_email a = ir_email row" "ia_status a = ''accepted''"
      "create_access_token (ad_jwt D) env now jti (ir_tenant_id row) None (Some (ir_role row)) =
        Inr (ia_access_token a)"
    by auto
  have inv': "invites_inv D env acc db'"
    unfolding db' by (rule invites_inv_marked [OF inv row(1,4,5)])
  have in_db: "row \<in> set (md_invites db)" "ir_token row = token"
    using find_SomeD [OF row(1) [unfolded get_invite_def]] by blast+
  then obtain e' where e': "valid_instant e'" "ir_expires_at row = isoformat e'"
    using inv by (auto simp: invites_inv_def invite_row_ok_def)
  with row(2,3) have "t \<le> e'" by (simp add: read_isoformat)
  then have "accepted_from D env (t, token, email, a) (mark_accepted t row)"
    using in_db(2) row(6) a e'(2) unfolding accepted_from_def mark_accepted_def by auto
  moreover have "mark_accepted t row \<in> set (md_invites db')"
    using in_db by (auto simp: db' set_update_where)
  moreover have "token \<notin> (fst \<circ> snd) ` set acc"
    using pending_not_accepted [OF inv row(1,4,5)] by fastforce
  ultimately show ?thesis using inv' by (auto simp: invites_inv_def)
qed

lemma invite_run_inv: "invite_run D env acc db \<Longrightarrow> invites_inv D env acc db"
proof (induction rule: invite_run.induct)
  case start
  then show ?case by (simp add: invites_inv_def empty_meta_def)
next
  case (created acc db bl now t token rq b r db')
  then show ?case by (rule_tac invites_inv_created)
next
  case (revoked acc db bl now rq token r' db')
  then show ?case by (rule_tac invites_inv_revoked)
next
  case (refused acc db now t jti token email e db')
  from accept_invite_effect [OF refused(2)] refused.IH show ?case
    using invites_inv_marked by fastforce
next
  case (accepted acc db now t jti token email a db')
  then show ?case by (rule_tac invites_inv_accepted)
qed

text \<open>
  Property C24. An invitation is accepted at most once, whatever callers do; only with the invited
  e-mail address (in any case of letters), not after its end, and never after a revocation; the
  answered token carries the tenant and the role of the invitation; and every invitation was
  created by an administrator, for that administrator's tenant.
\<close>

theorem invite_accepted_once:
  assumes "invite_run D env acc db"
  shows "distinct (map (fst \<circ> snd) acc) \<and>
    (\<forall>row \<in> set (md_invites db). \<exists>bl now rq c. require_admin D env bl now rq = Inr c \<and>
       ir_tenant_id row = get_or (c_tenant_id c) ''default'') \<and>
    (\<forall>(t, token, email, a) \<in> set acc. \<exists>row \<in> set (md_invites db). \<exists>e now jti.
       ir_token row = token \<and> lower (ir_email row) = lower email \<and>
       ir_accepted_at row = Some (isoformat t) \<and> ir_expires_at row = isoformat e \<and> t \<le> e \<and>
       create_access_token (ad_jwt D) env now jti (ir_tenant_id row) None (Some (ir_role row)) =
         Inr (ia_access_token a) \<and>
       (\<forall>t' now' jti' email'. \<not> is_ok (fst (accept_invite_route D env now' t' jti' token email' db))))"
proof -
  have inv: "invites_inv D env acc db" by (rule invite_run_inv [OF assms])
  have once: "\<not> is_ok (fst (accept_invite_route D env now' t' jti' token email' db))"
    if "(t, token, email, a) \<in> set acc" for t token email a t' now' jti' email'
  proof
    assume "is_ok (fst (accept_invite_route D env now' t' jti' token email' db))"
    then obtain a' db' where "accept_invite_route D env now' t' jti' token email' db = (Inr a', db')"
      by (metis is_okE prod.collapse)
    from accept_invite_effect [OF this] pending_not_accepted [OF inv _ _ _ that]
    show False by auto
  qed
  have "\<exists>row \<in> set (md_invites db). \<exists>e now jti.
       ir_token row = token \<and> lower (ir_email row) = lower email \<and>
       ir_accepted_at row = Some (isoformat t) \<and> ir_expires_at row = isoformat e \<and> t \<le> e \<and>
       create_access_token (ad_jwt D) env now jti (ir_tenant_id row) None (Some (ir_role row)) =
         Inr (ia_access_token a)"
    if x: "(t, token, email, a) \<in> set acc" for t token email a
  proof -
    obtain row where "row \<in> set (md_invites db)" "accepted_from D env (t, token, email, a) row"
      using inv x by (auto simp: invites_inv_def)
    then show ?thesis unfolding accepted_from_def by auto
  qed
  note origin = this
  have "\<exists>row \<in> set (md_invites db). \<exists>e now jti.
       ir_token row = token \<and> lower (ir_email row) = lower email \<and>
       ir_accepted_at row = Some (isoformat t) \<and> ir_expires_at row = isoformat e \<and> t \<le> e \<and>
       create_access_token (ad_jwt D) env now jti (ir_tenant_id row) None (Some (ir_role row)) =
         Inr (ia_access_token a) \<and>
       (\<forall>t' now' jti' email'. \<not> is_ok (fst (accept_invite_route D env now' t' jti' token email' db)))"
    if x: "(t, token, email, a) \<in> set acc" for t token email a
    using origin [OF x] once [OF x] by blast
  then have "\<forall>(t, token, email, a) \<in> set acc. \<exists>row \<in> set (md_invites db). \<exists>e now jti.
       ir_token row = token \<and> lower (ir_email row) = lower email \<and>
       ir_accepted_at row = Some (isoformat t) \<and> ir_expires_at row = isoformat e \<and> t \<le> e \<and>
       create_access_token (ad_jwt D) env now jti (ir_tenant_id row) None (Some (ir_role row)) =
         Inr (ia_access_token a) \<and>
       (\<forall>t' now' jti' email'. \<not> is_ok (fst (accept_invite_route D env now' t' jti' token email' db)))"
    by blast
  moreover have "distinct (map (fst \<circ> snd) acc)"
    "\<forall>row \<in> set (md_invites db). by_admin D env row"
    using inv unfolding invites_inv_def invite_row_ok_def by blast+
  ultimately show ?thesis unfolding by_admin_def by blast
qed

section \<open>A concrete run\<close>

definition invite_deps :: auth_deps where
  "invite_deps = sample_deps (sample_access\<lparr>c_role := Some ''admin''\<rparr>)"

definition sample_invited :: "invite_row http \<times> meta_db" where
  "sample_invited = create_invite_route invite_deps (sample_env [] ''k1'') [] 1001 sample_time ''tok''
     (plain_request\<lparr>rq_authorization := Some ''Bearer k1.j1''\<rparr>)
     \<lparr>iq_email = ''Ann@x.io'', iq_role = ''member'', iq_expires_in_hours = 1\<rparr> empty_meta"

definition sample_accepted :: "string \<Rightarrow> invite_accepted http \<times> meta_db" where
  "sample_accepted email = accept_invite_route invite_deps (sample_env [] ''k1'') 1002 (sample_time + 3600000000)
     ''j2'' ''tok'' email (snd sample_invited)"

lemma sample_accepted_ok:
  "map_sum (\<lambda>_. ()) (\<lambda>a. (ia_tenant_id a, ia_access_token a, ia_email a)) (fst (sample_accepted ''ANN@x.io'')) =
    Inr (''acme'', ''k1.j2'', ''ann@x.io'')"
  "status_of (fst (sample_accepted ''bob@x.io'')) = Some 403"
  by code_simp+

theorem invite_accepted_once_witness:
  "\<exists>a db. sample_accepted ''ANN@x.io'' = (Inr a, db) \<and> ia_access_token a = ''k1.j2'' \<and>
    \<not> is_ok (fst (accept_invite_route invite_deps (sample_env [] ''k1'') 1003 sample_time ''j3'' ''tok''
      ''ann@x.io'' db))"
proof -
  obtain a db where a: "sample_accepted ''ANN@x.io'' = (Inr a, db)" "ia_access_token a = ''k1.j2''"
    using sample_accepted_ok(1)
    by (cases "sample_accepted ''ANN@x.io''"; cases "fst (sample_accepted ''ANN@x.io'')") auto
  have "invite_run invite_deps (sample_env [] ''k1'') [] (snd sample_invited)"
    unfolding sample_invited_def by (rule invite_run.created [OF invite_run.start prod.collapse [symmetric]])
  from invite_run.accepted [OF this a(1) [unfolded sample_accepted_def]]
  have run: "invite_run invite_deps (sample_env [] ''k1'')
      [(sample_time + 3600000000, ''tok'', ''ANN@x.io'', a)] db" by simp
  from invite_accepted_once [OF run] a show ?thesis by auto
qed

end
