(* ===== verification/Users.thy ===== *)
theory Users
  imports Jwt IsoParse
begin

text \<open>
  User accounts: \<open>store/user_store.py\<close> with its four tables, and the handlers of
  \<open>api/user_routes.py\<close>. A table is the list of its rows; the keys and the \<open>UNIQUE\<close> columns are
  checked by the insertions, which answer \<open>None\<close> where SQLite raises \<open>IntegrityError\<close>.
\<close>

section \<open>The tables\<close>

record user_row =
  us_id :: string
  us_email :: string
  us_display_name :: string
  us_provider :: string
  us_provider_id :: string
  us_tenant_id :: string
  us_role :: string
  us_avatar_url :: "string option"
  us_created_at :: string
  us_last_login_at :: "string option"

record member_row =
  mb_group :: string
  mb_user_id :: string
  mb_role :: string
  mb_added_at :: string

record api_key_row =
  ak_id :: string
  ak_user_id :: string
  ak_tenant_id :: string
  ak_name :: string
  ak_key_hash :: string
  ak_key_prefix :: string
  ak_revoked :: bool
  ak_created_at :: string
  ak_expires_at :: "string option"

record user_db =
  ud_users :: "user_row list"
  ud_org_members :: "member_row list"
  ud_workgroup_members :: "member_row list"
  ud_api_keys :: "api_key_row list"

definition empty_user_db :: user_db where
  "empty_user_db = \<lparr>ud_users = [], ud_org_members = [], ud_workgroup_members = [], ud_api_keys = []\<rparr>"

section \<open>Users\<close>

definition create_user ::
    "instant \<Rightarrow> string \<Rightarrow> string \<Rightarrow> string \<Rightarrow> string \<Rightarrow> string \<Rightarrow> string \<Rightarrow> string \<Rightarrow> string option \<Rightarrow> user_db \<Rightarrow>
      user_row option \<times> user_db" where
  "create_user t uid email name provider provider_id tenant role avatar db =
     (let row = \<lparr>us_id = uid, us_email = lower email, us_display_name = name, us_provider = provider,
                 us_provider_id = provider_id, us_tenant_id = tenant, us_role = role,
                 us_avatar_url = avatar, us_created_at = isoformat t, us_last_login_at = None\<rparr>
      in if uid \<in> us_id ` set (ud_users db) \<or> lower email \<in> us_email ` set (ud_users db) \<or>
            tenant \<in> us_tenant_id ` set (ud_users db)
         then (None, db) else (Some row, db\<lparr>ud_users := ud_users db @ [row]\<rparr>))"

definition get_user_by_id :: "string \<Rightarrow> user_db \<Rightarrow> user_row option" where
  "get_user_by_id uid db = find (\<lambda>u. us_id u = uid) (ud_users db)"

definition get_user_by_email :: "string \<Rightarrow> user_db \<Rightarrow> user_row option" where
  "get_user_by_email email db = find (\<lambda>u. lower (us_email u) = lower email) (ud_users db)"

definition get_user_by_provider_id :: "string \<Rightarrow> string \<Rightarrow> user_db \<Rightarrow> user_row option" where
  "get_user_by_provider_id provider pid db =
     find (\<lambda>u. us_provider u = provider \<and> us_provider_id u = pid) (ud_users db)"

definition get_user_by_tenant_id :: "string \<Rightarrow> user_db \<Rightarrow> user_row option" where
  "get_user_by_tenant_id tenant db = find (\<lambda>u. us_tenant_id u = tenant) (ud_users db)"

text \<open>The keyword arguments that are allowed; an absent one is \<open>None\<close>.\<close>

record user_update =
  uu_display_name :: "string option"
  uu_avatar_url :: "string option"
  uu_last_login_at :: "string option"
  uu_role :: "string option"

definition no_update :: user_update where
  "no_update = \<lparr>uu_display_name = None, uu_avatar_url = None, uu_last_login_at = None, uu_role = None\<rparr>"

definition set_user_fields :: "user_update \<Rightarrow> user_row \<Rightarrow> user_row" where
  "set_user_fields k u =
     u\<lparr>us_display_name := get_or (uu_display_name k) (us_display_name u),
       us_avatar_url := (case uu_avatar_url k of None \<Rightarrow> us_avatar_url u | Some x \<Rightarrow> Some x),
       us_last_login_at := (case uu_last_login_at k of None \<Rightarrow> us_last_login_at u | Some x \<Rightarrow> Some x),
       us_role := get_or (uu_role k) (us_role u)\<rparr>"

text \<open>\<open>None\<close> is the \<open>ValueError\<close> for an unknown user.\<close>

definition update_user :: "string \<Rightarrow> user_update \<Rightarrow> user_db \<Rightarrow> user_row option \<times> user_db" where
  "update_user uid k db =
     (case get_user_by_id uid db of
        None \<Rightarrow> (None, db)
      | Some _ \<Rightarrow>
          (let db' = (if k = no_update then db
                      else db\<lparr>ud_users := update_where (\<lambda>u. us_id u = uid) (set_user_fields k) (ud_users db)\<rparr>)
           in (get_user_by_id uid db', db')))"

definition upsert_user ::
    "instant \<Rightarrow> string \<Rightarrow> string \<Rightarrow> string \<Rightarrow> string \<Rightarrow> string \<Rightarrow> string \<Rightarrow> string option \<Rightarrow> user_db \<Rightarrow>
      user_row option \<times> user_db" where
  "upsert_user t uid provider provider_id email name tenant avatar db =
     (case get_user_by_provider_id provider provider_id db of
        Some u \<Rightarrow> update_user (us_id u)
          (no_update\<lparr>uu_last_login_at := Some (isoformat t), uu_display_name := Some name, uu_avatar_url := avatar\<rparr>) db
      | None \<Rightarrow> create_user t uid email name provider provider_id tenant ''member'' avatar db)"

section \<open>Members of organisations and workgroups\<close>

definition add_member ::
    "instant \<Rightarrow> string \<Rightarrow> string \<Rightarrow> string \<Rightarrow> member_row list \<Rightarrow> (member_row \<times> member_row list) option" where
  "add_member t g uid role ms =
     (let row = \<lparr>mb_group = g, mb_user_id = uid, mb_role = role, mb_added_at = isoformat t\<rparr>
      in if (g, uid) \<in> (\<lambda>m. (mb_group m, mb_user_id m)) ` set ms then None else Some (row, ms @ [row]))"

definition add_org_member ::
    "instant \<Rightarrow> string \<Rightarrow> string \<Rightarrow> string \<Rightarrow> user_db \<Rightarrow> member_row option \<times> user_db" where
  "add_org_member t org uid role db =
     (case add_member t org uid role (ud_org_members db) of
        None \<Rightarrow> (None, db) | Some (row, ms) \<Rightarrow> (Some row, db\<lparr>ud_org_members := ms\<rparr>))"

definition list_org_members :: "string \<Rightarrow> user_db \<Rightarrow> member_row list" where
  "list_org_members org db = filter (\<lambda>m. mb_group m = org) (ud_org_members db)"

definition remove_org_member :: "string \<Rightarrow> string \<Rightarrow> user_db \<Rightarrow> user_db" where
  "remove_org_member org uid db =
     db\<lparr>ud_org_members := delete_where (\<lambda>m. mb_group m = org \<and> mb_user_id m = uid) (ud_org_members db)\<rparr>"

definition add_workgroup_member ::
    "instant \<Rightarrow> string \<Rightarrow> string \<Rightarrow> string \<Rightarrow> user_db \<Rightarrow> member_row option \<times> user_db" where
  "add_workgroup_member t wg uid role db =
     (case add_member t wg uid role (ud_workgroup_members db) of
        None \<Rightarrow> (None, db) | Some (row, ms) \<Rightarrow> (Some row, db\<lparr>ud_workgroup_members := ms\<rparr>))"

definition list_workgroup_members :: "string \<Rightarrow> user_db \<Rightarrow> member_row list" where
  "list_workgroup_members wg db = filter (\<lambda>m. mb_group m = wg) (ud_workgroup_members db)"

definition remove_workgroup_member :: "string \<Rightarrow> string \<Rightarrow> user_db \<Rightarrow> user_db" where
  "remove_workgroup_member wg uid db =
     db\<lparr>ud_workgroup_members :=
          delete_where (\<lambda>m. mb_group m = wg \<and> mb_user_id m = uid) (ud_workgroup_members db)\<rparr>"

section \<open>API keys\<close>

text \<open>What is answered of a key: all columns but the digest.\<close>

record api_key_info =
  ki_id :: string
  ki_user_id :: string
  ki_tenant_id :: string
  ki_name :: string
  ki_key_prefix :: string
  ki_revoked :: bool
  ki_created_at :: string
  ki_expires_at :: "string option"

definition key_info :: "api_key_row \<Rightarrow> api_key_info" where
  "key_info r =
     \<lparr>ki_id = ak_id r, ki_user_id = ak_user_id r, ki_tenant_id = ak_tenant_id r, ki_name = ak_name r,
      ki_key_prefix = ak_key_prefix r, ki_revoked = ak_revoked r, ki_created_at = ak_created_at r,
      ki_expires_at = ak_expires_at r\<rparr>"

text \<open>\<open>token_hex\<close> is the generated text, \<open>sha256\<close> the hexadecimal digest. The response is
  that and the key itself, which is stored only as its digest.\<close>

definition new_api_key ::
    "(string \<Rightarrow> string) \<Rightarrow> instant \<Rightarrow> string \<Rightarrow> string \<Rightarrow> string \<Rightarrow> string \<Rightarrow> string \<Rightarrow> string option \<Rightarrow> api_key_row" where
  "new_api_key sha256 t key_id plaintext uid tenant name expires =
     \<lparr>ak_id = key_id, ak_user_id = uid, ak_tenant_id = tenant, ak_name = name,
      ak_key_hash = sha256 plaintext, ak_key_prefix = take 8 plaintext, ak_revoked = False,
      ak_created_at = isoformat t, ak_expires_at = expires\<rparr>"

definition create_api_key ::
    "(string \<Rightarrow> string) \<Rightarrow> instant \<Rightarrow> string \<Rightarrow> string \<Rightarrow> string \<Rightarrow> string \<Rightarrow> string \<Rightarrow> string option \<Rightarrow> user_db \<Rightarrow>
      (api_key_info \<times> string) option \<times> user_db" where
  "create_api_key sha256 t key_id token_hex uid tenant name expires db =
     (let plaintext = ''pk_'' @ token_hex;
          row = new_api_key sha256 t key_id plaintext uid tenant name expires
      in if ak_id row \<in> ak_id ` set (ud_api_keys db) \<or> ak_key_hash row \<in> ak_key_hash ` set (ud_api_keys db)
         then (None, db)
         else (Some (key_info row, plaintext), db\<lparr>ud_api_keys := ud_api_keys db @ [row]\<rparr>))"

definition list_api_keys :: "string \<Rightarrow> user_db \<Rightarrow> api_key_info list" where
  "list_api_keys uid db = map key_info (filter (\<lambda>r. ak_user_id r = uid) (ud_api_keys db))"

definition find_key :: "string \<Rightarrow> user_db \<Rightarrow> api_key_row option" where
  "find_key key_id db = find (\<lambda>r. ak_id r = key_id) (ud_api_keys db)"

definition revoke_api_key :: "string \<Rightarrow> string \<Rightarrow> user_db \<Rightarrow> unit option \<times> user_db" where
  "revoke_api_key key_id uid db =
     (case find_key key_id db of
        None \<Rightarrow> (None, db)
      | Some r \<Rightarrow>
          if ak_user_id r \<noteq> uid then (None, db)
          else (Some (), db\<lparr>ud_api_keys := update_where (\<lambda>r. ak_id r = key_id) (\<lambda>r. r\<lparr>ak_revoked := True\<rparr>)
                                               (ud_api_keys db)\<rparr>))"

text \<open>
  The end of a key is a text the user chose. \<open>read_time\<close> is \<open>datetime.fromisoformat\<close> of it as
  far as the comparison with the aware current time goes: \<open>None\<close> where parsing raises
  \<open>ValueError\<close> or the comparison with a naive time raises \<open>TypeError\<close>. Neither is caught: \<open>Inl\<close>.
\<close>

definition verify_api_key ::
    "(string \<Rightarrow> string) \<Rightarrow> (string \<Rightarrow> instant option) \<Rightarrow> instant \<Rightarrow> string \<Rightarrow> user_db \<Rightarrow>
      unit + (string \<times> string) option" where
  "verify_api_key sha256 read_time t plaintext db =
     (case find (\<lambda>r. ak_key_hash r = sha256 plaintext) (ud_api_keys db) of
        None \<Rightarrow> Inr None
      | Some r \<Rightarrow>
          if ak_revoked r then Inr None
          else
            (case ak_expires_at r of
               None \<Rightarrow> Inr (Some (ak_user_id r, ak_tenant_id r))
             | Some x \<Rightarrow>
                 (case read_time (replace_char CHR ''Z'' ''+00:00'' x) of
                    None \<Rightarrow> Inl ()
                  | Some e \<Rightarrow> Inr (if e < t then None else Some (ak_user_id r, ak_tenant_id r)))))"

section \<open>The handlers\<close>

record user_env =
  ue_deps :: auth_deps
  ue_env :: auth_env
  ue_sha256 :: "string \<Rightarrow> string"
  ue_read_time :: "string \<Rightarrow> instant option"

definition require_user_auth ::
    "user_env \<Rightarrow> string list \<Rightarrow> int \<Rightarrow> instant \<Rightarrow> request \<Rightarrow> user_db \<Rightarrow> claims http" where
  "require_user_auth E bl now t rq db =
     (let authorization = get_or (rq_authorization rq) []; api_key = get_or (rq_api_key rq) [] in
      if starts_with authorization bearer_prefix
      then verify_access_token (ad_jwt (ue_deps E)) (ue_env E) bl now (drop (length bearer_prefix) authorization)
      else if api_key \<noteq> [] then
        (case verify_api_key (ue_sha256 E) (ue_read_time E) t api_key db of
           Inl _ \<Rightarrow> Inl server_error
         | Inr (Some (uid, tenant)) \<Rightarrow>
             Inr (no_claims\<lparr>c_tenant_id := Some tenant, c_type := Some ''access'',
                            c_scopes := [''query'', ''read'']\<rparr>)
         | Inr None \<Rightarrow>
             (case get_api_key (ue_env E) of
                Inl e \<Rightarrow> Inl e
              | Inr expected \<Rightarrow>
                  if expected \<noteq> [] \<and> api_key = expected then Inr (default_claims ''default'')
                  else Inl (HTTPException 401 ''Invalid API key'')))
      else Inl (HTTPException 401 ''Authentication required''))"

definition get_user_from_auth :: "claims \<Rightarrow> user_db \<Rightarrow> user_row http" where
  "get_user_from_auth auth db =
     (case get_user_by_tenant_id (get_or (c_tenant_id auth) []) db of
        None \<Rightarrow> Inl (HTTPException 404 ''User not found'')
      | Some u \<Rightarrow> Inr u)"

text \<open>The response of \<open>GET /users/me\<close>: the row without the provider and the tenant.\<close>

record user_info =
  un_id :: string
  un_email :: string
  un_display_name :: string
  un_role :: string
  un_avatar_url :: "string option"
  un_created_at :: string
  un_last_login_at :: "string option"

definition get_me :: "claims \<Rightarrow> user_db \<Rightarrow> user_info http" where
  "get_me auth db =
     map_sum id
       (\<lambda>u. \<lparr>un_id = us_id u, un_email = us_email u, un_display_name = us_display_name u, un_role = us_role u,
             un_avatar_url = us_avatar_url u, un_created_at = us_created_at u,
             un_last_login_at = us_last_login_at u\<rparr>)
       (get_user_from_auth auth db)"

definition create_api_key_route ::
    "user_env \<Rightarrow> instant \<Rightarrow> string \<Rightarrow> string \<Rightarrow> claims \<Rightarrow> string \<Rightarrow> string option \<Rightarrow> user_db \<Rightarrow>
      (api_key_info \<times> string) http \<times> user_db" where
  "create_api_key_route E t key_id token_hex auth name expires db =
     (case get_user_from_auth auth db of
        Inl e \<Rightarrow> (Inl e, db)
      | Inr u \<Rightarrow>
          (case create_api_key (ue_sha256 E) t key_id token_hex (us_id u) (us_tenant_id u) name expires db of
             (None, db') \<Rightarrow> (Inl server_error, db')
           | (Some k, db') \<Rightarrow> (Inr k, db')))"

definition list_api_keys_route :: "claims \<Rightarrow> user_db \<Rightarrow> api_key_info list http" where
  "list_api_keys_route auth db = map_sum id (\<lambda>u. list_api_keys (us_id u) db) (get_user_from_auth auth db)"

definition revoke_api_key_route :: "string \<Rightarrow> claims \<Rightarrow> user_db \<Rightarrow> string http \<times> user_db" where
  "revoke_api_key_route key_id auth db =
     (case get_user_from_auth auth db of
        Inl e \<Rightarrow> (Inl e, db)
      | Inr u \<Rightarrow>
          (case revoke_api_key key_id (us_id u) db of
             (None, db') \<Rightarrow> (Inl (HTTPException 404 ''API key not found''), db')
           | (Some _, db') \<Rightarrow> (Inr ''revoked'', db')))"

section \<open>Runs\<close>

text \<open>The calls that change the store: the login of a user, membership, and keys.\<close>

datatype user_event =
    Login instant string string string string string string "string option"
  | SetUser string user_update
  | AddOrg instant string string string
  | RemoveOrg string string
  | AddWorkgroup instant string string string
  | RemoveWorkgroup string string
  | CreateKey instant string string claims string "string option"
  | RevokeKey string claims

fun apply_user :: "user_env \<Rightarrow> user_event \<Rightarrow> user_db \<Rightarrow> user_db" where
  "apply_user E (Login t uid provider pid email name tenant avatar) db =
     snd (upsert_user t uid provider pid email name tenant avatar db)"
| "apply_user E (SetUser uid k) db = snd (update_user uid k db)"
| "apply_user E (AddOrg t g uid role) db = snd (add_org_member t g uid role db)"
| "apply_user E (RemoveOrg g uid) db = remove_org_member g uid db"
| "apply_user E (AddWorkgroup t g uid role) db = snd (add_workgroup_member t g uid role db)"
| "apply_user E (RemoveWorkgroup g uid) db = remove_workgroup_member g uid db"
| "apply_user E (CreateKey t key_id hex auth name expires) db =
     snd (create_api_key_route E t key_id hex auth name expires db)"
| "apply_user E (RevokeKey key_id auth) db = snd (revoke_api_key_route key_id auth db)"

definition run_users :: "user_env \<Rightarrow> user_event list \<Rightarrow> user_db \<Rightarrow> user_db" where
  "run_users E evs db = fold (apply_user E) evs db"

section \<open>The invariant\<close>

definition member_key :: "member_row \<Rightarrow> string \<times> string" where
  "member_key m = (mb_group m, mb_user_id m)"

definition users_ok :: "user_row list \<Rightarrow> bool" where
  "users_ok us = (distinct (map us_id us) \<and> distinct (map us_email us) \<and> distinct (map us_tenant_id us))"

definition keys_ok :: "user_row list \<Rightarrow> api_key_row list \<Rightarrow> bool" where
  "keys_ok us ks =
     (distinct (map ak_id ks) \<and> distinct (map ak_key_hash ks) \<and>
      (\<forall>k \<in> set ks. \<exists>u \<in> set us. us_id u = ak_user_id k \<and> us_tenant_id u = ak_tenant_id k))"

definition user_inv :: "user_db \<Rightarrow> bool" where
  "user_inv db =
     (users_ok (ud_users db) \<and> keys_ok (ud_users db) (ud_api_keys db) \<and>
      distinct (map member_key (ud_org_members db)) \<and> distinct (map member_key (ud_workgroup_members db)))"

lemma user_inv_empty: "user_inv empty_user_db"
  by (simp add: user_inv_def users_ok_def keys_ok_def empty_user_db_def)

lemma keys_ok_mono:
  assumes "keys_ok us ks" and "\<And>u. u \<in> set us \<Longrightarrow> \<exists>v \<in> set vs. us_id v = us_id u \<and> us_tenant_id v = us_tenant_id u"
  shows "keys_ok vs ks"
  using assms unfolding keys_ok_def by metis

lemma user_inv_create_user:
  assumes "user_inv db"
  shows "user_inv (snd (create_user t uid email name provider pid tenant role avatar db))"
proof -
  let ?p = "create_user t uid email name provider pid tenant role avatar db"
  have "snd ?p = db \<or> (\<exists>u. snd ?p = db\<lparr>ud_users := ud_users db @ [u]\<rparr> \<and> us_id u \<notin> us_id ` set (ud_users db) \<and>
      us_email u \<notin> us_email ` set (ud_users db) \<and> us_tenant_id u \<notin> us_tenant_id ` set (ud_users db))"
    unfolding create_user_def Let_def by (simp only: snd_conv split: if_split) auto
  then consider (same) "snd ?p = db"
    | (new) u where "snd ?p = db\<lparr>ud_users := ud_users db @ [u]\<rparr>" "us_id u \<notin> us_id ` set (ud_users db)"
        "us_email u \<notin> us_email ` set (ud_users db)" "us_tenant_id u \<notin> us_tenant_id ` set (ud_users db)"
    by blast
  then show ?thesis
  proof cases
    case new
    have "keys_ok (ud_users db @ [u]) (ud_api_keys db)"
      by (rule keys_ok_mono [of "ud_users db"]) (use assms in \<open>auto simp: user_inv_def\<close>)
    then show ?thesis using assms new by (simp add: user_inv_def users_ok_def)
  qed (simp add: assms)
qed

lemma set_user_fields_keys [simp]:
  "us_id (set_user_fields k u) = us_id u" "us_email (set_user_fields k u) = us_email u"
  "us_tenant_id (set_user_fields k u) = us_tenant_id u" "us_provider (set_user_fields k u) = us_provider u"
  "us_provider_id (set_user_fields k u) = us_provider_id u"
  by (simp_all add: set_user_fields_def)

lemma user_inv_update_user:
  assumes "user_inv db"
  shows "user_inv (snd (update_user uid k db))"
proof -
  let ?us = "update_where (\<lambda>u. us_id u = uid) (set_user_fields k) (ud_users db)"
  have "map us_id ?us = map us_id (ud_users db)" "map us_email ?us = map us_email (ud_users db)"
    "map us_tenant_id ?us = map us_tenant_id (ud_users db)"
    by (simp_all add: map_update_where)
  then have users: "users_ok ?us" using assms unfolding user_inv_def users_ok_def by simp
  have "\<exists>v \<in> set ?us. us_id v = us_id u \<and> us_tenant_id v = us_tenant_id u" if "u \<in> set (ud_users db)" for u
  proof -
    have "(if us_id u = uid then set_user_fields k u else u) \<in> set ?us"
      unfolding set_update_where using that by (rule imageI)
    then show ?thesis by (rule rev_bexI) simp
  qed
  then have "keys_ok ?us (ud_api_keys db)"
    using assms keys_ok_mono unfolding user_inv_def by blast
  then have "user_inv (db\<lparr>ud_users := ?us\<rparr>)" using assms users by (simp add: user_inv_def)
  then show ?thesis using assms by (auto simp: update_user_def Let_def split: option.splits)
qed

lemma user_inv_add_member:
  assumes "distinct (map member_key ms)" "add_member t g uid role ms = Some (row, ms')"
  shows "distinct (map member_key ms')"
  using assms by (auto simp: add_member_def Let_def member_key_def image_iff split: if_splits)

lemma user_inv_create_key:
  assumes inv: "user_inv db"
  shows "user_inv (snd (create_api_key_route E t key_id hex auth name expires db))"
proof -
  let ?p = "create_api_key_route E t key_id hex auth name expires db"
  have "snd ?p = db \<or> (\<exists>k u. snd ?p = db\<lparr>ud_api_keys := ud_api_keys db @ [k]\<rparr> \<and>
      ak_id k \<notin> ak_id ` set (ud_api_keys db) \<and> ak_key_hash k \<notin> ak_key_hash ` set (ud_api_keys db) \<and>
      u \<in> set (ud_users db) \<and> us_id u = ak_user_id k \<and> us_tenant_id u = ak_tenant_id k)"
  proof (cases "get_user_from_auth auth db")
    case (Inr u)
    then have "u \<in> set (ud_users db)"
      by (auto simp: get_user_from_auth_def get_user_by_tenant_id_def split: option.splits dest: find_SomeD)
    let ?k = "new_api_key (ue_sha256 E) t key_id (''pk_'' @ hex) (us_id u) (us_tenant_id u) name expires"
    have "ak_user_id ?k = us_id u" "ak_tenant_id ?k = us_tenant_id u" by (simp_all add: new_api_key_def)
    moreover have "snd ?p = (if ak_id ?k \<in> ak_id ` set (ud_api_keys db) \<or>
        ak_key_hash ?k \<in> ak_key_hash ` set (ud_api_keys db) then db
        else db\<lparr>ud_api_keys := ud_api_keys db @ [?k]\<rparr>)"
      by (simp add: create_api_key_route_def create_api_key_def Let_def Inr)
    ultimately show ?thesis using \<open>u \<in> set (ud_users db)\<close> by metis
  qed (simp add: create_api_key_route_def)
  then consider (same) "snd ?p = db"
    | (new) k u where "snd ?p = db\<lparr>ud_api_keys := ud_api_keys db @ [k]\<rparr>" "ak_id k \<notin> ak_id ` set (ud_api_keys db)"
        "ak_key_hash k \<notin> ak_key_hash ` set (ud_api_keys db)"
        "u \<in> set (ud_users db)" "us_id u = ak_user_id k" "us_tenant_id u = ak_tenant_id k"
    by blast
  then show ?thesis
  proof cases
    case new
    then show ?thesis using inv unfolding user_inv_def keys_ok_def by simp blast
  qed (simp add: inv)
qed

lemma user_inv_revoke_key:
  assumes "user_inv db"
  shows "user_inv (snd (revoke_api_key_route key_id auth db))"
proof -
  let ?ks = "update_where (\<lambda>r. ak_id r = key_id) (\<lambda>r. r\<lparr>ak_revoked := True\<rparr>) (ud_api_keys db)"
  have "map ak_id ?ks = map ak_id (ud_api_keys db)" "map ak_key_hash ?ks = map ak_key_hash (ud_api_keys db)"
    by (simp_all add: map_update_where)
  moreover have "\<exists>u \<in> set (ud_users db). us_id u = ak_user_id k \<and> us_tenant_id u = ak_tenant_id k"
    if "k \<in> set ?ks" for k
    using that assms by (auto simp: set_update_where user_inv_def keys_ok_def)
  ultimately have "user_inv (db\<lparr>ud_api_keys := ?ks\<rparr>)" using assms by (simp add: user_inv_def keys_ok_def)
  then show ?thesis
    using assms by (auto simp: revoke_api_key_route_def revoke_api_key_def split: sum.splits option.splits)
qed

lemma user_inv_members:
  assumes "user_inv db"
  shows "user_inv (snd (add_org_member t g uid role db))" "user_inv (snd (add_workgroup_member t g uid role db))"
    "user_inv (remove_org_member g uid db)" "user_inv (remove_workgroup_member g uid db)"
proof -
  show "user_inv (snd (add_org_member t g uid role db))" "user_inv (snd (add_workgroup_member t g uid role db))"
    using assms user_inv_add_member unfolding add_org_member_def add_workgroup_member_def
    by (auto simp: user_inv_def split: option.splits)
  show "user_inv (remove_org_member g uid db)" "user_inv (remove_workgroup_member g uid db)"
    using assms distinct_map_filter_key [of member_key]
    by (simp_all add: remove_org_member_def remove_workgroup_member_def user_inv_def delete_where_def)
qed

lemma user_inv_apply:
  assumes "user_inv db"
  shows "user_inv (apply_user E ev db)"
proof (cases ev)
  case (Login t uid provider pid email name tenant avatar)
  then show ?thesis
    using assms
    by (cases "get_user_by_provider_id provider pid db")
      (simp_all add: upsert_user_def user_inv_create_user user_inv_update_user)
qed (simp_all add: assms user_inv_update_user user_inv_create_key user_inv_revoke_key user_inv_members)

lemma user_inv_run: "user_inv db \<Longrightarrow> user_inv (run_users E evs db)"
  unfolding run_users_def by (induction evs arbitrary: db) (simp_all add: user_inv_apply)

text \<open>
  In every state of the user store reached by logins, memberships and keys, users
  have different identifiers, e-mail addresses and tenants, nobody is twice a member of a group,
  keys have different identifiers and digests, and every key belongs to a user and to the tenant
  of that user.
\<close>

theorem user_store_invariant:
  fixes E evs
  defines "db \<equiv> run_users E evs empty_user_db"
  shows "distinct (map us_id (ud_users db)) \<and> distinct (map us_email (ud_users db)) \<and>
    distinct (map us_tenant_id (ud_users db)) \<and>
    distinct (map member_key (ud_org_members db)) \<and> distinct (map member_key (ud_workgroup_members db)) \<and>
    distinct (map ak_id (ud_api_keys db)) \<and> distinct (map ak_key_hash (ud_api_keys db)) \<and>
    (\<forall>k \<in> set (ud_api_keys db). \<exists>u \<in> set (ud_users db).
       us_id u = ak_user_id k \<and> us_tenant_id u = ak_tenant_id k)"
  using user_inv_run [OF user_inv_empty, of E evs]
  unfolding db_def user_inv_def users_ok_def keys_ok_def by blast

section \<open>The life of a key\<close>

text \<open>A key is only ever changed by its revocation.\<close>

lemma find_key_append:
  "find_key key_id db = Some k \<Longrightarrow>
    find_key key_id (db\<lparr>ud_api_keys := ud_api_keys db @ ks\<rparr>) = Some k"
  by (simp add: find_key_def find_append)

lemma find_key_keeps:
  "find_key key_id (db\<lparr>ud_users := us\<rparr>) = find_key key_id db"
  "find_key key_id (db\<lparr>ud_org_members := ms\<rparr>) = find_key key_id db"
  "find_key key_id (db\<lparr>ud_workgroup_members := ms\<rparr>) = find_key key_id db"
  by (simp_all add: find_key_def)

lemma find_key_revoke:
  "find_key key_id (snd (revoke_api_key_route kid auth db)) =
    (if kid = key_id \<and> is_ok (fst (revoke_api_key_route kid auth db))
     then map_option (\<lambda>k. k\<lparr>ak_revoked := True\<rparr>) (find_key key_id db) else find_key key_id db)"
proof -
  have "find (\<lambda>r. ak_id r = key_id) (update_where (\<lambda>r. ak_id r = kid) (\<lambda>r. r\<lparr>ak_revoked := True\<rparr>) (ud_api_keys db)) =
      (case find (\<lambda>r. ak_id r = key_id) (ud_api_keys db) of None \<Rightarrow> None
       | Some r \<Rightarrow> Some (if ak_id r = kid then r\<lparr>ak_revoked := True\<rparr> else r))"
    by (rule find_update_where) simp
  then show ?thesis
    by (auto simp: revoke_api_key_route_def revoke_api_key_def find_key_def dest: find_SomeD
        split: sum.splits option.splits)
qed

lemma find_key_apply:
  assumes "find_key key_id db = Some k"
  shows "find_key key_id (apply_user E ev db) = Some k \<or>
    (find_key key_id (apply_user E ev db) = Some (k\<lparr>ak_revoked := True\<rparr>) \<and> (\<exists>auth. ev = RevokeKey key_id auth))"
proof (cases ev)
  case (Login t uid provider pid email name tenant avatar)
  then show ?thesis using assms
    by (auto simp: upsert_user_def create_user_def update_user_def find_key_keeps Let_def split: option.splits)
next
  case (CreateKey t kid hex auth name expires)
  then show ?thesis using assms
    by (auto simp: create_api_key_route_def create_api_key_def find_key_append Let_def
        split: sum.splits option.splits if_splits)
next
  case (RevokeKey kid auth)
  then show ?thesis using assms by (auto simp: find_key_revoke)
qed (use assms in \<open>auto simp: update_user_def add_org_member_def add_workgroup_member_def
    remove_org_member_def remove_workgroup_member_def find_key_keeps Let_def split: option.splits\<close>)

lemma find_key_run:
  assumes "find_key key_id db = Some k"
  shows "find_key key_id (run_users E evs db) = Some k \<or>
    (find_key key_id (run_users E evs db) = Some (k\<lparr>ak_revoked := True\<rparr>) \<and> (\<exists>auth. RevokeKey key_id auth \<in> set evs))"
  using assms
proof (induction evs arbitrary: db k)
  case (Cons ev evs)
  from find_key_apply [OF Cons.prems, of E ev] show ?case
    using Cons.IH [of "apply_user E ev db" k] Cons.IH [of "apply_user E ev db" "k\<lparr>ak_revoked := True\<rparr>"]
    by (auto simp: run_users_def)
qed (simp add: run_users_def)

lemma verify_of_key:
  assumes "user_inv db" "find_key key_id db = Some k" "ak_key_hash k = sha plaintext"
  shows "verify_api_key sha read_time t plaintext db =
    (if ak_revoked k then Inr None
     else case ak_expires_at k of
       None \<Rightarrow> Inr (Some (ak_user_id k, ak_tenant_id k))
     | Some x \<Rightarrow> (case read_time (replace_char CHR ''Z'' ''+00:00'' x) of None \<Rightarrow> Inl ()
         | Some e \<Rightarrow> Inr (if e < t then None else Some (ak_user_id k, ak_tenant_id k))))"
proof -
  have "k \<in> set (ud_api_keys db)" using find_SomeD [OF assms(2) [unfolded find_key_def]] by blast
  then have "find (\<lambda>r. ak_key_hash r = sha plaintext) (ud_api_keys db) = Some k"
    using find_unique_key [of ak_key_hash "ud_api_keys db" k] assms(1,3) by (simp add: user_inv_def keys_ok_def)
  then show ?thesis by (simp add: verify_api_key_def split: option.splits)
qed


section \<open>A concrete run\<close>

definition sample_user_env :: user_env where
  "sample_user_env =
     \<lparr>ue_deps = sample_deps sample_access, ue_env = sample_env [] ''k1'', ue_sha256 = (\<lambda>s. s),
      ue_read_time = fromisoformat\<rparr>"

definition logged_in :: "user_event list" where
  "logged_in = [Login sample_time ''u1'' ''github'' ''7'' ''Ann@x.io'' ''Ann'' ''github:7'' None]"

definition github_claims :: claims where
  "github_claims = no_claims\<lparr>c_tenant_id := Some ''github:7''\<rparr>"

definition sample_key :: "(api_key_info \<times> string) http \<times> user_db" where
  "sample_key = create_api_key_route sample_user_env sample_time ''id1'' ''ab'' github_claims ''ci''
     None (run_users sample_user_env logged_in empty_user_db)"


end
