(* ===== verification/Base64.thy ===== *)
theory Base64
  imports PyText
begin

text \<open>
  URL-safe base64 as the state tokens and the session cookies use it: Python's encoder, with and
  without its padding, and the lenient decoder of \<open>binascii\<close>; decoding gives back what was encoded.
\<close>

section \<open>URL-safe base 64\<close>

definition b64_char :: "nat \<Rightarrow> char" where
  "b64_char n =
     (if n < 26 then char_of (65 + n) else if n < 52 then char_of (71 + n)
      else if n < 62 then char_of (n - 4) else if n = 62 then CHR ''-'' else CHR ''_'')"

text \<open>The decoder translates \<open>-_\<close> to \<open>+/\<close> first, and so accepts both.\<close>

definition b64_val :: "char \<Rightarrow> nat option" where
  "b64_val c =
     (if is_upper_az c then Some (of_char c - 65)
      else if is_lower_az c then Some (of_char c - 71)
      else if is_digit_c c then Some (of_char c + 4)
      else if c = CHR ''-'' \<or> c = CHR ''+'' then Some 62
      else if c = CHR ''_'' \<or> c = CHR ''/'' then Some 63 else None)"

text \<open>\<open>base64.urlsafe_b64encode\<close>\<close>

fun b64_pad_encode :: "nat list \<Rightarrow> string" where
  "b64_pad_encode [] = []"
| "b64_pad_encode [a] = [b64_char (a div 4), b64_char (a mod 4 * 16), CHR ''='', CHR ''='']"
| "b64_pad_encode [a, b] =
     [b64_char (a div 4), b64_char (a mod 4 * 16 + b div 16), b64_char (b mod 16 * 4), CHR ''='']"
| "b64_pad_encode (a # b # c # r) =
     b64_char (a div 4) # b64_char (a mod 4 * 16 + b div 16) # b64_char (b mod 16 * 4 + c div 64)
       # b64_char (c mod 64) # b64_pad_encode r"

definition bytes_of :: "string \<Rightarrow> nat list" where
  "bytes_of s = map of_char s"

definition rstrip_eq :: "string \<Rightarrow> string" where
  "rstrip_eq s = rev (dropWhile (\<lambda>c. c = CHR ''='') (rev s))"

definition b64_encode :: "string \<Rightarrow> string" where
  "b64_encode data = rstrip_eq (b64_pad_encode (bytes_of data))"

text \<open>
  \<open>binascii.a2b_base64\<close>: \<open>pos\<close> is the position in the group of four, \<open>left\<close> the bits not yet
  written, \<open>pads\<close> the equals signs seen in a row, \<open>n\<close> the number of bytes written. Other
  characters are skipped; the left side is the text of \<open>binascii.Error\<close>.
\<close>

fun a2b :: "nat \<Rightarrow> nat \<Rightarrow> nat \<Rightarrow> nat \<Rightarrow> string \<Rightarrow> string + nat list" where
  "a2b pos left pads n [] =
     (if pos = 0 then Inr []
      else if pos = 1 then Inl (''Invalid base64-encoded string: number of data characters (''
             @ nat_str (n div 3 * 4 + 1) @ '') cannot be 1 more than a multiple of 4'')
      else Inl ''Incorrect padding'')"
| "a2b pos left pads n (c # s) =
     (if c = CHR ''='' then
        (if 2 \<le> pos \<and> 4 \<le> pos + pads + 1 then Inr []
         else a2b pos left (if 2 \<le> pos then pads + 1 else pads) n s)
      else
        (case b64_val c of
           None \<Rightarrow> a2b pos left pads n s
         | Some v \<Rightarrow>
             if pos = 0 then a2b 1 v 0 n s
             else if pos = 1 then map_sum id (Cons (left * 4 + v div 16)) (a2b 2 (v mod 16) 0 (n + 1) s)
             else if pos = 2 then map_sum id (Cons (left * 16 + v div 4)) (a2b 3 (v mod 4) 0 (n + 1) s)
             else map_sum id (Cons (left * 64 + v)) (a2b 0 0 0 (n + 1) s)))"

definition pad_of :: "nat \<Rightarrow> string" where
  "pad_of n = (if n mod 4 \<noteq> 0 then replicate (4 - n mod 4) CHR ''='' else [])"

definition b64_decode :: "string \<Rightarrow> string + string" where
  "b64_decode s = map_sum id (map char_of) (a2b 0 0 0 0 (s @ pad_of (length s)))"

section \<open>Decoding what was encoded\<close>

definition octets :: "nat list \<Rightarrow> bool" where
  "octets bs = (\<forall>b \<in> set bs. b < 256)"

lemma b64_val_char: "n < 64 \<Longrightarrow> b64_val (b64_char n) = Some n"
proof -
  assume n: "n < 64"
  have digit: "b64_val (b64_char n) = Some n" if d: "52 \<le> n" "n < 62"
  proof -
    from d have "48 \<le> n - 4" "n - 4 \<le> 57" by linarith+
    with d show ?thesis
      by (simp add: b64_char_def b64_val_def is_upper_az_def is_lower_az_def is_digit_c_def Let_def)
  qed
  consider "n < 26" | "26 \<le> n" "n < 52" | "52 \<le> n" "n < 62" | "n = 62" | "n = 63" using n by linarith
  then show ?thesis
    by cases (simp_all add: digit, simp_all add: b64_char_def b64_val_def is_upper_az_def is_lower_az_def
        is_digit_c_def Let_def)
qed

lemma b64_val_special: "b64_val (CHR ''='') = None" "b64_val (CHR ''.'') = None"
  by code_simp+

lemma b64_char_not: "n < 64 \<Longrightarrow> b64_char n \<noteq> CHR ''='' \<and> b64_char n \<noteq> CHR ''.''"
  using b64_val_char [of n] b64_val_special by force

text \<open>The sextets of a list of bytes, without padding.\<close>

fun sextets :: "nat list \<Rightarrow> nat list" where
  "sextets [] = []"
| "sextets [a] = [a div 4, a mod 4 * 16]"
| "sextets [a, b] = [a div 4, a mod 4 * 16 + b div 16, b mod 16 * 4]"
| "sextets (a # b # c # r) =
     [a div 4, a mod 4 * 16 + b div 16, b mod 16 * 4 + c div 64, c mod 64] @ sextets r"

lemma sextets_small: "octets bs \<Longrightarrow> n \<in> set (sextets bs) \<Longrightarrow> n < 64"
proof (induction bs rule: sextets.induct)
  case (4 a b c r)
  then show ?case by (auto simp: octets_def)
qed (auto simp: octets_def)

lemma pad_encode: "\<exists>k. b64_pad_encode bs = map b64_char (sextets bs) @ replicate k CHR ''=''"
proof (induction bs rule: b64_pad_encode.induct)
  case (2 a)
  show ?case by (intro exI [of _ "Suc (Suc 0)"]) simp
next
  case (3 a b)
  show ?case by (intro exI [of _ "Suc 0"]) simp
next
  case (4 a b c r)
  then obtain k where "b64_pad_encode r = map b64_char (sextets r) @ replicate k CHR ''=''" by blast
  then show ?case by (intro exI [of _ k]) simp
qed (simp add: exI [of _ 0])

lemma rstrip_eq_replicate:
  assumes "CHR ''='' \<notin> set s"
  shows "rstrip_eq (s @ replicate k CHR ''='') = s"
proof -
  have "dropWhile (\<lambda>c. c = CHR ''='') (rev s) = rev s"
    using assms by (cases s rule: rev_cases) auto
  moreover have "dropWhile (\<lambda>c. c = CHR ''='') (replicate k CHR ''='' @ rev s) = dropWhile (\<lambda>c. c = CHR ''='') (rev s)"
    by (induction k) simp_all
  ultimately show ?thesis by (simp add: rstrip_eq_def)
qed

lemma octets_bytes_of: "octets (bytes_of s)"
  by (simp add: octets_def bytes_of_def)

lemma b64_encode_sextets: "b64_encode s = map b64_char (sextets (bytes_of s))"
proof -
  have "CHR ''='' \<notin> set (map b64_char (sextets (bytes_of s)))"
    using sextets_small [OF octets_bytes_of] b64_char_not by fastforce
  with pad_encode [of "bytes_of s"] show ?thesis by (auto simp: b64_encode_def rstrip_eq_replicate)
qed

declare a2b.simps(2) [simp del]

lemma a2b_sextet:
  assumes "v < 64"
  shows "a2b 0 left pads n (b64_char v # s) = a2b 1 v 0 n s"
    "a2b 1 left pads n (b64_char v # s) = map_sum id (Cons (left * 4 + v div 16)) (a2b 2 (v mod 16) 0 (n + 1) s)"
    "a2b 2 left pads n (b64_char v # s) = map_sum id (Cons (left * 16 + v div 4)) (a2b 3 (v mod 4) 0 (n + 1) s)"
    "a2b 3 left pads n (b64_char v # s) = map_sum id (Cons (left * 64 + v)) (a2b 0 0 0 (n + 1) s)"
  using b64_char_not [OF assms] b64_val_char [OF assms] by (simp_all add: a2b.simps)

lemma a2b_pads:
  "a2b 2 left 0 n [CHR ''='', CHR ''=''] = Inr []" "a2b 3 left 0 n [CHR ''=''] = Inr []"
  by (simp_all add: a2b.simps)

text \<open>The bits of three bytes and of four sextets.\<close>

lemma group_bits:
  fixes a b c :: nat
  assumes "b < 256" "c < 256"
  shows "a div 4 * 4 + (a mod 4 * 16 + b div 16) div 16 = a"
    "(a mod 4 * 16 + b div 16) mod 16 * 16 + (b mod 16 * 4 + c div 64) div 4 = b"
    "(b mod 16 * 4 + c div 64) mod 4 * 64 + c mod 64 = c"
proof -
  have q: "b div 16 < 16" "c div 64 < 4" using assms by simp_all
  then have "(a mod 4 * 16 + b div 16) div 16 = a mod 4" "(a mod 4 * 16 + b div 16) mod 16 = b div 16"
    "(b mod 16 * 4 + c div 64) div 4 = b mod 16" "(b mod 16 * 4 + c div 64) mod 4 = c div 64"
    by simp_all
  then show "a div 4 * 4 + (a mod 4 * 16 + b div 16) div 16 = a"
    "(a mod 4 * 16 + b div 16) mod 16 * 16 + (b mod 16 * 4 + c div 64) div 4 = b"
    "(b mod 16 * 4 + c div 64) mod 4 * 64 + c mod 64 = c"
    by simp_all
qed

lemma pad_of_simps [simp]:
  "pad_of 0 = []" "pad_of (Suc (Suc 0)) = [CHR ''='', CHR ''='']" "pad_of (Suc (Suc (Suc 0))) = [CHR ''='']"
  "pad_of (Suc (Suc (Suc (Suc n)))) = pad_of n"
proof -
  have "Suc (Suc (Suc (Suc n))) mod 4 = n mod 4" by presburger
  then show "pad_of (Suc (Suc (Suc (Suc n)))) = pad_of n" by (simp only: pad_of_def)
  have "Suc (Suc 0) mod 4 = (2::nat)" "Suc (Suc (Suc 0)) mod 4 = (3::nat)" "4 - 2 = Suc (Suc 0)" "4 - 3 = Suc 0"
    by simp_all
  then show "pad_of (Suc (Suc 0)) = [CHR ''='', CHR ''='']" "pad_of (Suc (Suc (Suc 0))) = [CHR ''='']"
    by (simp_all only: pad_of_def replicate.simps) simp_all
qed (simp add: pad_of_def)

text \<open>The decoder reads back the bytes from their sextets and the restored padding.\<close>

lemma a2b_sextets:
  assumes "octets bs"
  shows "a2b 0 0 0 n (map b64_char (sextets bs) @ pad_of (length (sextets bs))) = Inr bs"
  using assms
proof (induction bs arbitrary: n rule: sextets.induct)
  case (2 a)
  then have small: "a div 4 < 64" "a mod 4 * 16 < 64" by (auto simp: octets_def)
  have "a div 4 * 4 + a mod 4 * 16 div 16 = a" using group_bits(1) [of 0 0 a] by simp
  then show ?case
    by (simp only: sextets.simps list.map list.size add_0 add_Suc_right add_0_right pad_of_simps append.simps
        a2b_sextet [OF small(1)] a2b_sextet [OF small(2)] a2b_pads map_sum.simps)
next
  case (3 a b)
  then have small: "a div 4 < 64" "a mod 4 * 16 + b div 16 < 64" "b mod 16 * 4 < 64" "b < 256"
    by (auto simp: octets_def)
  have "(a mod 4 * 16 + b div 16) mod 16 * 16 + b mod 16 * 4 div 4 = b"
    using group_bits(2) [OF small(4), of 0 a] by simp
  moreover have "a div 4 * 4 + (a mod 4 * 16 + b div 16) div 16 = a"
    by (rule group_bits(1) [OF small(4), of 0]) simp
  ultimately show ?case
    by (simp only: sextets.simps list.map list.size add_0 add_Suc_right add_0_right pad_of_simps append.simps
        a2b_sextet [OF small(1)] a2b_sextet [OF small(2)] a2b_sextet [OF small(3)] a2b_pads map_sum.simps)
next
  case (4 a b c r)
  then have small: "a div 4 < 64" "a mod 4 * 16 + b div 16 < 64" "b mod 16 * 4 + c div 64 < 64" "c mod 64 < 64"
    "octets r" "b < 256" "c < 256" by (auto simp: octets_def)
  show ?case
    by (simp only: sextets.simps append.simps list.map list.size add_0 add_Suc_right add_0_right pad_of_simps
        a2b_sextet [OF small(1)] a2b_sextet [OF small(2)] a2b_sextet [OF small(3)] a2b_sextet [OF small(4)]
        4(1) [OF small(5)] map_sum.simps group_bits [OF small(6,7)])
qed simp

lemma b64_decode_encode: "b64_decode (b64_encode s) = Inr s"
proof -
  have "map char_of (bytes_of s) = s" by (simp add: bytes_of_def o_def)
  then show ?thesis
    using a2b_sextets [OF octets_bytes_of [of s], of 0]
    by (simp add: b64_decode_def b64_encode_sextets)
qed

lemma no_dot_in_b64: "CHR ''.'' \<notin> set (b64_encode s)"
  using sextets_small [OF octets_bytes_of] b64_char_not by (fastforce simp: b64_encode_sextets)

section \<open>With the padding\<close>

lemma pad_encode_sextets: "b64_pad_encode bs = map b64_char (sextets bs) @ pad_of (length (sextets bs))"
  by (induction bs rule: sextets.induct) simp_all

text \<open>\<open>base64.urlsafe_b64encode(s).decode()\<close> and \<open>base64.urlsafe_b64decode(s)\<close>\<close>

definition b64_encode_padded :: "string \<Rightarrow> string" where
  "b64_encode_padded s = b64_pad_encode (bytes_of s)"

definition b64_decode_padded :: "string \<Rightarrow> string + string" where
  "b64_decode_padded s = map_sum id (map char_of) (a2b 0 0 0 0 s)"

lemma b64_decode_padded_encode: "b64_decode_padded (b64_encode_padded s) = Inr s"
proof -
  have "map char_of (bytes_of s) = s" by (simp add: bytes_of_def o_def)
  then show ?thesis
    using a2b_sextets [OF octets_bytes_of [of s], of 0]
    by (simp add: b64_decode_padded_def b64_encode_padded_def pad_encode_sextets)
qed

lemma no_dot_in_b64_padded: "CHR ''.'' \<notin> set (b64_encode_padded s)"
  using sextets_small [OF octets_bytes_of] b64_char_not
  by (fastforce simp: b64_encode_padded_def pad_encode_sextets pad_of_def split: if_splits)

end
