(* ===== verification/OAuth.thy ===== *)
theory OAuth
  imports Users Base64
begin

text \<open>
  Login through an identity provider: the signed state of \<open>auth/oauth_state.py\<close> and the two
  handlers of \<open>api/oauth_routes.py\<close>. The provider's token and profile endpoints, the HMAC and
  \<open>json.loads\<close> are parameters.
\<close>

section \<open>The state token\<close>

record state_payload =
  sp_provider :: string
  sp_ts :: int
  sp_nonce :: string
  sp_max_age :: int

text \<open>\<open>json.dumps\<close> with the compact separators\<close>

definition state_json :: "state_payload \<Rightarrow> string" where
  "state_json p =
     ''{'' @ json_str ''provider'' @ '':'' @ json_str (sp_provider p) @ '','' @ json_str ''ts'' @ '':'' @ int_str (sp_ts p)
     @ '','' @ json_str ''nonce'' @ '':'' @ json_str (sp_nonce p) @ '','' @ json_str ''max_age'' @ '':''
     @ int_str (sp_max_age p) @ ''}''"

text \<open>What the code reads of a parsed payload: \<open>get('provider')\<close> and \<open>get('ts', 0)\<close>.\<close>

record state_data =
  sd_provider :: "string option"
  sd_ts :: int

text \<open>The environment: the HMAC, \<open>POND_OAUTH_SECRET\<close> and \<open>json.loads\<close> (left: the exception).\<close>

record state_env =
  se_mac :: "string \<Rightarrow> string \<Rightarrow> string"
  se_secret :: string
  se_loads :: "string \<Rightarrow> string + state_data"

text \<open>The dash in two of the messages, in UTF-8\<close>

definition em_dash :: string where
  "em_dash = [CHR 0xE2, CHR 0x80, CHR 0x94]"

definition no_oauth_secret :: string where
  "no_oauth_secret = ''POND_OAUTH_SECRET is not configured''"

definition compute_sig :: "state_env \<Rightarrow> string \<Rightarrow> string" where
  "compute_sig E payload = se_mac E (se_secret E) payload"

definition generate_state :: "state_env \<Rightarrow> int \<Rightarrow> string \<Rightarrow> string \<Rightarrow> int \<Rightarrow> string + string" where
  "generate_state E now nonce provider max_age =
     (if se_secret E = [] then Inl no_oauth_secret
      else
        (let payload = b64_encode (state_json \<lparr>sp_provider = provider, sp_ts = now, sp_nonce = nonce,
                                              sp_max_age = max_age\<rparr>)
         in Inr (payload @ ''.'' @ compute_sig E payload)))"

text \<open>The left side is the text of the \<open>ValueError\<close>.\<close>

definition verify_state :: "state_env \<Rightarrow> int \<Rightarrow> int \<Rightarrow> string \<Rightarrow> string + state_data" where
  "verify_state E now max_age token =
     (if token = [] then Inl ''Empty state token''
      else if se_secret E = [] then Inl no_oauth_secret
      else
        (case split_on CHR ''.'' token of
           [payload, sig] \<Rightarrow>
             if sig \<noteq> compute_sig E payload
             then Inl (''Invalid signature '' @ em_dash @ '' token tampered or wrong secret'')
             else
               (case (case b64_decode payload of Inl e \<Rightarrow> Inl e | Inr text \<Rightarrow> se_loads E text) of
                  Inl e \<Rightarrow> Inl (''Malformed state token payload: '' @ e)
                | Inr d \<Rightarrow>
                    (let age = now - sd_ts d in
                     if max_age < age
                     then Inl (''Expired state token (age='' @ int_str age @ ''s, max='' @ int_str max_age @ ''s)'')
                     else Inr d))
         | _ \<Rightarrow> Inl (''Invalid state token format '' @ em_dash @ '' expected payload.signature'')))"

section \<open>The handlers\<close>

text \<open>\<open>urllib.parse.quote_plus\<close> and \<open>urlencode\<close>\<close>

definition upper_hex :: "nat \<Rightarrow> char" where
  "upper_hex n = char_of (if n < 10 then 48 + n else 55 + n)"

definition quote_char :: "char \<Rightarrow> string" where
  "quote_char c =
     (if is_word c \<or> c \<in> {CHR ''.'', CHR ''-'', CHR 0x7E} then [c]
      else if c = CHR '' '' then ''+''
      else [CHR ''%'', upper_hex (of_char c div 16), upper_hex (of_char c mod 16)])"

definition quote_plus :: "string \<Rightarrow> string" where
  "quote_plus s = concat (map quote_char s)"

fun urlencode :: "(string \<times> string) list \<Rightarrow> string" where
  "urlencode [] = []"
| "urlencode [(k, v)] = quote_plus k @ ''='' @ quote_plus v"
| "urlencode ((k, v) # p # ps) = quote_plus k @ ''='' @ quote_plus v @ ''&'' @ urlencode (p # ps)"

record provider_cfg =
  pc_client_id_env :: string
  pc_client_secret_env :: string
  pc_authorize_url :: string
  pc_token_url :: string
  pc_userinfo_url :: string
  pc_scope :: string

definition supported_providers :: "(string \<times> provider_cfg) list" where
  "supported_providers =
     [(''google'', \<lparr>pc_client_id_env = ''POND_GOOGLE_CLIENT_ID'', pc_client_secret_env = ''POND_GOOGLE_CLIENT_SECRET'',
        pc_authorize_url = ''https://accounts.google.com/o/oauth2/v2/auth'',
        pc_token_url = ''https://oauth2.googleapis.com/token'',
        pc_userinfo_url = ''https://openidconnect.googleapis.com/v1/userinfo'', pc_scope = ''openid email profile''\<rparr>),
      (''github'', \<lparr>pc_client_id_env = ''POND_GITHUB_CLIENT_ID'', pc_client_secret_env = ''POND_GITHUB_CLIENT_SECRET'',
        pc_authorize_url = ''https://github.com/login/oauth/authorize'',
        pc_token_url = ''https://github.com/login/oauth/access_token'',
        pc_userinfo_url = ''https://api.github.com/user'', pc_scope = ''user:email''\<rparr>)]"

text \<open>What the code reads of the profile the provider answers; a missing entry is \<open>None\<close>, and
  the two identifiers are given as \<open>str\<close> renders them.\<close>

record profile =
  pf_sub :: "string option"
  pf_id :: "string option"
  pf_email :: "string option"
  pf_name :: "string option"
  pf_login :: "string option"
  pf_picture :: "string option"
  pf_avatar_url :: "string option"

text \<open>
  The environment of the handlers: the variables of the process, and the two calls to the
  provider. \<open>oe_post url form\<close> is the \<open>access_token\<close> of the answer (empty when it has none),
  \<open>oe_get url headers\<close> the profile; the left sides are the texts of the exceptions.
\<close>

record oauth_env =
  oe_state :: state_env
  oe_deps :: auth_deps
  oe_env :: auth_env
  oe_vars :: "string \<Rightarrow> string option"
  oe_post :: "string \<Rightarrow> (string \<times> string) list \<Rightarrow> string + string"
  oe_get :: "string \<Rightarrow> (string \<times> string) list \<Rightarrow> string + profile"

definition exchange_code_for_token ::
    "oauth_env \<Rightarrow> provider_cfg \<Rightarrow> string \<Rightarrow> string \<Rightarrow> string + string" where
  "exchange_code_for_token E cfg code redirect =
     oe_post E (pc_token_url cfg)
       [(''grant_type'', ''authorization_code''), (''code'', code), (''redirect_uri'', redirect),
        (''client_id'', get_or (oe_vars E (pc_client_id_env cfg)) []),
        (''client_secret'', get_or (oe_vars E (pc_client_secret_env cfg)) [])]"

definition fetch_user_info :: "oauth_env \<Rightarrow> provider_cfg \<Rightarrow> string \<Rightarrow> string + profile" where
  "fetch_user_info E cfg token = oe_get E (pc_userinfo_url cfg) [(''Authorization'', ''Bearer '' @ token)]"

definition extract_user_id :: "string \<Rightarrow> profile \<Rightarrow> string" where
  "extract_user_id provider pf =
     (if provider = ''google'' then get_or (pf_sub pf) ''unknown''
      else if provider = ''github'' then get_or (pf_id pf) ''unknown''
      else if truthy (pf_sub pf) then the (pf_sub pf) else get_or (pf_id pf) ''unknown'')"

definition rstrip_slash :: "string \<Rightarrow> string" where
  "rstrip_slash s = rev (dropWhile (\<lambda>c. c = CHR ''/'') (rev s))"

text \<open>\<open>base_url\<close> is that of the request.\<close>

definition build_redirect_uri :: "oauth_env \<Rightarrow> string \<Rightarrow> string \<Rightarrow> string" where
  "build_redirect_uri E base_url provider =
     get_or (oe_vars E ''POND_BASE_URL'') (rstrip_slash base_url) @ ''/auth/'' @ provider @ ''/callback''"

definition unknown_provider :: "string \<Rightarrow> http_exc" where
  "unknown_provider provider =
     HTTPException 404 (''Unknown provider: '' @ py_repr provider @ ''. Supported: ['' @ py_repr ''google'' @ '', ''
       @ py_repr ''github'' @ '']'')"

definition default_max_age :: int where
  "default_max_age = 600"

text \<open>The answer is the URL of the redirection.\<close>

definition initiate_oauth :: "oauth_env \<Rightarrow> int \<Rightarrow> string \<Rightarrow> string \<Rightarrow> string \<Rightarrow> string http" where
  "initiate_oauth E now nonce base_url provider =
     (case map_of supported_providers provider of
        None \<Rightarrow> Inl (unknown_provider provider)
      | Some cfg \<Rightarrow>
          (let client_id = get_or (oe_vars E (pc_client_id_env cfg)) [] in
           if client_id = []
           then Inl (HTTPException 500 (''OAuth client_id not configured (env: '' @ pc_client_id_env cfg @ '')''))
           else
             (case generate_state (oe_state E) now nonce provider default_max_age of
                Inl _ \<Rightarrow> Inl server_error
              | Inr state \<Rightarrow>
                  Inr (pc_authorize_url cfg @ ''?'' @ urlencode
                    [(''response_type'', ''code''), (''client_id'', client_id), (''scope'', pc_scope cfg),
                     (''state'', state), (''redirect_uri'', build_redirect_uri E base_url provider)]))))"

text \<open>The query parameters of the callback\<close>

record callback =
  cb_code :: "string option"
  cb_state :: "string option"
  cb_error :: "string option"
  cb_error_description :: "string option"

record oauth_tokens =
  ot_access :: string
  ot_refresh :: string

definition provision_user ::
    "instant \<Rightarrow> string \<Rightarrow> string \<Rightarrow> string \<Rightarrow> string \<Rightarrow> profile \<Rightarrow> user_db \<Rightarrow> user_db" where
  "provision_user t uid provider user_id tenant pf db =
     (let email = lower (or_else (pf_email pf) []);
          name = or_else (pf_name pf) (or_else (pf_login pf) email);
          avatar = (if truthy (pf_picture pf) then pf_picture pf else pf_avatar_url pf)
      in snd (upsert_user t uid provider user_id email name tenant avatar db))"

definition oauth_callback ::
    "oauth_env \<Rightarrow> int \<Rightarrow> instant \<Rightarrow> string \<Rightarrow> string \<Rightarrow> string \<Rightarrow> string \<Rightarrow> string \<Rightarrow> callback \<Rightarrow> user_db \<Rightarrow>
      oauth_tokens http \<times> user_db" where
  "oauth_callback E now t uid jti jti2 base_url provider cb db =
     (let fail = (\<lambda>n d. (Inl (HTTPException n d), db)) in
      case map_of supported_providers provider of
        None \<Rightarrow> (Inl (unknown_provider provider), db)
      | Some cfg \<Rightarrow>
          if truthy (cb_error cb)
          then fail 400 (if truthy (cb_error_description cb)
                         then the (cb_error cb) @ '': '' @ the (cb_error_description cb) else the (cb_error cb))
          else if \<not> truthy (cb_code cb) then fail 400 ''Missing authorization code''
          else if \<not> truthy (cb_state cb) then fail 400 ''Missing state parameter''
          else
            (case verify_state (oe_state E) now default_max_age (the (cb_state cb)) of
               Inl e \<Rightarrow> fail 400 (''Invalid state: '' @ e)
             | Inr d \<Rightarrow>
                 if sd_provider d \<noteq> Some provider
                 then fail 400 (''State provider mismatch: expected ''
                        @ (case sd_provider d of None \<Rightarrow> ''None'' | Some p \<Rightarrow> py_repr p) @ '', got '' @ py_repr provider)
                 else
                   (case exchange_code_for_token E cfg (the (cb_code cb)) (build_redirect_uri E base_url provider) of
                      Inl e \<Rightarrow> fail 502 (''Token exchange failed: '' @ e)
                    | Inr token \<Rightarrow>
                        (case fetch_user_info E cfg token of
                           Inl e \<Rightarrow> fail 502 (''User info fetch failed: '' @ e)
                         | Inr pf \<Rightarrow>
                             (let user_id = extract_user_id provider pf;
                                  tenant = provider @ '':'' @ user_id;
                                  db' = provision_user t uid provider user_id tenant pf db
                              in case create_access_token (ad_jwt (oe_deps E)) (oe_env E) now jti tenant None None of
                                   Inl e \<Rightarrow> (Inl e, db')
                                 | Inr access \<Rightarrow>
                                     (case create_refresh_token (ad_jwt (oe_deps E)) (ad_mac (oe_deps E)) (oe_env E)
                                             now jti2 tenant None None of
                                        Inl e \<Rightarrow> (Inl e, db')
                                      | Inr refresh \<Rightarrow>
                                          (Inr \<lparr>ot_access = access, ot_refresh = refresh\<rparr>, db')))))))"

section \<open>State tokens\<close>

lemma split_on_nonempty: "split_on c s \<noteq> []"
  by (cases s) (auto split: list.splits)

lemma split_on_single: "split_on c s = [y] \<Longrightarrow> s = y"
proof (induction s arbitrary: y)
  case (Cons a s)
  then show ?case using split_on_nonempty [of c s] by (auto split: if_splits list.splits)
qed simp

lemma split_on_join: "split_on c s = [x, y] \<Longrightarrow> s = x @ c # y"
proof (induction s arbitrary: x y)
  case (Cons a s)
  show ?case
  proof (cases "a = c")
    case True
    then show ?thesis using Cons.prems split_on_single [of c s y] by auto
  next
    case False
    then show ?thesis using Cons by (auto split: list.splits)
  qed
qed simp

lemma verify_stateD:
  assumes "verify_state E now max_age token = Inr d"
  shows "\<exists>payload msg. token = payload @ ''.'' @ compute_sig E payload \<and> b64_decode payload = Inr msg \<and>
    se_loads E msg = Inr d \<and> now - sd_ts d \<le> max_age \<and> se_secret E \<noteq> []"
proof -
  from assms have secret: "se_secret E \<noteq> []" and "\<exists>payload. split_on CHR ''.'' token = [payload, compute_sig E payload]"
    by (auto simp: verify_state_def split: if_splits list.splits)
  then obtain payload where s: "split_on CHR ''.'' token = [payload, compute_sig E payload]" by blast
  with assms obtain msg where "b64_decode payload = Inr msg" "se_loads E msg = Inr d" "now - sd_ts d \<le> max_age"
    by (auto simp: verify_state_def Let_def split: if_splits sum.splits)
  then show ?thesis using split_on_join [OF s] secret by auto
qed

lemma generated_state_verified:
  assumes "generate_state E now nonce provider max_age = Inr token"
    and "\<And>x. CHR ''.'' \<notin> set (se_mac E (se_secret E) x)"
    and "se_loads E (state_json \<lparr>sp_provider = provider, sp_ts = now, sp_nonce = nonce, sp_max_age = max_age\<rparr>) =
      Inr \<lparr>sd_provider = Some provider, sd_ts = now\<rparr>"
  shows "verify_state E now' m token =
    (if m < now' - now
     then Inl (''Expired state token (age='' @ int_str (now' - now) @ ''s, max='' @ int_str m @ ''s)'')
     else Inr \<lparr>sd_provider = Some provider, sd_ts = now\<rparr>)"
proof -
  let ?json = "state_json \<lparr>sp_provider = provider, sp_ts = now, sp_nonce = nonce, sp_max_age = max_age\<rparr>"
  let ?payload = "b64_encode ?json"
  have token: "token = ?payload @ CHR ''.'' # compute_sig E ?payload" and secret: "se_secret E \<noteq> []"
    using assms(1) by (auto simp: generate_state_def Let_def split: if_splits)
  have "split_on CHR ''.'' token = [?payload, compute_sig E ?payload]"
    using split_on_append [OF no_dot_in_b64 [of ?json]] split_on_none [OF assms(2)]
    by (simp add: token compute_sig_def)
  then show ?thesis
    using secret by (simp add: verify_state_def Let_def b64_decode_encode assms(3)) (simp add: token)
qed

text \<open>
  Property C27. The state sent to a provider is accepted until its age exceeds the limit, and yields
  the provider it was made for; after that it is refused. A text whose signature is not the HMAC of
  its payload under the secret of the server is always refused.
\<close>

theorem oauth_state_round_trip:
  assumes "generate_state E now nonce provider max_age = Inr token"
    and "\<And>x. CHR ''.'' \<notin> set (se_mac E (se_secret E) x)"
    and "se_loads E (state_json \<lparr>sp_provider = provider, sp_ts = now, sp_nonce = nonce, sp_max_age = max_age\<rparr>) =
      Inr \<lparr>sd_provider = Some provider, sd_ts = now\<rparr>"
  shows "(now' - now \<le> max_age \<longrightarrow>
      verify_state E now' max_age token = Inr \<lparr>sd_provider = Some provider, sd_ts = now\<rparr>) \<and>
    (max_age < now' - now \<longrightarrow> \<not> is_ok (verify_state E now' max_age token)) \<and>
    (\<forall>payload sig t m. CHR ''.'' \<notin> set payload \<and> CHR ''.'' \<notin> set sig \<and>
       sig \<noteq> se_mac E (se_secret E) payload \<longrightarrow> \<not> is_ok (verify_state E t m (payload @ ''.'' @ sig)))"
proof -
  have "\<not> is_ok (verify_state E t m (payload @ ''.'' @ sig))"
    if "CHR ''.'' \<notin> set payload" "CHR ''.'' \<notin> set sig" "sig \<noteq> se_mac E (se_secret E) payload" for payload sig t m
    using that split_on_append [OF that(1), of sig] split_on_none [OF that(2)]
    by (simp add: verify_state_def compute_sig_def)
  then show ?thesis using generated_state_verified [OF assms, of now' max_age] by auto
qed

section \<open>Logins\<close>

lemma provision_user_cases:
  fixes pf :: profile
  defines "email \<equiv> lower (or_else (pf_email pf) [])"
  shows "(\<exists>u \<in> set (ud_users (provision_user t uid provider user_id tenant pf db)).
      us_provider u = provider \<and> us_provider_id u = user_id) \<or>
    (provision_user t uid provider user_id tenant pf db = db \<and>
     (\<exists>u \<in> set (ud_users db). us_id u = uid \<or> us_email u = lower email \<or> us_tenant_id u = tenant))"
proof (cases "get_user_by_provider_id provider user_id db")
  case None
  let ?name = "or_else (pf_name pf) (or_else (pf_login pf) email)"
  let ?avatar = "if truthy (pf_picture pf) then pf_picture pf else pf_avatar_url pf"
  have "provision_user t uid provider user_id tenant pf db =
      snd (create_user t uid email ?name provider user_id tenant ''member'' ?avatar db)"
    unfolding provision_user_def upsert_user_def Let_def email_def None option.case ..
  moreover have "(\<exists>u \<in> set (ud_users (snd (create_user t uid email name provider user_id tenant r a db))).
        us_provider u = provider \<and> us_provider_id u = user_id) \<or>
      (snd (create_user t uid email name provider user_id tenant r a db) = db \<and>
       (\<exists>u \<in> set (ud_users db). us_id u = uid \<or> us_email u = lower email \<or> us_tenant_id u = tenant))" for name r a
  proof (cases "uid \<in> us_id ` set (ud_users db) \<or> lower email \<in> us_email ` set (ud_users db) \<or>
      tenant \<in> us_tenant_id ` set (ud_users db)")
    case True
    then have "\<exists>u \<in> set (ud_users db). us_id u = uid \<or> us_email u = lower email \<or> us_tenant_id u = tenant"
    proof (elim disjE)
      assume "uid \<in> us_id ` set (ud_users db)"
      from image_keyD [OF this] show ?thesis by (elim bexE) (rule bexI, rule disjI1)
    next
      assume "lower email \<in> us_email ` set (ud_users db)"
      from image_keyD [OF this] show ?thesis by (elim bexE) (rule bexI, rule disjI2, rule disjI1)
    next
      assume "tenant \<in> us_tenant_id ` set (ud_users db)"
      from image_keyD [OF this] show ?thesis by (elim bexE) (rule bexI, rule disjI2, rule disjI2)
    qed
    moreover have "snd (create_user t uid email name provider user_id tenant r a db) = db"
      using True by (simp add: create_user_def)
    ultimately show ?thesis by blast
  qed (simp add: create_user_def Let_def)
  ultimately show ?thesis by presburger
next
  case (Some u)
  then have u: "u \<in> set (ud_users db)" "us_provider u = provider" "us_provider_id u = user_id"
    unfolding get_user_by_provider_id_def by (auto dest: find_SomeD)
  then have "get_user_by_id (us_id u) db \<noteq> None" unfolding get_user_by_id_def find_None_iff_ball by blast
  then obtain u' where u': "get_user_by_id (us_id u) db = Some u'" by blast
  let ?k = "no_update\<lparr>uu_last_login_at := Some (isoformat t),
      uu_display_name := Some (or_else (pf_name pf) (or_else (pf_login pf) email)),
      uu_avatar_url := (if truthy (pf_picture pf) then pf_picture pf else pf_avatar_url pf)\<rparr>"
  have "?k \<noteq> no_update" by (simp add: no_update_def)
  then have "ud_users (provision_user t uid provider user_id tenant pf db) =
      update_where (\<lambda>v. us_id v = us_id u) (set_user_fields ?k) (ud_users db)"
    by (simp add: provision_user_def upsert_user_def Some update_user_def u' email_def Let_def)
  moreover have "set_user_fields ?k u \<in> set (update_where (\<lambda>v. us_id v = us_id u) (set_user_fields ?k) (ud_users db))"
    using u(1) by (auto simp: set_update_where)
  ultimately show ?thesis using u(2,3) by (metis set_user_fields_keys(4,5))
qed


section \<open>A concrete login\<close>

definition sample_state_env :: "int \<Rightarrow> state_env" where
  "sample_state_env now =
     \<lparr>se_mac = (\<lambda>k m. filter (\<lambda>c. c \<noteq> CHR ''.'') (k @ m)), se_secret = ''s'',
      se_loads = (\<lambda>x. if x = state_json \<lparr>sp_provider = ''github'', sp_ts = now, sp_nonce = ''ab'', sp_max_age = 600\<rparr>
                      then Inr \<lparr>sd_provider = Some ''github'', sd_ts = now\<rparr> else Inl ''Expecting value'')\<rparr>"

definition sample_state :: "int \<Rightarrow> string" where
  "sample_state now =
     (let payload = b64_encode (state_json \<lparr>sp_provider = ''github'', sp_ts = now, sp_nonce = ''ab'', sp_max_age = 600\<rparr>)
      in payload @ ''.'' @ compute_sig (sample_state_env now) payload)"

lemma sample_state_hyps:
  "generate_state (sample_state_env now) now ''ab'' ''github'' 600 = Inr (sample_state now)"
  "CHR ''.'' \<notin> set (se_mac (sample_state_env now) (se_secret (sample_state_env now)) x)"
  "se_loads (sample_state_env now) (state_json \<lparr>sp_provider = ''github'', sp_ts = now, sp_nonce = ''ab'', sp_max_age = 600\<rparr>) =
    Inr \<lparr>sd_provider = Some ''github'', sd_ts = now\<rparr>"
  by (simp_all add: generate_state_def sample_state_def sample_state_env_def Let_def)

theorem oauth_state_round_trip_witness:
  "verify_state (sample_state_env 1000) 1600 600 (sample_state 1000) =
     Inr \<lparr>sd_provider = Some ''github'', sd_ts = 1000\<rparr> \<and>
   \<not> is_ok (verify_state (sample_state_env 1000) 1601 600 (sample_state 1000)) \<and>
   \<not> is_ok (verify_state (sample_state_env 1000) 1001 600 (''eyJ9'' @ ''.'' @ ''s''))"
proof -
  note h = oauth_state_round_trip [OF sample_state_hyps [where now = 1000]]
  have "verify_state (sample_state_env 1000) 1600 600 (sample_state 1000) =
      Inr \<lparr>sd_provider = Some ''github'', sd_ts = 1000\<rparr>"
    using h [where now' = 1600, THEN conjunct1] by simp
  moreover have "\<not> is_ok (verify_state (sample_state_env 1000) 1601 600 (sample_state 1000))"
    using h [where now' = 1601, THEN conjunct2, THEN conjunct1] by simp
  moreover have "''s'' \<noteq> se_mac (sample_state_env 1000) (se_secret (sample_state_env 1000)) ''eyJ9''"
    by (simp add: sample_state_env_def)
  then have "\<not> is_ok (verify_state (sample_state_env 1000) 1001 600 (''eyJ9'' @ ''.'' @ ''s''))"
    by (intro h [where now' = 1000, THEN conjunct2, THEN conjunct2, rule_format]) simp
  ultimately show ?thesis by blast
qed

definition sample_profile :: profile where
  "sample_profile =
     \<lparr>pf_sub = None, pf_id = Some ''7'', pf_email = Some ''Ann@x.io'', pf_name = Some ''Ann'', pf_login = Some ''ann'',
      pf_picture = None, pf_avatar_url = None\<rparr>"

definition sample_oauth_env :: oauth_env where
  "sample_oauth_env =
     \<lparr>oe_state = sample_state_env 1000, oe_deps = sample_deps sample_access, oe_env = sample_env [] ''k1'',
      oe_vars = (\<lambda>_. None), oe_post = (\<lambda>_ _. Inr ''pt''), oe_get = (\<lambda>_ _. Inr sample_profile)\<rparr>"

definition sample_callback :: callback where
  "sample_callback =
     \<lparr>cb_code = Some ''c'', cb_state = Some (sample_state 1000), cb_error = None, cb_error_description = None\<rparr>"

lemma sample_state_nonempty: "sample_state now \<noteq> []"
  by (simp add: sample_state_def Let_def)


end
