(* ===== verification/Client.thy ===== *)
theory Client
  imports PyText
begin

text \<open>
  The Python client of the server, \<open>client.py\<close>: tokens, the retry loop, and the calls. The network
  is a parameter; what the client sends and how long it sleeps is recorded in the world, so that
  the effort of a call can be stated.
\<close>

section \<open>The network\<close>

type_synonym headers = "(string \<times> string) list"

text \<open>The requests the client sends, with their JSON bodies and query parameters.\<close>

datatype client_request =
    PostToken string string string                        \<comment> \<open>URL, API key, tenant\<close>
  | PostRefresh string "string option"                    \<comment> \<open>URL, refresh token\<close>
  | PostQuery string headers "string option" string "string option"  \<comment> \<open>URL, session, SQL, format\<close>
  | PostSave string headers string string string string   \<comment> \<open>URL, title, SQL, description, visibility\<close>
  | GetPath string headers "(string \<times> string) list"       \<comment> \<open>URL, parameters\<close>
  | PostSession string headers
  | DeleteSession string headers

text \<open>The keys the client reads of an answer, and the answer as a whole.\<close>

record 'd answer =
  an_access_token :: "string option"
  an_refresh_token :: "string option"
  an_expires_in :: "int option"
  an_slug :: "string option"
  an_session_id :: "string option"
  an_json :: 'd

text \<open>A response, \<open>httpx.ConnectError\<close>, or another exception of \<open>httpx\<close>.\<close>

datatype 'd outcome = Response int "'d answer" | ConnectError | Broken string

type_synonym ('x, 'd) network = "client_request \<Rightarrow> 'x \<Rightarrow> 'd outcome \<times> 'x"

text \<open>\<open>wd_now\<close> reads the monotonic clock and \<open>wd_random\<close> is the next number of \<open>random.random()\<close>,
  both from the state of the world, which also advances while the client sleeps.\<close>

record 'x world =
  wd_state :: 'x
  wd_sent :: "client_request list"
  wd_slept :: "rat list"

record ('x, 'd) net_env =
  ne_send :: "('x, 'd) network"
  ne_now :: "'x \<Rightarrow> rat"
  ne_random :: "'x \<Rightarrow> rat"
  ne_sleep :: "rat \<Rightarrow> 'x \<Rightarrow> 'x"
  ne_status_text :: "int \<Rightarrow> string"

definition send_request :: "('x, 'd) net_env \<Rightarrow> client_request \<Rightarrow> 'x world \<Rightarrow> 'd outcome \<times> 'x world" where
  "send_request N rq w =
     (case ne_send N rq (wd_state w) of
        (r, x) \<Rightarrow> (r, w\<lparr>wd_state := x, wd_sent := wd_sent w @ [rq]\<rparr>))"

definition pause :: "('x, 'd) net_env \<Rightarrow> rat \<Rightarrow> 'x world \<Rightarrow> 'x world" where
  "pause N d w = w\<lparr>wd_state := ne_sleep N d (wd_state w), wd_slept := wd_slept w @ [d]\<rparr>"

definition read_clock :: "('x, 'd) net_env \<Rightarrow> 'x world \<Rightarrow> rat" where
  "read_clock N w = ne_now N (wd_state w)"

section \<open>The state of the client\<close>

record client =
  cl_base_url :: string
  cl_api_key :: string
  cl_tenant_id :: string
  cl_max_retries :: int
  cl_access_token :: "string option"
  cl_refresh_token :: "string option"
  cl_expires_in :: "int option"
  cl_token_acquired_at :: "rat option"
  cl_session_id :: string

definition strip_slashes :: "string \<Rightarrow> string" where
  "strip_slashes s = rev (dropWhile (\<lambda>c. c = CHR ''/'') (rev s))"

text \<open>\<open>uuid4\<close> generates the session identifier.\<close>

definition new_client :: "string \<Rightarrow> string \<Rightarrow> string \<Rightarrow> string \<Rightarrow> int \<Rightarrow> client" where
  "new_client uuid base_url api_key tenant max_retries =
     \<lparr>cl_base_url = strip_slashes base_url, cl_api_key = api_key, cl_tenant_id = tenant, cl_max_retries = max_retries,
      cl_access_token = None, cl_refresh_token = None, cl_expires_in = None, cl_token_acquired_at = None,
      cl_session_id = uuid\<rparr>"

text \<open>The exceptions: the library's own, and those of \<open>httpx\<close> and of the missing key that pass through.\<close>

datatype client_error =
    AuthenticationError string
  | PondDBError string
  | QueryError string
  | RateLimitError string
  | HTTPStatusError int
  | NetworkError
  | OtherError string
  | MissingKey string

section \<open>Tokens\<close>

definition token_refresh_threshold :: rat where
  "token_refresh_threshold = 300"

definition is_near_expiry :: "('x, 'd) net_env \<Rightarrow> 'x world \<Rightarrow> client \<Rightarrow> bool" where
  "is_near_expiry N w c =
     (case (cl_access_token c, cl_token_acquired_at c, cl_expires_in c) of
        (Some _, Some t, Some e) \<Rightarrow> of_int e - (read_clock N w - t) < token_refresh_threshold
      | _ \<Rightarrow> True)"

definition bearer :: "string option \<Rightarrow> string" where
  "bearer token = ''Bearer '' @ (case token of None \<Rightarrow> ''None'' | Some t \<Rightarrow> t)"

definition bearer_headers :: "client \<Rightarrow> headers" where
  "bearer_headers c = [(''Authorization'', bearer (cl_access_token c))]"

definition is_success :: "int \<Rightarrow> bool" where
  "is_success status = (200 \<le> status \<and> status < 300)"

text \<open>\<open>resp = await self._http.post(...); resp.raise_for_status()\<close>\<close>

definition checked :: "'d outcome \<Rightarrow> client_error + 'd answer" where
  "checked r =
     (case r of
        Response status a \<Rightarrow> if is_success status then Inr a else Inl (HTTPStatusError status)
      | ConnectError \<Rightarrow> Inl NetworkError
      | Broken e \<Rightarrow> Inl (OtherError e))"

definition client_authenticate ::
    "('x, 'd) net_env \<Rightarrow> client \<Rightarrow> 'x world \<Rightarrow> (client_error + unit) \<times> client \<times> 'x world" where
  "client_authenticate N c w =
     (case send_request N (PostToken (cl_base_url c @ ''/auth/token'') (cl_api_key c) (cl_tenant_id c)) w of
        (r, w') \<Rightarrow>
          (case checked r of
             Inl (HTTPStatusError status) \<Rightarrow>
               (Inl (if status = 401 then AuthenticationError ''Invalid API key''
                     else PondDBError (ne_status_text N status)), c, w')
           | Inl e \<Rightarrow> (Inl e, c, w')
           | Inr a \<Rightarrow>
               (case an_access_token a of
                  None \<Rightarrow> (Inl (MissingKey ''access_token''), c, w')
                | Some token \<Rightarrow>
                    (Inr (), c\<lparr>cl_access_token := Some token, cl_refresh_token := an_refresh_token a,
                               cl_expires_in := an_expires_in a, cl_token_acquired_at := Some (read_clock N w')\<rparr>, w'))))"

definition do_refresh ::
    "('x, 'd) net_env \<Rightarrow> client \<Rightarrow> 'x world \<Rightarrow> (client_error + unit) \<times> client \<times> 'x world" where
  "do_refresh N c w =
     (case send_request N (PostRefresh (cl_base_url c @ ''/auth/refresh'') (cl_refresh_token c)) w of
        (r, w') \<Rightarrow>
          (case checked r of
             Inl (HTTPStatusError status) \<Rightarrow> (Inl (AuthenticationError ''Token refresh failed''), c, w')
           | Inl e \<Rightarrow> (Inl e, c, w')
           | Inr a \<Rightarrow>
               (case an_access_token a of
                  None \<Rightarrow> (Inl (MissingKey ''access_token''), c, w')
                | Some token \<Rightarrow>
                    (Inr (), c\<lparr>cl_access_token := Some token,
                       cl_refresh_token := (if an_refresh_token a = None then cl_refresh_token c else an_refresh_token a),
                       cl_expires_in := (if an_expires_in a = None then cl_expires_in c else an_expires_in a),
                       cl_token_acquired_at := Some (read_clock N w')\<rparr>, w'))))"

definition ensure_authenticated ::
    "('x, 'd) net_env \<Rightarrow> client \<Rightarrow> 'x world \<Rightarrow> (client_error + unit) \<times> client \<times> 'x world" where
  "ensure_authenticated N c w =
     (if cl_access_token c = None then client_authenticate N c w
      else if is_near_expiry N w c then do_refresh N c w
      else (Inr (), c, w))"

section \<open>The retry loop\<close>

definition retry_status_codes :: "int list" where
  "retry_status_codes = [500, 502, 503, 504]"

definition backoff :: "int \<Rightarrow> rat \<Rightarrow> rat" where
  "backoff attempt r = 2 ^ nat attempt * (1/2 + 1/2 * r)"

text \<open>\<open>while True\<close> with the counter \<open>attempt\<close>, which is below \<open>max_retries\<close> whenever the loop goes on.\<close>

function post_with_retry ::
    "('x, 'd) net_env \<Rightarrow> int \<Rightarrow> client_request \<Rightarrow> int \<Rightarrow> 'x world \<Rightarrow> (client_error + 'd answer) \<times> 'x world" where
  "post_with_retry N max_retries rq attempt w =
     (case send_request N rq w of
        (r, w') \<Rightarrow>
          (let again = pause N (backoff attempt (ne_random N (wd_state w'))) w' in
           case checked r of
             Inr a \<Rightarrow> (Inr a, w')
           | Inl (HTTPStatusError status) \<Rightarrow>
               if status = 401 then (Inl (HTTPStatusError status), w')
               else if status \<in> set retry_status_codes then
                 (if max_retries \<le> attempt
                  then (Inl (PondDBError (''Server error '' @ int_str status @ '' after '' @ int_str (attempt + 1)
                               @ '' attempt(s)'')), w')
                  else post_with_retry N max_retries rq (attempt + 1) again)
               else (Inl (HTTPStatusError status), w')
           | Inl NetworkError \<Rightarrow>
               if max_retries \<le> attempt
               then (Inl (PondDBError (''Connection error after '' @ int_str (attempt + 1) @ '' attempt(s)'')), w')
               else post_with_retry N max_retries rq (attempt + 1) again
           | Inl e \<Rightarrow> (Inl e, w')))"
  by pat_completeness auto

termination
  by (relation "measure (\<lambda>(N, max_retries, rq, attempt, w). nat (max_retries - attempt))") auto

declare post_with_retry.simps [simp del]

section \<open>The calls\<close>

definition query_request_of :: "client \<Rightarrow> string \<Rightarrow> client_request" where
  "query_request_of c sql =
     PostQuery (cl_base_url c @ ''/query'') (bearer_headers c) (Some (cl_session_id c)) sql None"

definition client_query ::
    "('x, 'd) net_env \<Rightarrow> string \<Rightarrow> client \<Rightarrow> 'x world \<Rightarrow> (client_error + 'd) \<times> client \<times> 'x world" where
  "client_query N sql c w =
     (if blank sql then (Inl (QueryError ''SQL cannot be empty''), c, w)
      else
        (case ensure_authenticated N c w of
           (Inl e, c1, w1) \<Rightarrow> (Inl e, c1, w1)
         | (Inr _, c1, w1) \<Rightarrow>
             (case post_with_retry N (cl_max_retries c1) (query_request_of c1 sql) 0 w1 of
                (Inr a, w2) \<Rightarrow> (Inr (an_json a), c1, w2)
              | (Inl (HTTPStatusError status), w2) \<Rightarrow>
                  if status = 401 then
                    (case do_refresh N c1 w2 of
                       (Inl e, c2, w3) \<Rightarrow> (Inl e, c2, w3)
                     | (Inr _, c2, w3) \<Rightarrow>
                         (case post_with_retry N (cl_max_retries c2) (query_request_of c2 sql) 0 w3 of
                            (Inr a, w4) \<Rightarrow> (Inr (an_json a), c2, w4)
                          | (Inl (HTTPStatusError _), w4) \<Rightarrow>
                              (Inl (AuthenticationError ''Auth failed after token refresh''), c2, w4)
                          | (Inl e, w4) \<Rightarrow> (Inl e, c2, w4)))
                  else if status = 400 then (Inl (QueryError (ne_status_text N status)), c1, w2)
                  else (Inl (PondDBError (ne_status_text N status)), c1, w2)
              | (Inl e, w2) \<Rightarrow> (Inl e, c1, w2))))"

definition key_headers :: "client \<Rightarrow> headers" where
  "key_headers c =
     (''X-API-Key'', cl_api_key c) # (if truthy (cl_access_token c) then bearer_headers c else [])"

definition optional_headers :: "client \<Rightarrow> headers" where
  "optional_headers c = (if truthy (cl_access_token c) then bearer_headers c else [])"

definition save_query ::
    "('x, 'd) net_env \<Rightarrow> string \<Rightarrow> string \<Rightarrow> string \<Rightarrow> string \<Rightarrow> client \<Rightarrow> 'x world \<Rightarrow>
      (client_error + string) \<times> 'x world" where
  "save_query N title sql description visibility c w =
     (case send_request N (PostSave (cl_base_url c @ ''/queries'') (key_headers c) title sql description visibility) w of
        (r, w') \<Rightarrow>
          (case checked r of
             Inl (HTTPStatusError status) \<Rightarrow> (Inl (PondDBError (ne_status_text N status)), w')
           | Inl e \<Rightarrow> (Inl e, w')
           | Inr a \<Rightarrow> (case an_slug a of None \<Rightarrow> (Inl (MissingKey ''slug''), w') | Some slug \<Rightarrow> (Inr slug, w'))))"

definition get_json ::
    "('x, 'd) net_env \<Rightarrow> string \<Rightarrow> headers \<Rightarrow> (string \<times> string) list \<Rightarrow> 'x world \<Rightarrow> (client_error + 'd) \<times> 'x world" where
  "get_json N url hs params w =
     (case send_request N (GetPath url hs params) w of (r, w') \<Rightarrow> (map_sum id an_json (checked r), w'))"

definition list_queries_call ::
    "('x, 'd) net_env \<Rightarrow> int \<Rightarrow> int \<Rightarrow> client \<Rightarrow> 'x world \<Rightarrow> (client_error + 'd) \<times> 'x world" where
  "list_queries_call N limit offset c w =
     get_json N (cl_base_url c @ ''/queries'') (optional_headers c)
       [(''limit'', int_str limit), (''offset'', int_str offset)] w"

definition opt_param :: "string \<Rightarrow> string option \<Rightarrow> (string \<times> string) list" where
  "opt_param k v = (case v of None \<Rightarrow> [] | Some x \<Rightarrow> [(k, x)])"

definition get_history_call ::
    "('x, 'd) net_env \<Rightarrow> string option \<Rightarrow> int option \<Rightarrow> int option \<Rightarrow> client \<Rightarrow> 'x world \<Rightarrow>
      (client_error + 'd) \<times> 'x world" where
  "get_history_call N status limit offset c w =
     get_json N (cl_base_url c @ ''/history'') (optional_headers c)
       (opt_param ''status'' status @ opt_param ''limit'' (map_option int_str limit) @ opt_param ''offset'' (map_option int_str offset)) w"

definition share_query ::
    "('x, 'd) net_env \<Rightarrow> string \<Rightarrow> client \<Rightarrow> 'x world \<Rightarrow> (client_error + 'd) \<times> 'x world" where
  "share_query N slug c w =
     (case get_json N (cl_base_url c @ ''/q/'' @ slug) (key_headers c) [] w of
        (Inl (HTTPStatusError status), w') \<Rightarrow>
          (Inl (if status = 429 then RateLimitError (ne_status_text N status)
                else PondDBError (ne_status_text N status)), w')
      | (r, w') \<Rightarrow> (r, w'))"

section \<open>The synchronous client\<close>

record sync_client =
  sy_base_url :: string
  sy_api_key :: "string option"
  sy_token :: "string option"
  sy_session_id :: "string option"

definition sync_headers :: "sync_client \<Rightarrow> headers" where
  "sync_headers c =
     (if truthy (sy_token c) then [(''Authorization'', bearer (sy_token c))]
      else if truthy (sy_api_key c) then [(''X-API-Key'', the (sy_api_key c))] else [])"

definition sync_query ::
    "('x, 'd) net_env \<Rightarrow> string \<Rightarrow> string \<Rightarrow> sync_client \<Rightarrow> 'x world \<Rightarrow> (client_error + 'd) \<times> 'x world" where
  "sync_query N sql format c w =
     (case send_request N (PostQuery (sy_base_url c @ ''/query'') (sync_headers c) (sy_session_id c) sql (Some format)) w of
        (r, w') \<Rightarrow> (map_sum id an_json (checked r), w'))"

definition sync_connect ::
    "('x, 'd) net_env \<Rightarrow> sync_client \<Rightarrow> 'x world \<Rightarrow> (client_error + unit) \<times> sync_client \<times> 'x world" where
  "sync_connect N c w =
     (case send_request N (PostSession (sy_base_url c @ ''/session'') (sync_headers c)) w of
        (r, w') \<Rightarrow>
          (case checked r of
             Inl e \<Rightarrow> (Inl e, c, w')
           | Inr a \<Rightarrow> (Inr (), c\<lparr>sy_session_id := an_session_id a\<rparr>, w')))"

text \<open>The answer to the deletion is not looked at.\<close>

definition sync_close ::
    "('x, 'd) net_env \<Rightarrow> sync_client \<Rightarrow> 'x world \<Rightarrow> (client_error + unit) \<times> sync_client \<times> 'x world" where
  "sync_close N c w =
     (if \<not> truthy (sy_session_id c) then (Inr (), c, w)
      else
        (case send_request N (DeleteSession (sy_base_url c @ ''/session/'' @ the (sy_session_id c)) (sync_headers c)) w of
           (Response _ _, w') \<Rightarrow> (Inr (), c\<lparr>sy_session_id := None\<rparr>, w')
         | (ConnectError, w') \<Rightarrow> (Inl NetworkError, c, w')
         | (Broken e, w') \<Rightarrow> (Inl (OtherError e), c, w')))"

section \<open>The effort of the retry loop\<close>

text \<open>What a piece of the client's code sent and slept.\<close>

definition effort :: "'x world \<Rightarrow> client_request list \<Rightarrow> rat list \<Rightarrow> 'x world \<Rightarrow> bool" where
  "effort w rqs ds w' = (wd_sent w' = wd_sent w @ rqs \<and> wd_slept w' = wd_slept w @ ds)"

lemma effort_refl: "effort w [] [] w"
  by (simp add: effort_def)

lemma effort_trans: "effort w rqs ds w' \<Longrightarrow> effort w' rqs' ds' w'' \<Longrightarrow> effort w (rqs @ rqs') (ds @ ds') w''"
  by (simp add: effort_def)

lemma effort_send: "send_request N rq w = (r, w') \<Longrightarrow> effort w [rq] [] w'"
  by (auto simp: send_request_def effort_def split: prod.splits)

lemma effort_pause: "effort w [] [d] (pause N d w)"
  by (simp add: effort_def pause_def)

definition fair_random :: "('x, 'd) net_env \<Rightarrow> bool" where
  "fair_random N = (\<forall>x. 0 \<le> ne_random N x \<and> ne_random N x \<le> 1)"

lemma backoff_bounds:
  assumes "fair_random N"
  shows "0 < backoff a (ne_random N x)" "backoff a (ne_random N x) \<le> 2 ^ nat a"
proof -
  have r: "0 \<le> ne_random N x" "ne_random N x \<le> 1" using assms by (simp_all add: fair_random_def)
  then have "0 < 1/2 + 1/2 * ne_random N x" "1/2 + 1/2 * ne_random N x \<le> 1" by linarith+
  then show "0 < backoff a (ne_random N x)" "backoff a (ne_random N x) \<le> 2 ^ nat a"
    unfolding backoff_def by (auto intro: mult_pos_pos mult_left_le)
qed

text \<open>One round of the loop: either it goes on, or the answer is decided.\<close>

definition retried :: "client_error + 'b \<Rightarrow> bool" where
  "retried r =
     (case r of
        Inl (HTTPStatusError status) \<Rightarrow> status \<noteq> 401 \<and> status \<in> set retry_status_codes
      | Inl NetworkError \<Rightarrow> True
      | _ \<Rightarrow> False)"

definition given_up :: "int \<Rightarrow> client_error + 'b \<Rightarrow> client_error + 'b" where
  "given_up attempt r =
     (case r of
        Inl (HTTPStatusError status) \<Rightarrow>
          Inl (if status \<noteq> 401 \<and> status \<in> set retry_status_codes
               then PondDBError (''Server error '' @ int_str status @ '' after '' @ int_str (attempt + 1) @ '' attempt(s)'')
               else HTTPStatusError status)
      | Inl NetworkError \<Rightarrow> Inl (PondDBError (''Connection error after '' @ int_str (attempt + 1) @ '' attempt(s)''))
      | _ \<Rightarrow> r)"

lemma post_with_retry_round:
  assumes "send_request N rq w = (r, w1)"
  shows "post_with_retry N m rq a w =
    (if a < m \<and> retried (checked r)
     then post_with_retry N m rq (a + 1) (pause N (backoff a (ne_random N (wd_state w1))) w1)
     else (given_up a (checked r), w1))"
proof (cases "checked r")
  case (Inl e)
  then show ?thesis
    by (subst post_with_retry.simps, cases e) (simp_all add: assms retried_def given_up_def Let_def)
next
  case (Inr b)
  then show ?thesis by (subst post_with_retry.simps) (simp add: assms retried_def given_up_def Let_def)
qed

lemma given_up_Inr: "given_up a r = Inr b \<Longrightarrow> r = Inr b"
  by (auto simp: given_up_def split: sum.splits client_error.splits)

text \<open>The loop ends, after at most \<open>max_retries\<close> repetitions and pauses of less than
  \<open>2 ^ max_retries\<close> seconds in all.\<close>

lemma post_with_retry_effort:
  assumes "post_with_retry N m rq a w = (r, w')" and "fair_random N" and "0 \<le> a"
  shows "\<exists>ds. effort w (replicate (Suc (length ds)) rq) ds w' \<and> (\<forall>d \<in> set ds. 0 < d) \<and>
    int (length ds) \<le> max 0 (m - a) \<and> sum_list ds \<le> 2 ^ (nat a + length ds) - 2 ^ nat a"
  using assms(1,3)
proof (induction "nat (m - a)" arbitrary: a w rule: less_induct)
  case less
  obtain o1 w1 where o1: "send_request N rq w = (o1, w1)" by (metis prod.collapse)
  have sent: "effort w [rq] [] w1" by (rule effort_send [OF o1])
  show ?case
  proof (cases "a < m \<and> retried (checked o1)")
    case True
    let ?d = "backoff a (ne_random N (wd_state w1))"
    have "post_with_retry N m rq (a + 1) (pause N ?d w1) = (r, w')"
      using less.prems(1) True by (simp add: post_with_retry_round [OF o1])
    moreover have "nat (m - (a + 1)) < nat (m - a)" "0 \<le> a + 1" using True less.prems(2) by simp_all
    ultimately obtain ds where ds: "effort (pause N ?d w1) (replicate (Suc (length ds)) rq) ds w'" "\<forall>d \<in> set ds. 0 < d"
        "int (length ds) \<le> max 0 (m - (a + 1))" "sum_list ds \<le> 2 ^ (nat (a + 1) + length ds) - 2 ^ nat (a + 1)"
      using less.hyps by blast
    note d = backoff_bounds [OF assms(2), of a "wd_state w1"]
    have "effort w ([rq] @ [] @ replicate (Suc (length ds)) rq) ([] @ [?d] @ ds) w'"
      by (rule effort_trans [OF sent effort_trans [OF effort_pause ds(1)]])
    then have "effort w (replicate (Suc (length (?d # ds))) rq) (?d # ds) w'" by simp
    moreover have "sum_list (?d # ds) \<le> 2 ^ (nat a + length (?d # ds)) - 2 ^ nat a"
    proof -
      have n: "nat (a + 1) = Suc (nat a)" using less.prems(2) by simp
      have "sum_list ds \<le> 2 ^ (nat a + length (?d # ds)) - 2 * 2 ^ nat a" using ds(4) unfolding n by simp
      with d(2) show ?thesis by simp
    qed
    moreover have "\<forall>x \<in> set (?d # ds). 0 < x" using d(1) ds(2) by simp
    moreover have "int (length (?d # ds)) \<le> max 0 (m - a)" using ds(3) True by simp
    ultimately show ?thesis by blast
  next
    case False
    then have "w' = w1" using less.prems(1) unfolding post_with_retry_round [OF o1] by auto
    then show ?thesis using sent by (intro exI [of _ "[]"]) simp
  qed
qed

text \<open>An answer of the loop is a successful response to the request.\<close>

definition answered :: "('x, 'd) net_env \<Rightarrow> client_request \<Rightarrow> 'd answer \<Rightarrow> bool" where
  "answered N rq b = (\<exists>x status. fst (ne_send N rq x) = Response status b \<and> is_success status)"

lemma checked_answered:
  assumes "send_request N rq w = (r, w1)" "checked r = Inr b"
  shows "answered N rq b"
proof -
  have "fst (ne_send N rq (wd_state w)) = r" using assms(1) by (auto simp: send_request_def split: prod.splits)
  moreover obtain status where "r = Response status b" "is_success status"
    using assms(2) by (auto simp: checked_def split: outcome.splits if_splits)
  ultimately show ?thesis unfolding answered_def by blast
qed

lemma post_with_retry_answered:
  assumes "post_with_retry N m rq a w = (Inr b, w')"
  shows "answered N rq b"
  using assms
proof (induction "nat (m - a)" arbitrary: a w rule: less_induct)
  case less
  obtain o1 w1 where o1: "send_request N rq w = (o1, w1)" by (metis prod.collapse)
  show ?case
  proof (cases "a < m \<and> retried (checked o1)")
    case True
    then have "nat (m - (a + 1)) < nat (m - a)" by simp
    moreover have "post_with_retry N m rq (a + 1) (pause N (backoff a (ne_random N (wd_state w1))) w1) = (Inr b, w')"
      using less.prems True by (simp add: post_with_retry_round [OF o1])
    ultimately show ?thesis by (rule less.hyps)
  next
    case False
    then have "checked o1 = Inr b"
      using less.prems given_up_Inr unfolding post_with_retry_round [OF o1] by auto
    then show ?thesis by (rule checked_answered [OF o1])
  qed
qed

text \<open>The loop as the calls use it.\<close>

lemma double_pauses:
  assumes "(x::rat) \<le> 2 ^ k - 1"
  shows "x \<le> 2 * (2 ^ k - 1)"
proof -
  have "(1::rat) \<le> 2 ^ k" by (rule one_le_power) simp
  with assms show ?thesis unfolding right_diff_distrib by linarith
qed

lemma retry_loop_effort:
  assumes "post_with_retry N m rq 0 w = (r, w')" and "fair_random N"
  shows "\<exists>n ds. effort w (replicate n rq) ds w' \<and> 1 \<le> n \<and> int n \<le> max 0 m + 1 \<and> sum_list ds \<le> 2 ^ nat m - 1"
proof -
  obtain ds where ds: "effort w (replicate (Suc (length ds)) rq) ds w'" "int (length ds) \<le> max 0 (m - 0)"
      "sum_list ds \<le> 2 ^ (nat 0 + length ds) - 2 ^ nat 0"
    using post_with_retry_effort [OF assms] by auto
  have "length ds \<le> nat m" using ds(2) by simp
  then have "(2::rat) ^ length ds \<le> 2 ^ nat m" by (intro power_increasing) simp_all
  moreover have "sum_list ds \<le> 2 ^ length ds - 1" using ds(3) by simp
  ultimately have "sum_list ds \<le> 2 ^ nat m - 1" by linarith
  then show ?thesis using ds(1,2) by (intro exI [of _ "Suc (length ds)"] exI [of _ ds]) simp
qed

text \<open>The client keeps everything but its tokens.\<close>

definition same_client :: "client \<Rightarrow> client \<Rightarrow> bool" where
  "same_client c c' =
     (cl_base_url c' = cl_base_url c \<and> cl_max_retries c' = cl_max_retries c \<and> cl_session_id c' = cl_session_id c)"

lemma do_refresh_effort:
  assumes "do_refresh N c w = (r, c', w')"
  shows "effort w [PostRefresh (cl_base_url c @ ''/auth/refresh'') (cl_refresh_token c)] [] w'" "same_client c c'"
proof -
  let ?rq = "PostRefresh (cl_base_url c @ ''/auth/refresh'') (cl_refresh_token c)"
  obtain o1 w1 where o1: "send_request N ?rq w = (o1, w1)" by (metis prod.collapse)
  have "w' = w1 \<and> same_client c c'"
    using assms by (auto simp: do_refresh_def o1 same_client_def split: sum.splits client_error.splits option.splits)
  with effort_send [OF o1] show "effort w [?rq] [] w'" "same_client c c'" by simp_all
qed

lemma client_authenticate_effort:
  assumes "client_authenticate N c w = (r, c', w')"
  shows "effort w [PostToken (cl_base_url c @ ''/auth/token'') (cl_api_key c) (cl_tenant_id c)] [] w'" "same_client c c'"
proof -
  let ?rq = "PostToken (cl_base_url c @ ''/auth/token'') (cl_api_key c) (cl_tenant_id c)"
  obtain o1 w1 where o1: "send_request N ?rq w = (o1, w1)" by (metis prod.collapse)
  have "w' = w1 \<and> same_client c c'"
    using assms by (auto simp: client_authenticate_def o1 same_client_def split: sum.splits client_error.splits option.splits)
  with effort_send [OF o1] show "effort w [?rq] [] w'" "same_client c c'" by simp_all
qed

lemma ensure_authenticated_effort:
  assumes "ensure_authenticated N c w = (r, c', w')"
  shows "\<exists>rqs. effort w rqs [] w' \<and> length rqs \<le> 1" "same_client c c'"
proof -
  have "(\<exists>rqs. effort w rqs [] w' \<and> length rqs \<le> 1) \<and> same_client c c'"
  proof (cases "cl_access_token c = None")
    case True
    then have "client_authenticate N c w = (r, c', w')" using assms by (simp add: ensure_authenticated_def)
    from client_authenticate_effort [OF this] show ?thesis by (intro conjI exI) (assumption, simp_all)
  next
    case False
    show ?thesis
    proof (cases "is_near_expiry N w c")
      case True
      have "do_refresh N c w = (r, c', w')"
        using assms False True unfolding ensure_authenticated_def by (simp only: if_False if_True)
      from do_refresh_effort [OF this] show ?thesis by (intro conjI exI) (assumption, simp_all)
    next
      case far: False
      have "(Inr (), c, w) = (r, c', w')"
        using assms False far unfolding ensure_authenticated_def by (simp only: if_False if_True)
      then have "c' = c" "w' = w" by simp_all
      then show ?thesis using effort_refl [of w] by (auto simp: same_client_def)
    qed
  qed
  then show "\<exists>rqs. effort w rqs [] w' \<and> length rqs \<le> 1" "same_client c c'" by blast+
qed

text \<open>The course of a query: authentication, the loop, and after a 401 once more.\<close>

lemma client_query_course:
  assumes "client_query N sql c w = (r, c', w')"
  obtains (blank) "blank sql" "w' = w" "\<not> is_ok r"
  | (unauthenticated) e where "\<not> blank sql" "ensure_authenticated N c w = (Inl e, c', w')" "\<not> is_ok r"
  | (once) c1 w1 r1 where "\<not> blank sql" "ensure_authenticated N c w = (Inr (), c1, w1)" "c' = c1"
      "post_with_retry N (cl_max_retries c1) (query_request_of c1 sql) 0 w1 = (r1, w')"
      "\<And>d. r = Inr d \<Longrightarrow> \<exists>b. r1 = Inr b \<and> d = an_json b"
  | (unrefreshed) c1 w1 r1 w2 e where "\<not> blank sql" "ensure_authenticated N c w = (Inr (), c1, w1)"
      "post_with_retry N (cl_max_retries c1) (query_request_of c1 sql) 0 w1 = (r1, w2)"
      "do_refresh N c1 w2 = (Inl e, c', w')" "\<not> is_ok r"
  | (twice) c1 w1 r1 w2 w3 r2 where "\<not> blank sql" "ensure_authenticated N c w = (Inr (), c1, w1)"
      "post_with_retry N (cl_max_retries c1) (query_request_of c1 sql) 0 w1 = (r1, w2)"
      "do_refresh N c1 w2 = (Inr (), c', w3)"
      "post_with_retry N (cl_max_retries c') (query_request_of c' sql) 0 w3 = (r2, w')"
      "\<And>d. r = Inr d \<Longrightarrow> \<exists>b. r2 = Inr b \<and> d = an_json b"
proof (cases "blank sql")
  case True
  then have "w' = w" "\<not> is_ok r" using assms by (auto simp: client_query_def)
  with True show ?thesis by (rule blank)
next
  case nb: False
  obtain x c1 w1 where e: "ensure_authenticated N c w = (x, c1, w1)" by (metis prod.collapse)
  show ?thesis
  proof (cases x)
    case (Inl y)
    then have "c' = c1" "w' = w1" "\<not> is_ok r" using assms nb e by (auto simp: client_query_def)
    then show ?thesis using nb e Inl unauthenticated by simp
  next
    case (Inr u)
    obtain r1 w2 where p: "post_with_retry N (cl_max_retries c1) (query_request_of c1 sql) 0 w1 = (r1, w2)"
      by (metis prod.collapse)
    show ?thesis
    proof (cases "r1 = Inl (HTTPStatusError 401)")
      case False
      then have "c' = c1 \<and> w' = w2 \<and> (\<forall>d. r = Inr d \<longrightarrow> (\<exists>b. r1 = Inr b \<and> d = an_json b))"
        using assms nb e Inr p by (auto simp: client_query_def split: sum.splits client_error.splits if_splits)
      then show ?thesis using once nb e Inr p by simp
    next
      case True
      obtain y c2 w3 where d: "do_refresh N c1 w2 = (y, c2, w3)" by (metis prod.collapse)
      show ?thesis
      proof (cases y)
        case (Inl e')
        then have "c' = c2" "w' = w3" "\<not> is_ok r" using assms nb e Inr p True d by (auto simp: client_query_def)
        then show ?thesis using nb e \<open>x = Inr u\<close> p d Inl unrefreshed by simp
      next
        case y: (Inr v)
        obtain r2 w4 where p2: "post_with_retry N (cl_max_retries c2) (query_request_of c2 sql) 0 w3 = (r2, w4)"
          by (metis prod.collapse)
        have "c' = c2 \<and> w' = w4 \<and> (\<forall>d. r = Inr d \<longrightarrow> (\<exists>b. r2 = Inr b \<and> d = an_json b))"
          using assms nb e Inr p True d y p2
          by (auto simp: client_query_def split: sum.splits client_error.splits)
        then show ?thesis using twice nb e Inr p d y p2 by simp
      qed
    qed
  qed
qed

text \<open>
  Property C29. A query of the client always returns, whatever the network does: it sends at most
  \<open>2 * max_retries + 4\<close> requests and sleeps at most \<open>2 * (2 ^ max_retries - 1)\<close> seconds; a blank
  query sends nothing; and what it returns is the body of a successful response to that query,
  sent for the session and with the token of the client.
\<close>

theorem client_query_effort:
  assumes "client_query N sql c w = (r, c', w')" and "fair_random N"
  shows "\<exists>rqs ds. effort w rqs ds w' \<and> int (length rqs) \<le> 2 * max 0 (cl_max_retries c) + 4 \<and>
    sum_list ds \<le> 2 * (2 ^ nat (cl_max_retries c) - 1) \<and> (blank sql \<longrightarrow> rqs = []) \<and>
    (\<forall>d. r = Inr d \<longrightarrow> query_request_of c' sql \<in> set rqs \<and> cl_session_id c' = cl_session_id c \<and>
       (\<exists>b. answered N (query_request_of c' sql) b \<and> d = an_json b))"
  using assms(1)
proof (cases rule: client_query_course)
  case blank
  then show ?thesis using effort_refl [of w] by (intro exI [of _ "[]"]) auto
next
  case (unauthenticated e)
  from ensure_authenticated_effort [OF unauthenticated(2)]
  obtain rqs where "effort w rqs [] w'" "length rqs \<le> 1" by blast
  then show ?thesis using unauthenticated(1,3) by (intro exI [of _ rqs] exI [of _ "[]"]) auto
next
  case (once c1 w1 r1)
  from ensure_authenticated_effort [OF once(2)]
  obtain rqs where a: "effort w rqs [] w1" "length rqs \<le> 1" and c1: "same_client c c1" by blast
  from retry_loop_effort [OF once(4) assms(2)] obtain n ds where
    b: "effort w1 (replicate n (query_request_of c1 sql)) ds w'" "1 \<le> n" "int n \<le> max 0 (cl_max_retries c1) + 1"
      "sum_list ds \<le> 2 ^ nat (cl_max_retries c1) - 1" by blast
  have m: "cl_max_retries c1 = cl_max_retries c" "cl_session_id c1 = cl_session_id c" using c1 by (simp_all add: same_client_def)
  have "effort w (rqs @ replicate n (query_request_of c1 sql)) ds w'" using effort_trans [OF a(1) b(1)] by simp
  moreover have "sum_list ds \<le> 2 * (2 ^ nat (cl_max_retries c) - 1)" by (rule double_pauses) (use b(4) m in simp)
  moreover have "int (length (rqs @ replicate n (query_request_of c1 sql))) \<le> 2 * max 0 (cl_max_retries c) + 4"
    using a(2) b(3) unfolding m by simp
  moreover have "query_request_of c' sql \<in> set (rqs @ replicate n (query_request_of c1 sql)) \<and>
      cl_session_id c' = cl_session_id c \<and> (\<exists>b. answered N (query_request_of c' sql) b \<and> d = an_json b)" if "r = Inr d" for d
    using once(3,4,5) that b(2) m(2) post_with_retry_answered by fastforce
  ultimately show ?thesis using once(1) by blast
next
  case (unrefreshed c1 w1 r1 w2 e)
  from ensure_authenticated_effort [OF unrefreshed(2)]
  obtain rqs where a: "effort w rqs [] w1" "length rqs \<le> 1" and c1: "same_client c c1" by blast
  from retry_loop_effort [OF unrefreshed(3) assms(2)] obtain n ds where
    b: "effort w1 (replicate n (query_request_of c1 sql)) ds w2" "int n \<le> max 0 (cl_max_retries c1) + 1"
      "sum_list ds \<le> 2 ^ nat (cl_max_retries c1) - 1" by blast
  have m: "cl_max_retries c1 = cl_max_retries c" using c1 by (simp add: same_client_def)
  let ?rqs = "rqs @ replicate n (query_request_of c1 sql)
      @ [PostRefresh (cl_base_url c1 @ ''/auth/refresh'') (cl_refresh_token c1)]"
  have "effort w ?rqs ds w'"
    using effort_trans [OF a(1) effort_trans [OF b(1) do_refresh_effort(1) [OF unrefreshed(4)]]] by simp
  moreover have "sum_list ds \<le> 2 * (2 ^ nat (cl_max_retries c) - 1)" by (rule double_pauses) (use b(3) m in simp)
  moreover have "int (length ?rqs) \<le> 2 * max 0 (cl_max_retries c) + 4" using a(2) b(2) unfolding m by simp
  ultimately show ?thesis using unrefreshed(1,5) by (intro exI [of _ ?rqs] exI [of _ ds]) auto
next
  case (twice c1 w1 r1 w2 w3 r2)
  from ensure_authenticated_effort [OF twice(2)]
  obtain rqs where a: "effort w rqs [] w1" "length rqs \<le> 1" and c1: "same_client c c1" by blast
  from retry_loop_effort [OF twice(3) assms(2)] obtain n ds where
    b: "effort w1 (replicate n (query_request_of c1 sql)) ds w2" "int n \<le> max 0 (cl_max_retries c1) + 1"
      "sum_list ds \<le> 2 ^ nat (cl_max_retries c1) - 1" by blast
  from retry_loop_effort [OF twice(5) assms(2)] obtain n2 ds2 where
    d: "effort w3 (replicate n2 (query_request_of c' sql)) ds2 w'" "1 \<le> n2" "int n2 \<le> max 0 (cl_max_retries c') + 1"
      "sum_list ds2 \<le> 2 ^ nat (cl_max_retries c') - 1" by blast
  have m: "cl_max_retries c1 = cl_max_retries c" "cl_max_retries c' = cl_max_retries c" "cl_session_id c' = cl_session_id c"
    using c1 do_refresh_effort(2) [OF twice(4)] by (simp_all add: same_client_def)
  let ?rqs = "rqs @ replicate n (query_request_of c1 sql)
      @ [PostRefresh (cl_base_url c1 @ ''/auth/refresh'') (cl_refresh_token c1)] @ replicate n2 (query_request_of c' sql)"
  have "effort w ?rqs (ds @ ds2) w'"
    using effort_trans [OF a(1) effort_trans [OF b(1) effort_trans [OF do_refresh_effort(1) [OF twice(4)] d(1)]]] by simp
  moreover have "sum_list (ds @ ds2) \<le> 2 * (2 ^ nat (cl_max_retries c) - 1)"
    using b(3) d(4) unfolding m by simp
  moreover have "int (length ?rqs) \<le> 2 * max 0 (cl_max_retries c) + 4" using a(2) b(2) d(3) unfolding m by simp
  moreover have "query_request_of c' sql \<in> set ?rqs \<and> cl_session_id c' = cl_session_id c \<and>
      (\<exists>b. answered N (query_request_of c' sql) b \<and> x = an_json b)" if "r = Inr x" for x
    using twice(5,6) that d(2) m(3) post_with_retry_answered by fastforce
  ultimately show ?thesis using twice(1) by blast
qed

section \<open>A server that is unavailable once\<close>

definition sample_answer :: "nat answer" where
  "sample_answer =
     \<lparr>an_access_token = Some ''a'', an_refresh_token = Some ''r'', an_expires_in = Some 3600, an_slug = None,
      an_session_id = None, an_json = 7\<rparr>"

definition flaky_net :: "(nat, nat) net_env" where
  "flaky_net =
     \<lparr>ne_send = (\<lambda>rq n. (if n = 1 then Response 503 sample_answer else Response 200 sample_answer, n + 1)),
      ne_now = (\<lambda>n. 0), ne_random = (\<lambda>n. 1/2), ne_sleep = (\<lambda>d n. n), ne_status_text = int_str\<rparr>"

definition fresh_world :: "nat world" where
  "fresh_world = \<lparr>wd_state = 0, wd_sent = [], wd_slept = []\<rparr>"

theorem client_query_effort_witness:
  "\<exists>c' w'. client_query flaky_net ''a'' (new_client ''u'' ''http://h/'' ''k'' ''t'' 3) fresh_world = (Inr 7, c', w') \<and>
    length (wd_sent w') = 3 \<and> wd_slept w' = [3/4] \<and> sum_list (wd_slept w') \<le> 14"
proof -
  let ?p = "client_query flaky_net ''a'' (new_client ''u'' ''http://h/'' ''k'' ''t'' 3) fresh_world"
  have run: "map_sum (\<lambda>_. ()) id (fst ?p) = Inr 7" "length (wd_sent (snd (snd ?p))) = 3" "wd_slept (snd (snd ?p)) = [3/4]"
    by code_simp+
  obtain r c' w' where p: "?p = (r, c', w')" by (metis prod.collapse)
  have "fair_random flaky_net" by (simp add: fair_random_def flaky_net_def)
  from client_query_effort [OF p this] obtain rqs ds where "effort fresh_world rqs ds w'"
      "sum_list ds \<le> 2 * (2 ^ nat (cl_max_retries (new_client ''u'' ''http://h/'' ''k'' ''t'' 3)) - 1)" by blast
  then have "sum_list (wd_slept w') \<le> 14" by (simp add: effort_def fresh_world_def new_client_def)
  moreover have "r = Inr 7" using run(1) p by (cases r) auto
  ultimately show ?thesis using run(2,3) p by (intro exI [of _ c'] exI [of _ w']) simp
qed

end
