(* ===== verification/ClientServer.thy ===== *)
theory ClientServer
  imports Client AppQuery
begin

text \<open>
  The client of \<open>client.py\<close> against the server's own handlers: \<open>/auth/token\<close>, \<open>/auth/refresh\<close>
  and \<open>/query\<close> answered by the models of \<open>app.py\<close>. Between two requests of the client the rest
  of the world changes the server's state.
\<close>

section \<open>The server as a network\<close>

record 'c server_env =
  sv_duck :: "'c duck"
  sv_cfg :: session_cfg
  sv_sha256 :: "string \<Rightarrow> string"
  sv_deps :: auth_deps
  sv_auth_env :: auth_env

text \<open>What a request finds: the state, the revoked tokens, the clocks and two fresh identifiers.\<close>

record 'c server =
  sr_sys :: "'c query_sys"
  sr_blocklist :: "string list"
  sr_now :: int
  sr_clock :: query_clock
  sr_jti :: string
  sr_jti2 :: string

definition empty_answer :: "query_result option answer" where
  "empty_answer =
     \<lparr>an_access_token = None, an_refresh_token = None, an_expires_in = None, an_slug = None, an_session_id = None,
      an_json = None\<rparr>"

definition refused :: "http_exc \<Rightarrow> query_result option outcome" where
  "refused e = (case e of HTTPException status _ \<Rightarrow> Response (int status) empty_answer)"

definition token_answer :: "token_response \<Rightarrow> query_result option outcome" where
  "token_answer tr =
     Response 200 (empty_answer\<lparr>an_access_token := Some (tr_access tr), an_refresh_token := tr_refresh tr,
                                an_expires_in := Some (tr_expires_in tr)\<rparr>)"

definition request_of :: "headers \<Rightarrow> request" where
  "request_of hs =
     plain_request\<lparr>rq_authorization := map_of hs ''Authorization'', rq_api_key := map_of hs ''X-API-Key''\<rparr>"

definition unprocessable :: "query_result option outcome" where
  "unprocessable = Response 422 empty_answer"

text \<open>The other requests do not occur in a query.\<close>

fun handle :: "'c server_env \<Rightarrow> client_request \<Rightarrow> 'c server \<Rightarrow> query_result option outcome \<times> 'c server" where
  "handle S (PostToken url key tenant) s =
     (case issue_token (sv_deps S) (sv_auth_env S) (sr_now s) (sr_jti s) (sr_jti2 s) key (Some tenant) plain_request of
        Inl e \<Rightarrow> (refused e, s)
      | Inr tr \<Rightarrow> (token_answer tr, s))"
| "handle S (PostRefresh url None) s = (unprocessable, s)"
| "handle S (PostRefresh url (Some token)) s =
     (case fst (refresh_token (sv_deps S) (sv_auth_env S) (sr_blocklist s) (sr_now s) (sr_jti s) token plain_request) of
        Inl e \<Rightarrow> (refused e, s)
      | Inr tr \<Rightarrow> (token_answer tr, s))"
| "handle S (PostQuery url hs None sql format) s = (unprocessable, s)"
| "handle S (PostQuery url hs (Some sid) sql format) s =
     (case fst (require_auth (sv_deps S) (sv_auth_env S) (sr_blocklist s) (sr_now s) (request_of hs)) of
        Inl e \<Rightarrow> (refused e, s)
      | Inr auth \<Rightarrow>
          (case post_query (sv_duck S) (sv_cfg S) (sv_sha256 S) (sr_clock s)
                  \<lparr>qq_session = sid, qq_sql = sql, qq_format = get_or format ''json''\<rparr> auth (sr_sys s) of
             (Inl e, sys) \<Rightarrow> (refused e, s\<lparr>sr_sys := sys\<rparr>)
           | (Inr (_, r), sys) \<Rightarrow> (Response 200 (empty_answer\<lparr>an_json := Some r\<rparr>), s\<lparr>sr_sys := sys\<rparr>)))"
| "handle S (PostSave url hs title sql description visibility) s = (Broken [], s)"
| "handle S (GetPath url hs params) s = (Broken [], s)"
| "handle S (PostSession url hs) s = (Broken [], s)"
| "handle S (DeleteSession url hs) s = (Broken [], s)"

text \<open>\<open>others\<close> is what happens to the server before the next request of this client arrives.\<close>

definition server_net :: "'c server_env \<Rightarrow> ('c server \<Rightarrow> 'c server) \<Rightarrow> ('c server, query_result option) net_env" where
  "server_net S others =
     \<lparr>ne_send = (\<lambda>rq s. handle S rq (others s)), ne_now = (\<lambda>s. of_int (sr_now s)), ne_random = (\<lambda>_. 1/2),
      ne_sleep = (\<lambda>_ s. s), ne_status_text = int_str\<rparr>"

section \<open>A client never gets an answer for its session\<close>

definition knows :: "string \<Rightarrow> 'c server \<Rightarrow> bool" where
  "knows sid s = (find_sess sid (qy_manager (sr_sys s)) \<noteq> None)"

text \<open>Every refusal is an error status.\<close>

definition refuses :: "'a http \<Rightarrow> bool" where
  "refuses r = (case r of Inl (HTTPException status _) \<Rightarrow> 400 \<le> status | Inr _ \<Rightarrow> True)"

lemma refuses_simps [simp]: "refuses (Inr x)" "refuses (Inl (HTTPException n d)) = (400 \<le> n)"
  by (simp_all add: refuses_def)

lemma refuses_try_secrets: "refuses (try_secrets L bl now token ss err)"
  by (induction ss arbitrary: err) (auto split: sum.splits)

lemma refuses_get_api_key: "refuses (get_api_key env)"
  by (auto simp: get_api_key_def split: option.splits)

lemma refuses_authenticate: "refuses (authenticate D env bl now rq)"
proof -
  have "refuses (verify_access_token (ad_jwt D) env bl now token)" for token
    by (simp add: verify_access_token_def refuses_try_secrets)
  moreover have "refuses (case get_api_key env of Inl e \<Rightarrow> Inl e
      | Inr expected \<Rightarrow> if expected \<noteq> [] \<and> key = expected then Inr (default_claims ''default'')
          else Inl (HTTPException 401 ''Invalid API key''))" for key
    using refuses_get_api_key [of env] by (cases "get_api_key env") (simp_all add: refuses_def)
  ultimately show ?thesis
    unfolding authenticate_def Let_def by (simp split: option.splits list.splits)
qed

lemma refused_not_ok:
  assumes "refuses r" "r = Inl e"
  shows "\<not> is_ok (checked (refused e))"
  using assms by (cases e) (simp add: refused_def checked_def is_success_def)

lemma post_query_unknown:
  assumes "find_sess (qq_session req) (qy_manager s) = None"
  shows "\<exists>e. post_query D cfg H k req auth s = (Inl e, s) \<and> refuses (Inl e :: unit http)"
  using assms by (simp add: post_query_def get_session_def Let_def)

text \<open>A query for a session the server does not know is refused and leaves the state alone.\<close>

lemma handle_query_unknown:
  assumes "\<not> knows sid s"
  shows "\<not> is_ok (checked (fst (handle S (PostQuery url hs (Some sid) sql format) s)))"
    "snd (handle S (PostQuery url hs (Some sid) sql format) s) = s"
proof -
  let ?auth = "fst (require_auth (sv_deps S) (sv_auth_env S) (sr_blocklist s) (sr_now s) (request_of hs))"
  let ?req = "\<lparr>qq_session = sid, qq_sql = sql, qq_format = get_or format ''json''\<rparr>"
  have auth: "refuses ?auth" by (simp add: require_auth_def refuses_authenticate Let_def)
  have "\<not> is_ok (checked (fst (handle S (PostQuery url hs (Some sid) sql format) s))) \<and>
      snd (handle S (PostQuery url hs (Some sid) sql format) s) = s"
  proof (cases ?auth)
    case (Inl e)
    then show ?thesis using refused_not_ok [OF auth Inl] by simp
  next
    case (Inr claims)
    have "find_sess (qq_session ?req) (qy_manager (sr_sys s)) = None" using assms by (simp add: knows_def)
    from post_query_unknown [OF this, of "sv_duck S" "sv_cfg S" "sv_sha256 S" "sr_clock s" claims] obtain e where
      e: "post_query (sv_duck S) (sv_cfg S) (sv_sha256 S) (sr_clock s) ?req claims (sr_sys s) = (Inl e, sr_sys s)"
        "refuses (Inl e :: unit http)" by blast
    then show ?thesis using refused_not_ok [OF e(2) refl] Inr by simp
  qed
  then show "\<not> is_ok (checked (fst (handle S (PostQuery url hs (Some sid) sql format) s)))"
    "snd (handle S (PostQuery url hs (Some sid) sql format) s) = s" by blast+
qed

lemma handle_token_state:
  "snd (handle S (PostToken url key tenant) s) = s" "snd (handle S (PostRefresh url token) s) = s"
  by (cases token; simp split: sum.splits)+

locale uncreated_session =
  fixes S :: "'c server_env" and others :: "'c server \<Rightarrow> 'c server" and sid :: string
  assumes never_created: "\<not> knows sid s \<Longrightarrow> \<not> knows sid (others s)"
begin

lemma sends:
  assumes "send_request (server_net S others) rq w = (o1, w1)" "\<not> knows sid (wd_state w)"
  shows "(\<exists>url hs sql format. rq = PostQuery url hs (Some sid) sql format) \<Longrightarrow>
      \<not> is_ok (checked o1) \<and> \<not> knows sid (wd_state w1)"
    "(\<exists>url key tenant. rq = PostToken url key tenant) \<or> (\<exists>url token. rq = PostRefresh url token) \<Longrightarrow>
      \<not> knows sid (wd_state w1)"
proof -
  have o1: "o1 = fst (handle S rq (others (wd_state w)))" "wd_state w1 = snd (handle S rq (others (wd_state w)))"
    using assms(1) by (auto simp: send_request_def server_net_def split: prod.splits)
  have unknown: "\<not> knows sid (others (wd_state w))" by (rule never_created [OF assms(2)])
  show "\<not> is_ok (checked o1) \<and> \<not> knows sid (wd_state w1)" if "\<exists>url hs sql format. rq = PostQuery url hs (Some sid) sql format"
    using that handle_query_unknown [OF unknown] unknown by (auto simp: o1 simp del: handle.simps)
  show "\<not> knows sid (wd_state w1)"
    if "(\<exists>url key tenant. rq = PostToken url key tenant) \<or> (\<exists>url token. rq = PostRefresh url token)"
    using that unknown by (auto simp: o1 handle_token_state simp del: handle.simps)
qed

lemma retries_fail:
  assumes "post_with_retry (server_net S others) m (PostQuery url hs (Some sid) sql format) a w = (r, w')"
    and "\<not> knows sid (wd_state w)"
  shows "\<not> is_ok r \<and> \<not> knows sid (wd_state w')"
  using assms
proof (induction "nat (m - a)" arbitrary: a w rule: less_induct)
  case less
  let ?N = "server_net S others" and ?rq = "PostQuery url hs (Some sid) sql format"
  obtain o1 w1 where o1: "send_request ?N ?rq w = (o1, w1)" by (metis prod.collapse)
  have fails: "\<not> is_ok (checked o1)" "\<not> knows sid (wd_state w1)" using sends(1) [OF o1 less.prems(2)] by blast+
  show ?case
  proof (cases "a < m \<and> retried (checked o1)")
    case True
    let ?w = "pause ?N (backoff a (ne_random ?N (wd_state w1))) w1"
    have "post_with_retry ?N m ?rq (a + 1) ?w = (r, w')"
      using less.prems(1) True by (simp add: post_with_retry_round [OF o1])
    moreover have "\<not> knows sid (wd_state ?w)" using fails(2) by (simp add: pause_def server_net_def)
    moreover have "nat (m - (a + 1)) < nat (m - a)" using True by simp
    ultimately show ?thesis using less.hyps by blast
  next
    case False
    then have "r = given_up a (checked o1)" "w' = w1"
      using less.prems(1) unfolding post_with_retry_round [OF o1] by auto
    then show ?thesis using fails given_up_Inr by (metis is_okE is_ok_simps(1))
  qed
qed

lemma refresh_keeps:
  assumes "do_refresh (server_net S others) c w = (r, c', w')" "\<not> knows sid (wd_state w)"
  shows "\<not> knows sid (wd_state w')"
proof -
  let ?rq = "PostRefresh (cl_base_url c @ ''/auth/refresh'') (cl_refresh_token c)"
  obtain o1 w1 where o1: "send_request (server_net S others) ?rq w = (o1, w1)" by (metis prod.collapse)
  have "w' = w1" using assms(1) by (auto simp: do_refresh_def o1 split: sum.splits client_error.splits option.splits)
  then show ?thesis using sends(2) [OF o1 assms(2)] by blast
qed

lemma authentication_keeps:
  assumes "ensure_authenticated (server_net S others) c w = (r, c', w')" "\<not> knows sid (wd_state w)"
  shows "\<not> knows sid (wd_state w')"
proof (cases "cl_access_token c = None")
  case True
  let ?rq = "PostToken (cl_base_url c @ ''/auth/token'') (cl_api_key c) (cl_tenant_id c)"
  obtain o1 w1 where o1: "send_request (server_net S others) ?rq w = (o1, w1)" by (metis prod.collapse)
  have "w' = w1"
    using assms(1) True
    by (auto simp: ensure_authenticated_def client_authenticate_def o1 split: sum.splits client_error.splits option.splits)
  then show ?thesis using sends(2) [OF o1 assms(2)] by blast
next
  case False
  then show ?thesis
    using assms refresh_keeps [of c w r c' w'] unfolding ensure_authenticated_def
    by (cases "is_near_expiry (server_net S others) w c") auto
qed

lemma query_fails:
  assumes "client_query (server_net S others) sql c w = (r, c', w')"
    and "cl_session_id c = sid" "\<not> knows sid (wd_state w)"
  shows "\<not> is_ok r"
  using assms(1)
proof (cases rule: client_query_course)
  case (once c1 w1 r1)
  have "cl_session_id c1 = sid"
    using ensure_authenticated_effort(2) [OF once(2)] assms(2) by (simp add: same_client_def)
  then have "\<not> is_ok r1"
    using retries_fail [of "cl_max_retries c1" _ _ sql None 0 w1 r1 w'] once(4) authentication_keeps [OF once(2) assms(3)]
    unfolding query_request_of_def by blast
  then show ?thesis using once(5) by (metis is_okE is_ok_simps(1))
next
  case (twice c1 w1 r1 w2 w3 r2)
  have id1: "cl_session_id c1 = sid"
    using ensure_authenticated_effort(2) [OF twice(2)] assms(2) by (simp add: same_client_def)
  then have "\<not> knows sid (wd_state w2)"
    using retries_fail [of "cl_max_retries c1" _ _ sql None 0 w1 r1 w2] twice(3) authentication_keeps [OF twice(2) assms(3)]
    unfolding query_request_of_def by blast
  from refresh_keeps [OF twice(4) this] have "\<not> knows sid (wd_state w3)" .
  moreover have "cl_session_id c' = sid" using do_refresh_effort(2) [OF twice(4)] id1 by (simp add: same_client_def)
  ultimately have "\<not> is_ok r2"
    using retries_fail [of "cl_max_retries c'" _ _ sql None 0 w3 r2 w'] twice(5)
    unfolding query_request_of_def by blast
  then show ?thesis using twice(6) by (metis is_okE is_ok_simps(1))
qed auto

end

section \<open>Other clients\<close>

text \<open>Sessions come, sleep, run and go, except that nobody else draws the same identifier.\<close>

fun creates :: "string \<Rightarrow> session_event \<Rightarrow> bool" where
  "creates sid (Create t fresh ns wg k) = (fresh = sid)"
| "creates sid _ = False"

definition busy_others :: "'c server_env \<Rightarrow> string \<Rightarrow> session_event list \<Rightarrow> 'c server \<Rightarrow> 'c server" where
  "busy_others S sid evs s =
     s\<lparr>sr_sys := (sr_sys s)\<lparr>qy_manager := fold (apply_session_event (sv_duck S) (sv_cfg S))
         (filter (\<lambda>ev. \<not> creates sid ev) evs) (qy_manager (sr_sys s))\<rparr>\<rparr>"

lemma set_unknown:
  assumes "find_sess sid m = None" "find_sess k m = Some s" "s_id s' = s_id s"
  shows "find_sess sid (set_sess s' m) = None"
proof -
  have "s_id s' \<noteq> sid" using assms find_sess_SomeD [OF assms(2)] by auto
  then show ?thesis using assms(1) by (simp add: find_sess_set)
qed

lemma resume_unknown:
  "find_sess sid m = None \<Longrightarrow> find_sess sid (snd (resume_session D cfg t k m)) = None"
  by (auto simp: resume_session_def Let_def intro!: set_unknown split: option.splits sum.splits)

lemma suspend_unknown:
  "find_sess sid m = None \<Longrightarrow> find_sess sid (snd (suspend_session t k m)) = None"
  by (auto simp: suspend_session_def Let_def intro!: set_unknown split: option.splits)

lemma destroy_unknown:
  "find_sess sid m = None \<Longrightarrow> find_sess sid (snd (destroy_session k m)) = None"
  by (auto simp: destroy_session_def find_sess_def find_delete_key split: option.splits)

lemma create_unknown:
  assumes "find_sess sid m = None" "fresh \<noteq> sid"
  shows "find_sess sid (snd (create_session D cfg t fresh ns wg k m)) = None"
  using assms resume_unknown [OF assms(1), of D cfg t]
  by (auto simp: create_session_def find_sess_set Let_def split: option.splits sum.splits prod.splits) (metis snd_conv)+

lemma run_unknown:
  "find_sess sid m = None \<Longrightarrow> find_sess sid (snd (run_in_session D cfg t ms k sql m)) = None"
  by (auto simp: run_in_session_def intro!: set_unknown split: option.splits sum.splits prod.splits)

lemma execute_unknown:
  assumes "find_sess sid m = None"
  shows "find_sess sid (snd (execute_query D cfg t t2 ms k sql m)) = None"
proof -
  obtain x m' where r: "resume_session D cfg t k m = (x, m')" by (metis prod.collapse)
  have "find_sess sid m' = None" using resume_unknown [OF assms, of D cfg t k] r by simp
  then show ?thesis
    using assms run_unknown by (auto simp: execute_query_def r split: option.splits sum.splits)
qed

lemma suspend_all_unknown: "find_sess sid m = None \<Longrightarrow> find_sess sid (snd (suspend_all clk sids m)) = None"
proof (induction clk sids m rule: suspend_all.induct)
  case (2 clk k sids m)
  obtain x m' where r: "suspend_session (clk k) k m = (x, m')" by (metis prod.collapse)
  have "find_sess sid m' = None" using suspend_unknown [OF 2(3), of "clk k" k] r by simp
  then show ?case using 2(1) [OF r [symmetric]] 2(2) [OF r [symmetric]] by (cases x) (auto simp: r split: prod.splits)
qed simp

lemma destroy_all_unknown: "find_sess sid m = None \<Longrightarrow> find_sess sid (snd (destroy_all sids m)) = None"
proof (induction sids m rule: destroy_all.induct)
  case (2 k sids m)
  obtain x m' where r: "destroy_session k m = (x, m')" by (metis prod.collapse)
  have "find_sess sid m' = None" using destroy_unknown [OF 2(3), of k] r by simp
  then show ?case using 2(1) [OF r [symmetric]] 2(2) [OF r [symmetric]] by (cases x) (auto simp: r split: prod.splits)
qed simp

lemma event_unknown:
  "find_sess sid m = None \<Longrightarrow> \<not> creates sid ev \<Longrightarrow> find_sess sid (apply_session_event D cfg ev m) = None"
  by (cases ev) (simp_all add: create_unknown destroy_unknown suspend_unknown resume_unknown execute_unknown
      suspend_all_unknown destroy_all_unknown run_watchdog_once_def run_reaper_once_def)

lemma events_unknown:
  "find_sess sid m = None \<Longrightarrow> \<forall>ev \<in> set evs. \<not> creates sid ev \<Longrightarrow>
    find_sess sid (fold (apply_session_event D cfg) evs m) = None"
  by (induction evs arbitrary: m) (simp_all add: event_unknown)

interpretation busy: uncreated_session S "busy_others S sid evs" sid for S sid evs
  by unfold_locales (simp add: knows_def busy_others_def events_unknown)

text \<open>
  Property C30. A \<open>PondClient\<close> asks for a session identifier it invents itself and never creates a
  session on the server. So as long as nobody else creates a session with that identifier, no query
  of the client is ever answered, whatever its credentials are and whatever other clients do.
\<close>

theorem client_never_connects:
  assumes "client_query (server_net S (busy_others S (cl_session_id c) evs)) sql c w = (r, c', w')"
    and "\<not> knows (cl_session_id c) (wd_state w)"
  shows "\<not> is_ok r"
  using busy.query_fails [OF assms(1) refl assms(2)] .

definition sample_server :: "string list server" where
  "sample_server =
     \<lparr>sr_sys = sample_query_sys, sr_blocklist = [], sr_now = 1001, sr_clock = sample_clock (sample_time + 700000000),
      sr_jti = ''j1'', sr_jti2 = ''j2''\<rparr>"

definition sample_server_env :: "string list server_env" where
  "sample_server_env =
     \<lparr>sv_duck = sample_duck, sv_cfg = sample_cfg, sv_sha256 = id, sv_deps = sample_deps sample_access,
      sv_auth_env = sample_env [] ''k1''\<rparr>"

text \<open>The client authenticates and is answered 404.\<close>

theorem client_never_connects_witness:
  "\<exists>r c' w'. client_query (server_net sample_server_env (busy_others sample_server_env ''u'' [])) ''a''
      (new_client ''u'' ''http://h'' ''key'' ''t'' 3) \<lparr>wd_state = sample_server, wd_sent = [], wd_slept = []\<rparr> = (r, c', w') \<and>
    \<not> is_ok r \<and> r = Inl (PondDBError ''404'') \<and> cl_access_token c' = Some ''k1.j1''"
proof -
  let ?c = "new_client ''u'' ''http://h'' ''key'' ''t'' 3"
  let ?w = "\<lparr>wd_state = sample_server, wd_sent = [], wd_slept = []\<rparr>"
  let ?p = "client_query (server_net sample_server_env (busy_others sample_server_env ''u'' [])) ''a'' ?c ?w"
  have id: "cl_session_id ?c = ''u''" by (simp add: new_client_def)
  have unknown: "\<not> knows ''u'' (wd_state ?w)" by code_simp
  have run: "fst ?p = Inl (PondDBError ''404'')" "cl_access_token (fst (snd ?p)) = Some ''k1.j1''" by code_simp+
  obtain r c' w' where p: "?p = (r, c', w')" by (metis prod.collapse)
  have "\<not> is_ok r" by (rule client_never_connects [of sample_server_env ?c "[]" "''a''" ?w r c' w', unfolded id, OF p unknown])
  then show ?thesis using run p by (intro exI [of _ r] exI [of _ c'] exI [of _ w']) simp
qed

end
