(* ===== verification/BruteForce.thy ===== *)
theory BruteForce
  imports Http
begin

text \<open>
  \<open>auth/brute_force.py\<close>: the counter of failed authentications per address, its lockout, and the
  middleware that refuses locked addresses. Times are those of \<open>time.monotonic()\<close>, as integers.
  The guard resets a lapsed lockout only when it is asked about the address; the reference
  definition below reads the lockout off the failures themselves.
\<close>

section \<open>The guard\<close>

record ip_state =
  ips_count :: int
  ips_locked_at :: "int option"

definition fresh_ip :: ip_state where
  "fresh_ip = \<lparr>ips_count = 0, ips_locked_at = None\<rparr>"

record guard =
  gd_threshold :: int
  gd_ttl :: "int option"
  gd_state :: "string \<Rightarrow> ip_state option"

definition new_guard :: "int \<Rightarrow> int option \<Rightarrow> guard" where
  "new_guard threshold ttl = \<lparr>gd_threshold = threshold, gd_ttl = ttl, gd_state = (\<lambda>_. None)\<rparr>"

definition set_ip :: "string \<Rightarrow> ip_state \<Rightarrow> guard \<Rightarrow> guard" where
  "set_ip ip st g = g\<lparr>gd_state := (gd_state g)(ip \<mapsto> st)\<rparr>"

definition get_ip :: "string \<Rightarrow> guard \<Rightarrow> ip_state \<times> guard" where
  "get_ip ip g =
     (case gd_state g ip of
        None \<Rightarrow> (fresh_ip, set_ip ip fresh_ip g)
      | Some st \<Rightarrow> (st, g))"

definition is_ttl_expired :: "int \<Rightarrow> ip_state \<Rightarrow> guard \<Rightarrow> bool" where
  "is_ttl_expired t st g =
     (case (gd_ttl g, ips_locked_at st) of
        (Some ttl, Some l) \<Rightarrow> ttl \<le> t - l
      | _ \<Rightarrow> False)"

definition is_locked :: "int \<Rightarrow> string \<Rightarrow> guard \<Rightarrow> bool \<times> guard" where
  "is_locked t ip g =
     (case get_ip ip g of
        (st, g') \<Rightarrow>
          if ips_count st < gd_threshold g' then (False, g')
          else if is_ttl_expired t st g' then (False, set_ip ip fresh_ip g')
          else (True, g'))"

text \<open>\<open>t\<close> is the time of the check of the lockout, \<open>t2\<close> the one recorded for a new one.\<close>

definition record_failure :: "int \<Rightarrow> int \<Rightarrow> string \<Rightarrow> guard \<Rightarrow> guard" where
  "record_failure t t2 ip g =
     (case get_ip ip g of
        (st, g') \<Rightarrow>
          (let st1 = (if is_ttl_expired t st g' then fresh_ip else st);
               count = ips_count st1 + 1;
               locked = (if gd_threshold g' \<le> count \<and> ips_locked_at st1 = None then Some t2
                         else ips_locked_at st1)
           in set_ip ip \<lparr>ips_count = count, ips_locked_at = locked\<rparr> g'))"

definition record_success :: "string \<Rightarrow> guard \<Rightarrow> guard" where
  "record_success ip g = set_ip ip fresh_ip g"

definition get_failure_count :: "int \<Rightarrow> string \<Rightarrow> guard \<Rightarrow> int \<times> guard" where
  "get_failure_count t ip g =
     (case get_ip ip g of
        (st, g') \<Rightarrow>
          if is_ttl_expired t st g' then (0, set_ip ip fresh_ip g') else (ips_count st, g'))"

definition too_many :: "string \<Rightarrow> http_exc" where
  "too_many ip = HTTPException 429 (''Too many failed attempts from '' @ ip @ ''. Try again later.'')"

definition check_or_raise :: "int \<Rightarrow> string \<Rightarrow> guard \<Rightarrow> unit http \<times> guard" where
  "check_or_raise t ip g =
     (case is_locked t ip g of (b, g') \<Rightarrow> (if b then Inl (too_many ip) else Inr (), g'))"

section \<open>The middleware\<close>

text \<open>\<open>call_next\<close> is the rest of the application, with its own state; the event is the audit entry.\<close>

definition lockout_event :: "request \<Rightarrow> audit_event" where
  "lockout_event rq =
     \<lparr>ae_type = ''brute_force_lockout'', ae_tenant_id = None, ae_ip = Some (get_client_ip rq),
      ae_user_agent = rq_user_agent rq,
      ae_detail = Some (''IP '' @ get_client_ip rq @ '' is locked out due to too many failed attempts'')\<rparr>"

definition brute_force_dispatch ::
    "(request \<Rightarrow> 's \<Rightarrow> 'a http \<times> 's) \<Rightarrow> int \<Rightarrow> request \<Rightarrow> guard \<Rightarrow> 's \<Rightarrow>
      'a http \<times> audit_event list \<times> guard \<times> 's" where
  "brute_force_dispatch call_next t rq g s =
     (case is_locked t (get_client_ip rq) g of
        (True, g') \<Rightarrow> (Inl (too_many (get_client_ip rq)), [lockout_event rq], g', s)
      | (False, g') \<Rightarrow> (case call_next rq s of (r, s') \<Rightarrow> (r, [], g', s')))"

section \<open>Histories\<close>

text \<open>What may happen to a guard. Histories have the latest event first.\<close>

datatype guard_event =
    Failed int int string
  | Succeeded string
  | AskedLocked int string
  | AskedCount int string
  | Checked int string

fun apply_guard :: "guard_event \<Rightarrow> guard \<Rightarrow> guard" where
  "apply_guard (Failed t t2 ip) g = record_failure t t2 ip g"
| "apply_guard (Succeeded ip) g = record_success ip g"
| "apply_guard (AskedLocked t ip) g = snd (is_locked t ip g)"
| "apply_guard (AskedCount t ip) g = snd (get_failure_count t ip g)"
| "apply_guard (Checked t ip) g = snd (check_or_raise t ip g)"

primrec guard_after :: "guard_event list \<Rightarrow> guard \<Rightarrow> guard" where
  "guard_after [] g = g"
| "guard_after (e # h) g = apply_guard e (guard_after h g)"

fun event_time :: "guard_event \<Rightarrow> int option" where
  "event_time (Failed t t2 ip) = Some t"
| "event_time (Succeeded ip) = None"
| "event_time (AskedLocked t ip) = Some t"
| "event_time (AskedCount t ip) = Some t"
| "event_time (Checked t ip) = Some t"

text \<open>The clock does not run backwards: every event of \<open>h\<close> is followed by later ones, up to \<open>t\<close>.\<close>

fun in_order :: "guard_event list \<Rightarrow> int \<Rightarrow> bool" where
  "in_order [] t = True"
| "in_order (e # h) t =
     (case event_time e of None \<Rightarrow> in_order h t | Some u \<Rightarrow> u \<le> t \<and> in_order h u)"

section \<open>Reference: the lockout as a function of the failures\<close>

text \<open>The failures of an address since its last success, in their order: when they were checked and
  the time recorded.\<close>

primrec failures :: "string \<Rightarrow> guard_event list \<Rightarrow> (int \<times> int) list" where
  "failures ip [] = []"
| "failures ip (e # h) =
     (case e of
        Failed t t2 i \<Rightarrow> if i = ip then failures ip h @ [(t, t2)] else failures ip h
      | Succeeded i \<Rightarrow> if i = ip then [] else failures ip h
      | _ \<Rightarrow> failures ip h)"

text \<open>
  The failures that count: the \<open>threshold\<close>-th one locks the address; the first failure after the
  end of that lockout starts counting anew.
\<close>

definition locked_since :: "int \<Rightarrow> (int \<times> int) list \<Rightarrow> int option" where
  "locked_since n fs = (if int (length fs) < n then None else Some (snd (fs ! nat (n - 1))))"

definition over :: "int option \<Rightarrow> int option \<Rightarrow> int \<Rightarrow> bool" where
  "over ttl locked t =
     (case (ttl, locked) of (Some d, Some l) \<Rightarrow> l + d \<le> t | _ \<Rightarrow> False)"

function current :: "int \<Rightarrow> int option \<Rightarrow> (int \<times> int) list \<Rightarrow> (int \<times> int) list" where
  "current n ttl fs =
     (if n < 1 \<or> int (length fs) < n then fs
      else (let later = dropWhile (\<lambda>f. \<not> over ttl (locked_since n fs) (fst f)) (drop (nat n) fs) in
            if later = [] then fs else current n ttl later))"
  by pat_completeness auto

termination
proof (relation "measure (\<lambda>(n, ttl, fs). length fs)", simp, goal_cases)
  case (1 n ttl fs later)
  then have "0 < nat n" "nat n \<le> length fs" by auto
  then show ?case
    using length_dropWhile_le [of "\<lambda>f. \<not> over ttl (locked_since n fs) (fst f)" "drop (nat n) fs"] 1
    by simp
qed

declare current.simps [simp del]

definition locked_out :: "int \<Rightarrow> int option \<Rightarrow> (int \<times> int) list \<Rightarrow> int \<Rightarrow> bool" where
  "locked_out n ttl fs t =
     (case locked_since n (current n ttl fs) of
        None \<Rightarrow> False
      | Some l \<Rightarrow> \<not> over ttl (Some l) t)"

section \<open>The guard follows the reference\<close>

lemma locked_since_short: "int (length fs) < n \<Longrightarrow> locked_since n fs = None"
  by (simp add: locked_since_def)

lemma locked_since_append: "1 \<le> n \<Longrightarrow> n \<le> int (length fs) \<Longrightarrow> locked_since n (fs @ gs) = locked_since n fs"
  by (auto simp: locked_since_def nth_append)

lemma locked_since_full: "1 \<le> n \<Longrightarrow> int (length fs) + 1 = n \<Longrightarrow> locked_since n (fs @ [f]) = Some (snd f)"
  by (auto simp: locked_since_def nth_append)

lemma over_None [simp]: "\<not> over ttl None t"
  by (simp add: over_def split: option.splits)

lemma over_later: "over ttl l t \<Longrightarrow> t \<le> t' \<Longrightarrow> over ttl l t'"
  by (auto simp: over_def split: option.splits)

lemma dropWhile_snoc: "dropWhile P (xs @ [x]) = (if dropWhile P xs = [] then (if P x then [] else [x]) else dropWhile P xs @ [x])"
  by (induction xs) auto

lemma current_single: "1 \<le> n \<Longrightarrow> current n ttl [f] = [f]"
  by (subst current.simps) (auto simp: Let_def)

lemma current_snoc:
  "1 \<le> n \<Longrightarrow> current n ttl (fs @ [f]) =
     (if over ttl (locked_since n (current n ttl fs)) (fst f) then [f] else current n ttl fs @ [f])"
proof (induction n ttl fs rule: current.induct)
  case (1 n ttl fs)
  show ?case
  proof (cases "int (length fs) < n")
    case True
    then have same: "current n ttl fs = fs" by (simp add: current.simps)
    have "current n ttl (fs @ [f]) = fs @ [f]"
      using True by (subst current.simps) (auto simp: Let_def)
    then show ?thesis unfolding same using True by (simp add: locked_since_short)
  next
    case False
    let ?P = "\<lambda>f. \<not> over ttl (locked_since n fs) (fst f)"
    let ?later = "dropWhile ?P (drop (nat n) fs)"
    have long: "nat n \<le> length fs" "locked_since n (fs @ [f]) = locked_since n fs"
      using False 1(2) by (auto intro: locked_since_append)
    have step: "current n ttl (fs @ [f]) =
        (if dropWhile ?P (drop (nat n) fs @ [f]) = [] then fs @ [f]
         else current n ttl (dropWhile ?P (drop (nat n) fs @ [f])))"
      using False 1(2) long by (subst current.simps) (simp add: Let_def)
    have old: "current n ttl fs = (if ?later = [] then fs else current n ttl ?later)"
      using False 1(2) by (subst current.simps) (simp add: Let_def)
    show ?thesis
    proof (cases "?later = []")
      case True
      with step have "current n ttl (fs @ [f]) = (if over ttl (locked_since n fs) (fst f) then current n ttl [f] else fs @ [f])"
        by (simp only: dropWhile_snoc) simp
      moreover have "current n ttl fs = fs" using old by (simp only: True simp_thms if_True)
      ultimately show ?thesis using 1(2) by (simp only: current_single)
    next
      case more: False
      have c: "\<not> (n < 1 \<or> int (length fs) < n)" using False 1(2) by simp
      have "current n ttl (fs @ [f]) = current n ttl (?later @ [f])"
        using step by (simp only: dropWhile_snoc more if_False append_is_Nil_conv list.distinct simp_thms)
      with 1(1) [OF c refl more 1(2)] old show ?thesis by (simp only: more if_False)
    qed
  qed
qed

lemma current_Nil [simp]: "current n ttl [] = []"
  by (simp add: current.simps)

text \<open>
  What the guard stores for an address with the failures \<open>fs\<close>, at time \<open>t\<close>: the failures that
  count, or nothing if their lockout is over.
\<close>

definition follows :: "int \<Rightarrow> int option \<Rightarrow> int \<Rightarrow> (int \<times> int) list \<Rightarrow> ip_state \<Rightarrow> bool" where
  "follows n ttl t fs st =
     (let c = current n ttl fs in
      st = \<lparr>ips_count = int (length c), ips_locked_at = locked_since n c\<rparr> \<or>
      (st = fresh_ip \<and> over ttl (locked_since n c) t))"

lemma follows_later: "follows n ttl t fs st \<Longrightarrow> t \<le> t' \<Longrightarrow> follows n ttl t' fs st"
  by (auto simp: follows_def Let_def dest: over_later)

lemma follows_fresh: "1 \<le> n \<Longrightarrow> follows n ttl t [] fresh_ip"
  by (simp add: follows_def fresh_ip_def locked_since_def)

lemma follows_reset: "over ttl (locked_since n (current n ttl fs)) t \<Longrightarrow> follows n ttl t fs fresh_ip"
  by (simp add: follows_def)

lemma is_ttl_expired_over: "is_ttl_expired t st g = over (gd_ttl g) (ips_locked_at st) t"
  by (auto simp: is_ttl_expired_def over_def split: option.splits)

lemma follows_failure:
  assumes "follows n ttl t fs st" "1 \<le> n" "t \<le> u"
    "st1 = (if over ttl (ips_locked_at st) u then fresh_ip else st)"
  shows "follows n ttl u (fs @ [(u, u2)])
     \<lparr>ips_count = ips_count st1 + 1,
      ips_locked_at = (if n \<le> ips_count st1 + 1 \<and> ips_locked_at st1 = None then Some u2 else ips_locked_at st1)\<rparr>"
proof -
  let ?c = "current n ttl fs"
  have one: "locked_since n [(u, u2)] = (if n \<le> 1 then Some u2 else None)"
    using assms(2) by (auto simp: locked_since_def)
  show ?thesis
  proof (cases "over ttl (locked_since n ?c) u")
    case True
    then have "st1 = fresh_ip" using assms(1,4) by (auto simp: follows_def Let_def)
    moreover have "current n ttl (fs @ [(u, u2)]) = [(u, u2)]" using current_snoc [OF assms(2), of ttl fs "(u, u2)"] True by simp
    ultimately show ?thesis by (simp add: follows_def fresh_ip_def one)
  next
    case False
    then have "\<not> over ttl (locked_since n ?c) t" using over_later assms(3) by blast
    then have st: "st = \<lparr>ips_count = int (length ?c), ips_locked_at = locked_since n ?c\<rparr>"
      using assms(1) by (simp add: follows_def Let_def)
    moreover have "st1 = st" using st False assms(4) by simp
    moreover have "current n ttl (fs @ [(u, u2)]) = ?c @ [(u, u2)]"
      using current_snoc [OF assms(2), of ttl fs "(u, u2)"] False by simp
    moreover have "locked_since n (?c @ [(u, u2)]) =
        (if n \<le> int (length ?c) + 1 \<and> locked_since n ?c = None then Some u2 else locked_since n ?c)"
      using assms(2) locked_since_append [of n ?c "[(u, u2)]"] locked_since_full [of n ?c "(u, u2)"]
        locked_since_short [of "?c @ [(u, u2)]" n] locked_since_short [of ?c n]
      by (cases "n \<le> int (length ?c)"; cases "int (length ?c) + 1 = n") (auto simp: locked_since_def)
    ultimately show ?thesis by (simp add: follows_def)
  qed
qed

definition stored :: "string \<Rightarrow> guard \<Rightarrow> ip_state" where
  "stored ip g = get_or (gd_state g ip) fresh_ip"

lemma get_ip_stored: "get_ip ip g = (st, g') \<Longrightarrow> st = stored ip g \<and> (\<forall>i. stored i g' = stored i g) \<and>
    gd_threshold g' = gd_threshold g \<and> gd_ttl g' = gd_ttl g"
  by (cases "gd_state g ip") (auto simp: get_ip_def stored_def set_ip_def get_or_def)

lemma stored_set [simp]: "stored i (set_ip ip st g) = (if i = ip then st else stored i g)"
  by (simp add: stored_def set_ip_def get_or_def)

lemma set_ip_config [simp]: "gd_threshold (set_ip ip st g) = gd_threshold g" "gd_ttl (set_ip ip st g) = gd_ttl g"
  by (simp_all add: set_ip_def)

lemma apply_guard_config: "gd_threshold (apply_guard e g) = gd_threshold g \<and> gd_ttl (apply_guard e g) = gd_ttl g"
  using get_ip_stored
  by (cases e) (fastforce simp: record_failure_def record_success_def is_locked_def get_failure_count_def
      check_or_raise_def Let_def split: prod.splits if_splits)+

lemma guard_after_config: "gd_threshold (guard_after h (new_guard n ttl)) = n \<and> gd_ttl (guard_after h (new_guard n ttl)) = ttl"
  by (induction h) (auto simp: new_guard_def apply_guard_config)

lemma stored_failure:
  "stored ip (record_failure t t2 i g) =
     (if i \<noteq> ip then stored ip g
      else (let st1 = (if over (gd_ttl g) (ips_locked_at (stored ip g)) t then fresh_ip else stored ip g)
            in \<lparr>ips_count = ips_count st1 + 1,
                ips_locked_at = (if gd_threshold g \<le> ips_count st1 + 1 \<and> ips_locked_at st1 = None then Some t2
                                 else ips_locked_at st1)\<rparr>))"
  by (cases "get_ip i g")
    (auto simp: record_failure_def is_ttl_expired_over Let_def dest!: get_ip_stored)

lemma stored_is_locked:
  "stored ip (snd (is_locked t i g)) = stored ip g \<or>
   (stored ip (snd (is_locked t i g)) = fresh_ip \<and> over (gd_ttl g) (ips_locked_at (stored ip g)) t)"
  by (cases "get_ip i g")
    (auto simp: is_locked_def is_ttl_expired_over dest!: get_ip_stored)

lemma stored_failure_count:
  "stored ip (snd (get_failure_count t i g)) = stored ip g \<or>
   (stored ip (snd (get_failure_count t i g)) = fresh_ip \<and> over (gd_ttl g) (ips_locked_at (stored ip g)) t)"
  by (cases "get_ip i g")
    (auto simp: get_failure_count_def is_ttl_expired_over dest!: get_ip_stored)

lemma snd_check_or_raise [simp]: "snd (check_or_raise t ip g) = snd (is_locked t ip g)"
  by (simp add: check_or_raise_def split: prod.splits)

lemma fst_is_locked:
  "fst (is_locked t ip g) \<longleftrightarrow>
     gd_threshold g \<le> ips_count (stored ip g) \<and> \<not> over (gd_ttl g) (ips_locked_at (stored ip g)) t"
  by (cases "get_ip ip g") (auto simp: is_locked_def is_ttl_expired_over dest!: get_ip_stored)

lemma fst_get_failure_count:
  "fst (get_failure_count t ip g) =
     (if over (gd_ttl g) (ips_locked_at (stored ip g)) t then 0 else ips_count (stored ip g))"
  by (cases "get_ip ip g") (auto simp: get_failure_count_def is_ttl_expired_over dest!: get_ip_stored)

lemma follows_asked:
  assumes "follows n ttl t fs st" "st' = st \<or> (st' = fresh_ip \<and> over ttl (ips_locked_at st) t)"
  shows "follows n ttl t fs st'"
  using assms by (auto simp: follows_def Let_def)

lemma stored_follows:
  "1 \<le> n \<Longrightarrow> in_order h t \<Longrightarrow> follows n ttl t (failures ip h) (stored ip (guard_after h (new_guard n ttl)))"
proof (induction h arbitrary: t)
  case Nil
  then show ?case using follows_fresh by (simp add: stored_def new_guard_def get_or_def)
next
  case (Cons e h)
  let ?g = "guard_after h (new_guard n ttl)"
  have cfg: "gd_threshold ?g = n" "gd_ttl ?g = ttl" using guard_after_config by auto
  show ?case
  proof (cases e)
    case (Failed u u2 i)
    then have IH: "follows n ttl u (failures ip h) (stored ip ?g)" and u: "u \<le> t" using Cons by auto
    show ?thesis
      using follows_later [OF IH u] follows_later [OF follows_failure [OF IH Cons.prems(1) order_refl refl, of u2] u]
      by (auto simp: Failed stored_failure cfg Let_def)
  next
    case (Succeeded i)
    then show ?thesis using Cons follows_fresh by (simp add: record_success_def)
  next
    case (AskedLocked u i)
    then have IH: "follows n ttl u (failures ip h) (stored ip ?g)" and u: "u \<le> t" using Cons by auto
    show ?thesis using follows_later [OF follows_asked [OF IH] u] stored_is_locked [of ip u i ?g]
      by (simp add: AskedLocked cfg)
  next
    case (AskedCount u i)
    then have IH: "follows n ttl u (failures ip h) (stored ip ?g)" and u: "u \<le> t" using Cons by auto
    show ?thesis using follows_later [OF follows_asked [OF IH] u] stored_failure_count [of ip u i ?g]
      by (simp add: AskedCount cfg)
  next
    case (Checked u i)
    then have IH: "follows n ttl u (failures ip h) (stored ip ?g)" and u: "u \<le> t" using Cons by auto
    show ?thesis using follows_later [OF follows_asked [OF IH] u] stored_is_locked [of ip u i ?g]
      by (simp add: Checked cfg)
  qed
qed

lemma is_locked_follows:
  assumes "1 \<le> n" "in_order h t"
  shows "fst (is_locked t ip (guard_after h (new_guard n ttl))) = locked_out n ttl (failures ip h) t"
  using stored_follows [OF assms, of ttl ip] guard_after_config [of h n ttl] assms(1)
  by (auto simp: fst_is_locked follows_def Let_def locked_out_def locked_since_def fresh_ip_def split: if_splits)

text \<open>Without a time to live the lockout lasts until the next success.\<close>

lemma locked_out_for_ever: "1 \<le> n \<Longrightarrow> locked_out n None fs t \<longleftrightarrow> n \<le> int (length fs)"
  by (subst locked_out_def, subst current.simps) (auto simp: over_def locked_since_def Let_def)

section \<open>The lockout is the reference lockout\<close>

text \<open>
  Property C31. Whatever happens to the guard, in whatever order, and whatever it has reset on the
  way: an address is locked exactly if the reference definition says so of its own failures since
  its last success, and the counted failures are those of the reference. The middleware answers
  429 to exactly the locked addresses, without calling the application, and passes every other
  request on.
\<close>

theorem lockout_equivalence:
  assumes "1 \<le> n" and "in_order h t" and "g = guard_after h (new_guard n ttl)"
  shows "fst (is_locked t ip g) = locked_out n ttl (failures ip h) t \<and>
    fst (get_failure_count t ip g) =
      (let c = current n ttl (failures ip h) in if over ttl (locked_since n c) t then 0 else int (length c)) \<and>
    (let locked = locked_out n ttl (failures (get_client_ip rq) h) t;
         answer = brute_force_dispatch call_next t rq g s
     in fst answer = (if locked then Inl (too_many (get_client_ip rq)) else fst (call_next rq s)) \<and>
        snd (snd (snd answer)) = (if locked then s else snd (call_next rq s)))"
proof -
  have "fst (get_failure_count t ip g) =
      (let c = current n ttl (failures ip h) in if over ttl (locked_since n c) t then 0 else int (length c))"
    using stored_follows [OF assms(1,2), of ttl ip] guard_after_config [of h n ttl]
    by (auto simp: assms(3) fst_get_failure_count follows_def Let_def fresh_ip_def)
  then show ?thesis
    using is_locked_follows [OF assms(1,2), of ip ttl] is_locked_follows [OF assms(1,2), of "get_client_ip rq" ttl]
    by (auto simp: assms(3) brute_force_dispatch_def Let_def split: prod.splits bool.splits)
qed

text \<open>Three failures lock an address for ten seconds; the fourth, after it, counts as the first.\<close>

definition sample_attacks :: "guard_event list" where
  "sample_attacks = [AskedLocked 9 ''a'', Failed 5 5 ''a'', Failed 3 3 ''b'', Failed 2 2 ''a'', Failed 1 1 ''a'']"

theorem lockout_equivalence_witness:
  "fst (is_locked 14 ''a'' (guard_after sample_attacks (new_guard 3 (Some 10)))) \<and>
   \<not> fst (is_locked 14 ''b'' (guard_after sample_attacks (new_guard 3 (Some 10)))) \<and>
   \<not> fst (is_locked 15 ''a'' (guard_after sample_attacks (new_guard 3 (Some 10)))) \<and>
   fst (get_failure_count 16 ''a'' (guard_after (Failed 16 16 ''a'' # sample_attacks) (new_guard 3 (Some 10)))) = 1"
proof -
  have 1: "in_order sample_attacks 14" "in_order sample_attacks 15" "in_order (Failed 16 16 ''a'' # sample_attacks) 16"
    by (simp_all add: sample_attacks_def)
  have 2: "locked_out 3 (Some 10) (failures ''a'' sample_attacks) 14" "\<not> locked_out 3 (Some 10) (failures ''b'' sample_attacks) 14"
    "\<not> locked_out 3 (Some 10) (failures ''a'' sample_attacks) 15"
    "current 3 (Some 10) (failures ''a'' (Failed 16 16 ''a'' # sample_attacks)) = [(16, 16)]"
    by code_simp+
  note at = lockout_equivalence [OF _ _ refl, of 3 _ _ _ "Some 10", THEN conjunct1]
    lockout_equivalence [OF _ _ refl, of 3 _ _ _ "Some 10", THEN conjunct2, THEN conjunct1]
  show ?thesis
    using at(1) [OF _ 1(1), of "''a''"] at(1) [OF _ 1(1), of "''b''"] at(1) [OF _ 1(2), of "''a''"]
      at(2) [OF _ 1(3), of "''a''"]
    by (simp only: 2) (simp add: locked_since_def over_def)
qed

end
