(* ===== verification/RateLimits.thy ===== *)
theory RateLimits
  imports Limiter Http "HOL-Library.AList"
begin

text \<open>
  \<open>security/rate_limit.py\<close>: the sliding window on Redis and the middleware that applies it. Redis is
  a parameter with the documented behaviour of its sorted sets. Times are in microseconds.
\<close>

section \<open>The limiter\<close>

text \<open>The transaction of the four commands: key, lower bound of the window, member, score and time to
  live; the left value is the text of an exception, the right one the answer of \<open>ZCARD\<close>.\<close>

type_synonym 'r pipeline = "string \<Rightarrow> int \<Rightarrow> string \<Rightarrow> int \<Rightarrow> int \<Rightarrow> 'r \<Rightarrow> (string + nat) \<times> 'r"

record 'r redis_limiter =
  rl_pipeline :: "'r pipeline"
  rl_time_text :: "int \<Rightarrow> string"
  rl_limit :: int
  rl_window_seconds :: int

definition window_us :: "'r redis_limiter \<Rightarrow> int" where
  "window_us L = rl_window_seconds L * 1000000"

definition check_limit :: "'r redis_limiter \<Rightarrow> int \<Rightarrow> string \<Rightarrow> 'r \<Rightarrow> (bool \<times> int) \<times> 'r" where
  "check_limit L now key r =
     (case rl_pipeline L key (now - window_us L) (rl_time_text L now) now (rl_window_seconds L) r of
        (Inl _, r') \<Rightarrow> ((True, 0), r')
      | (Inr count, r') \<Rightarrow>
          (if rl_limit L < int count then ((False, rl_window_seconds L), r') else ((True, 0), r')))"

definition limit_key :: "request \<Rightarrow> string" where
  "limit_key rq =
     (if truthy (rq_api_key rq) then ''key:'' @ the (rq_api_key rq) else ''ip:'' @ get_client_ip rq)"

text \<open>The refusal carries the value of \<open>Retry-After\<close>.\<close>

definition rate_limit_dispatch ::
    "'r redis_limiter \<Rightarrow> (request \<Rightarrow> 's \<Rightarrow> 'a http \<times> 's) \<Rightarrow> int \<Rightarrow> request \<Rightarrow> 'r \<Rightarrow> 's \<Rightarrow>
      'a http \<times> string option \<times> 'r \<times> 's" where
  "rate_limit_dispatch L call_next now rq r s =
     (case check_limit L now (limit_key rq) r of
        ((allowed, retry_after), r') \<Rightarrow>
          if \<not> allowed then (Inl (HTTPException 429 ''Rate limit exceeded''), Some (int_str retry_after), r', s)
          else (case call_next rq s of (a, s') \<Rightarrow> (a, None, r', s')))"

section \<open>Sorted sets\<close>

text \<open>
  What Redis documents: a sorted set maps finitely many members to scores; after the transaction the
  set of the key holds the members of the window and the new one, whose number is answered; of the
  other keys at most members outside the window are gone, when their time to live is over.
\<close>

definition sorted_sets :: "'r pipeline \<Rightarrow> ('r \<Rightarrow> string \<Rightarrow> string \<Rightarrow> int option) \<Rightarrow> bool" where
  "sorted_sets pipe members =
     ((\<forall>r k. finite (dom (members r k))) \<and>
      (\<forall>key bound m score ttl r n r'. pipe key bound m score ttl r = (Inr n, r') \<longrightarrow>
         n = card (dom (members r' key)) \<and>
         (\<forall>m'. members r' key m' =
            (if m' = m then Some score
             else (case members r key m' of None \<Rightarrow> None | Some s \<Rightarrow> if bound < s then Some s else None))) \<and>
         (\<forall>k m' s. k \<noteq> key \<and> members r k m' = Some s \<and> bound < s \<longrightarrow> members r' k m' = Some s)))"

definition scored_after :: "('r \<Rightarrow> string \<Rightarrow> string \<Rightarrow> int option) \<Rightarrow> string \<Rightarrow> 'r \<Rightarrow> int \<Rightarrow> string set" where
  "scored_after members key r x = {m. \<exists>s. members r key m = Some s \<and> x < s}"

text \<open>An admitted request, while Redis answers, at a time no other request of the key has; and the
  other calls of the limiter.\<close>

definition redis_hit ::
    "'r redis_limiter \<Rightarrow> ('r \<Rightarrow> string \<Rightarrow> string \<Rightarrow> int option) \<Rightarrow> string \<Rightarrow> int \<Rightarrow> 'r \<Rightarrow> 'r \<Rightarrow> bool" where
  "redis_hit L members key t r r' =
     (members r key (rl_time_text L t) = None \<and> check_limit L t key r = ((True, 0), r') \<and>
      is_ok (fst (rl_pipeline L key (t - window_us L) (rl_time_text L t) t (rl_window_seconds L) r)))"

definition redis_other :: "'r redis_limiter \<Rightarrow> string \<Rightarrow> int \<Rightarrow> 'r \<Rightarrow> 'r \<Rightarrow> bool" where
  "redis_other L key t r r' =
     (\<exists>k a. check_limit L t k r = (a, r') \<and> (k \<noteq> key \<or> \<not> fst a) \<and>
      is_ok (fst (rl_pipeline L k (t - window_us L) (rl_time_text L t) t (rl_window_seconds L) r)))"

lemma sorted_setsD:
  assumes "sorted_sets pipe members" "pipe key bound m score ttl r = (Inr n, r')"
  shows "n = card (dom (members r' key))"
    "members r' key m' = (if m' = m then Some score
       else (case members r key m' of None \<Rightarrow> None | Some s \<Rightarrow> if bound < s then Some s else None))"
    "k \<noteq> key \<Longrightarrow> members r k m' = Some s \<Longrightarrow> bound < s \<Longrightarrow> members r' k m' = Some s"
  using assms unfolding sorted_sets_def by blast+

lemma finite_scored: "sorted_sets pipe members \<Longrightarrow> finite (scored_after members key r x)"
  unfolding sorted_sets_def scored_after_def by (auto intro: finite_subset [of _ "dom (members r key)"])

lemma scored_own:
  assumes "sorted_sets pipe members" "pipe key bound m score ttl r = (Inr n, r')" "bound \<le> x" "x < score"
  shows "scored_after members key r' x = insert m (scored_after members key r x)"
proof (rule set_eqI)
  fix y
  show "y \<in> scored_after members key r' x \<longleftrightarrow> y \<in> insert m (scored_after members key r x)"
    using sorted_setsD(2) [OF assms(1,2), of y] assms(3,4)
    by (cases "members r key y") (auto simp: scored_after_def)
qed

lemma scored_keeps:
  assumes "sorted_sets pipe members" "pipe k bound m t ttl r = (Inr n, r')" "bound \<le> x" "x < t"
  shows "scored_after members key r x \<subseteq> scored_after members key r' x"
proof (cases "k = key")
  case True
  then show ?thesis using scored_own [OF assms(1) _ assms(3,4)] assms(2) by blast
next
  case False
  then show ?thesis using sorted_setsD(3) [OF assms(1,2)] assms(3) by (fastforce simp: scored_after_def)
qed

lemma scored_later:
  assumes "sorted_sets pipe members" "pipe key bound m t ttl r = (Inr n, r')" "bound \<le> x" "members r key m = None"
  shows "scored_after members key r x \<subseteq> scored_after members key r' x"
proof
  fix y
  assume "y \<in> scored_after members key r x"
  then obtain s where y: "members r key y = Some s" "x < s" by (auto simp: scored_after_def)
  then have "y \<noteq> m" using assms(4) by auto
  then show "y \<in> scored_after members key r' x"
    using sorted_setsD(2) [OF assms(1,2), of y] y assms(3) by (auto simp: scored_after_def)
qed

lemma redis_hitE:
  assumes "redis_hit L members key t r r'"
  obtains n where
    "rl_pipeline L key (t - window_us L) (rl_time_text L t) t (rl_window_seconds L) r = (Inr n, r')"
    "int n \<le> rl_limit L" "members r key (rl_time_text L t) = None"
proof (cases "rl_pipeline L key (t - window_us L) (rl_time_text L t) t (rl_window_seconds L) r")
  case (Pair a r1)
  then show ?thesis using assms that
    by (cases a) (simp_all add: redis_hit_def check_limit_def is_ok_def split: if_splits)
qed

lemma redis_otherE:
  assumes "redis_other L key t r r'"
  obtains k n where
    "rl_pipeline L k (t - window_us L) (rl_time_text L t) t (rl_window_seconds L) r = (Inr n, r')"
proof -
  obtain k a where k: "check_limit L t k r = (a, r')"
      "is_ok (fst (rl_pipeline L k (t - window_us L) (rl_time_text L t) t (rl_window_seconds L) r))"
    using assms unfolding redis_other_def by blast
  obtain e r1 where e: "rl_pipeline L k (t - window_us L) (rl_time_text L t) t (rl_window_seconds L) r = (e, r1)"
    by (cases "rl_pipeline L k (t - window_us L) (rl_time_text L t) t (rl_window_seconds L) r") blast
  have "r1 = r'" using k e by (cases e) (simp_all add: check_limit_def is_ok_def split: if_splits)
  with k e show ?thesis using that by (cases e) (simp_all add: is_ok_def)
qed

text \<open>The limiter meets the laws of a window limiter.\<close>

lemma redis_window_limiter:
  assumes "sorted_sets (rl_pipeline L) members" "0 \<le> rl_limit L"
  shows "window_limiter (redis_hit L members key) (redis_other L key) (\<lambda>r x. card (scored_after members key r x))
    (nat (rl_limit L)) (window_us L) (\<lambda>_. True)"
proof (unfold_locales, goal_cases)
  case (2 t s s')
  then obtain n where n: "rl_pipeline L key (t - window_us L) (rl_time_text L t) t (rl_window_seconds L) s = (Inr n, s')"
      "int n \<le> rl_limit L" "members s key (rl_time_text L t) = None"
    by (blast elim: redis_hitE)
  have "insert (rl_time_text L t) (scored_after members key s (t - window_us L)) \<subseteq> dom (members s' key)"
  proof
    fix y
    assume "y \<in> insert (rl_time_text L t) (scored_after members key s (t - window_us L))"
    then show "y \<in> dom (members s' key)"
      using sorted_setsD(2) [OF assms(1) n(1), of y] by (auto simp: scored_after_def)
  qed
  then have "card (insert (rl_time_text L t) (scored_after members key s (t - window_us L))) \<le> n"
    using sorted_setsD(1) [OF assms(1) n(1)] assms(1) card_mono unfolding sorted_sets_def by metis
  moreover have "rl_time_text L t \<notin> scored_after members key s (t - window_us L)" using n(3) by (simp add: scored_after_def)
  ultimately show ?case using n(2) finite_scored [OF assms(1)] assms(2) by (simp add: zless_nat_eq_int_zless)
next
  case (3 t s s' x)
  then obtain n where n: "rl_pipeline L key (t - window_us L) (rl_time_text L t) t (rl_window_seconds L) s = (Inr n, s')"
      "members s key (rl_time_text L t) = None"
    by (blast elim: redis_hitE)
  have "rl_time_text L t \<notin> scored_after members key s x" using n(2) by (simp add: scored_after_def)
  then show ?case using scored_own [OF assms(1) n(1) 3(3,4)] finite_scored [OF assms(1)] by simp
next
  case (4 t s s' x)
  then obtain k n where "rl_pipeline L k (t - window_us L) (rl_time_text L t) t (rl_window_seconds L) s = (Inr n, s')"
    by (blast elim: redis_otherE)
  from scored_keeps [OF assms(1) this 4(3,4)] show ?case by (rule card_mono [OF finite_scored [OF assms(1)]])
next
  case (5 t s s' x)
  then obtain n where n: "rl_pipeline L key (t - window_us L) (rl_time_text L t) t (rl_window_seconds L) s = (Inr n, s')"
      "members s key (rl_time_text L t) = None"
    by (blast elim: redis_hitE)
  from scored_later [OF assms(1) n(1) 5(3) n(2)] show ?case by (rule card_mono [OF finite_scored [OF assms(1)]])
qed simp

text \<open>
  While Redis answers, at most \<open>limit\<close> requests of one key or address are admitted in any window, if
  the clock tells them apart: two requests with the same reading count as one.
\<close>

theorem redis_limit_holds:
  assumes "sorted_sets (rl_pipeline L) members" and "0 \<le> rl_limit L"
    and "limited_run (redis_hit L members key) (redis_other L key) r0 ts t r"
  shows "int (in_window x (window_us L) ts) \<le> rl_limit L"
  using window_limiter.never_exceeded [OF redis_window_limiter [OF assms(1,2)] assms(3), of x] assms(2) by linarith

text \<open>When Redis fails every request is admitted.\<close>

lemma fails_open:
  "\<not> is_ok (fst (rl_pipeline L (limit_key rq) (now - window_us L) (rl_time_text L now) now (rl_window_seconds L) r)) \<Longrightarrow>
    fst (rate_limit_dispatch L call_next now rq r s) = fst (call_next rq s)"
  by (auto simp: rate_limit_dispatch_def check_limit_def is_ok_def split: prod.splits sum.splits)

section \<open>A server of sorted sets\<close>

text \<open>The laws hold of the sets kept as association lists, where a new member is put in front.\<close>

definition memory_pipeline :: "(string \<Rightarrow> (string \<times> int) list) pipeline" where
  "memory_pipeline key bound m score ttl r =
     (let s = (m, score) # filter (\<lambda>x. fst x \<noteq> m \<and> bound < snd x) (AList.clearjunk (r key))
      in (Inr (length s), r(key := s)))"

lemma lookup_filtered:
  "distinct (map fst ms) \<Longrightarrow>
    map_of (filter keep ms) m = Option.bind (map_of ms m) (\<lambda>s. if keep (m, s) then Some s else None)"
  by (induction ms) (auto simp: map_of_eq_None_iff image_iff dest: map_of_SomeD split: option.splits)

lemma card_dom_map_of: "distinct (map fst xs) \<Longrightarrow> card (dom (map_of xs)) = length xs"
  by (metis distinct_card dom_map_of_conv_image_fst length_map list.set_map)

lemma memory_pipelineD:
  assumes "memory_pipeline key bound m score ttl r = (Inr n, r')"
  shows "n = card (dom (map_of (r' key)))"
    "map_of (r' key) m' = (if m' = m then Some score
       else (case map_of (r key) m' of None \<Rightarrow> None | Some s \<Rightarrow> if bound < s then Some s else None))"
    "k \<noteq> key \<Longrightarrow> r' k = r k"
proof -
  define s where "s = (m, score) # filter (\<lambda>x. fst x \<noteq> m \<and> bound < snd x) (AList.clearjunk (r key))"
  have eq: "n = length s" "r' = r(key := s)" using assms by (simp_all add: memory_pipeline_def s_def Let_def)
  have "distinct (map fst s)" by (auto simp: s_def intro: distinct_map_filter distinct_clearjunk)
  then show "n = card (dom (map_of (r' key)))" by (simp add: eq card_dom_map_of)
  show "map_of (r' key) m' = (if m' = m then Some score
       else (case map_of (r key) m' of None \<Rightarrow> None | Some s \<Rightarrow> if bound < s then Some s else None))"
    by (simp add: eq s_def lookup_filtered distinct_clearjunk map_of_clearjunk split: option.splits)
  show "k \<noteq> key \<Longrightarrow> r' k = r k" by (simp add: eq)
qed

lemma memory_pipeline_sorted_sets: "sorted_sets memory_pipeline (\<lambda>r k. map_of (r k))"
  unfolding sorted_sets_def
proof (intro conjI allI impI, goal_cases)
  case (1 r k)
  then show ?case by (rule finite_dom_map_of)
next
  case (2 key bound m score ttl r n r')
  then show ?case by (rule memory_pipelineD(1))
next
  case (3 key bound m score ttl r n r' m')
  then show ?case by (rule memory_pipelineD(2))
next
  case (4 key bound m score ttl r n r' k m' s)
  then show ?case using memory_pipelineD(3) [OF 4(1), of k] by simp
qed

text \<open>A limiter of two requests in a minute admits two of them, not the third.\<close>

theorem redis_limit_holds_witness:
  "let L = \<lparr>rl_pipeline = memory_pipeline, rl_time_text = int_str, rl_limit = 2, rl_window_seconds = 60\<rparr>
   in int (in_window 0 (window_us L) [5, 9]) \<le> rl_limit L \<and>
      fst (check_limit L 9 ''ip:a'' (snd (check_limit L 5 ''ip:a'' (\<lambda>_. [])))) = (True, 0) \<and>
      fst (check_limit L 11 ''ip:a'' (snd (check_limit L 9 ''ip:a'' (snd (check_limit L 5 ''ip:a'' (\<lambda>_. [])))))) = (False, 60)"
proof -
  define L where "L = \<lparr>rl_pipeline = memory_pipeline, rl_time_text = int_str, rl_limit = 2, rl_window_seconds = 60\<rparr>"
  define r1 :: "string \<Rightarrow> (string \<times> int) list" where "r1 = (\<lambda>_. [])(''ip:a'' := [(''5'', 5)])"
  define r2 where "r2 = r1(''ip:a'' := [(''9'', 9), (''5'', 5)])"
  have [simp]: "int_str 5 = ''5''" "int_str 9 = ''9''" "int_str 11 = ''11''" by code_simp+
  note defs = L_def window_us_def memory_pipeline_def check_limit_def Let_def
  have c1: "check_limit L 5 ''ip:a'' (\<lambda>_. []) = ((True, 0), r1)" by (simp add: defs r1_def)
  have c2: "check_limit L 9 ''ip:a'' r1 = ((True, 0), r2)" by (simp add: defs r2_def r1_def)
  have c3: "fst (check_limit L 11 ''ip:a'' r2) = (False, 60)" by (simp add: defs r2_def r1_def)
  have h1: "redis_hit L (\<lambda>r k. map_of (r k)) ''ip:a'' 5 (\<lambda>_. []) r1"
    using c1 by (simp add: redis_hit_def L_def memory_pipeline_def Let_def is_ok_def)
  have h2: "redis_hit L (\<lambda>r k. map_of (r k)) ''ip:a'' 9 r1 r2"
    using c2 by (simp add: redis_hit_def r1_def L_def memory_pipeline_def Let_def is_ok_def)
  let ?run = "limited_run (redis_hit L (\<lambda>r k. map_of (r k)) ''ip:a'') (redis_other L ''ip:a'') (\<lambda>_. [])"
  have "?run [] 0 (\<lambda>_. [])" by (rule limited_run.init)
  then have "?run ([] @ [5]) 5 r1" by (rule limited_run.admitted) (simp, rule h1)
  then have "?run (([] @ [5]) @ [9]) 9 r2" by (rule limited_run.admitted) (simp, rule h2)
  then have run: "?run [5, 9] 9 r2" by simp
  have "sorted_sets (rl_pipeline L) (\<lambda>r k. map_of (r k))" "0 \<le> rl_limit L"
    using memory_pipeline_sorted_sets by (simp_all add: L_def)
  from redis_limit_holds [OF this run, of 0] have "int (in_window 0 (window_us L) [5, 9]) \<le> rl_limit L" by simp
  then show ?thesis using c1 c2 c3 unfolding L_def [symmetric] Let_def by simp
qed

end
