(* ===== verification/Website.thy ===== *)
theory Website
  imports AppSessions Jwt Base64
begin

text \<open>
  \<open>api/website_routes.py\<close>: the signed session cookie, login and logout, and the pages behind the
  cookie. A page is its status and the values its template is given; the templates are not
  modelled. The pages write into the workgroups they show, which the quota check reads.
\<close>

section \<open>The cookie\<close>

text \<open>\<open>json.dumps\<close> of a dictionary of strings\<close>

fun json_members :: "(string \<times> string) list \<Rightarrow> string" where
  "json_members [] = []"
| "json_members [(k, v)] = json_str k @ '': '' @ json_str v"
| "json_members ((k, v) # m # ms) = json_str k @ '': '' @ json_str v @ '', '' @ json_members (m # ms)"

definition json_object :: "(string \<times> string) list \<Rightarrow> string" where
  "json_object ms = ''{'' @ json_members ms @ ''}''"

text \<open>\<open>we_mac\<close> is the HMAC of secret and text, \<open>we_loads\<close> decodes a JSON object; \<open>None\<close> is an
  exception. \<open>we_environ\<close> are the environment variables the pages show.\<close>

record web_env =
  we_auth :: auth_env
  we_mac :: "string \<Rightarrow> string \<Rightarrow> string"
  we_loads :: "string \<Rightarrow> (string \<times> string) list option"
  we_environ :: "string \<Rightarrow> string option"

definition signed_cookie :: "(string \<Rightarrow> string \<Rightarrow> string) \<Rightarrow> string \<Rightarrow> (string \<times> string) list \<Rightarrow> string" where
  "signed_cookie mac secret data =
     (let payload = b64_encode_padded (json_object data) in payload @ ''.'' @ mac secret payload)"

definition sign_session :: "web_env \<Rightarrow> (string \<times> string) list \<Rightarrow> string http" where
  "sign_session E data = map_sum id (\<lambda>secret. signed_cookie (we_mac E) secret data) (get_session_secret (we_auth E))"

definition cookie_data :: "(string \<Rightarrow> (string \<times> string) list option) \<Rightarrow> string \<Rightarrow> (string \<times> string) list option" where
  "cookie_data loads payload =
     (case b64_decode_padded payload of Inl _ \<Rightarrow> None | Inr text \<Rightarrow> loads text)"

text \<open>The check of a cookie under a secret, which may itself fail to be read.\<close>

definition verify_signed ::
    "(string \<Rightarrow> string \<Rightarrow> string) \<Rightarrow> (string \<Rightarrow> (string \<times> string) list option) \<Rightarrow> string http \<Rightarrow> string \<Rightarrow>
      (string \<times> string) list option" where
  "verify_signed mac loads secret cookie =
     (case rsplit_dot cookie of
        None \<Rightarrow> None
      | Some (payload, sig) \<Rightarrow>
          (case secret of
             Inl _ \<Rightarrow> None
           | Inr k \<Rightarrow> if sig \<noteq> mac k payload then None else cookie_data loads payload))"

definition verify_session :: "web_env \<Rightarrow> string \<Rightarrow> (string \<times> string) list option" where
  "verify_session E cookie = verify_signed (we_mac E) (we_loads E) (get_session_secret (we_auth E)) cookie"

definition cookie_session :: "web_env \<Rightarrow> request \<Rightarrow> (string \<times> string) list option" where
  "cookie_session E rq =
     (if truthy (rq_session_cookie rq) then verify_session E (the (rq_session_cookie rq)) else None)"

text \<open>\<open>if not session\<close>: neither \<open>None\<close> nor an empty dictionary\<close>

definition signed_in :: "web_env \<Rightarrow> request \<Rightarrow> (string \<times> string) list option" where
  "signed_in E rq =
     (case cookie_session E rq of None \<Rightarrow> None | Some data \<Rightarrow> if data = [] then None else Some data)"

record current_user =
  cu_display_name :: string
  cu_role :: string
  cu_tenant_id :: string

definition item_or :: "(string \<times> string) list \<Rightarrow> string \<Rightarrow> string \<Rightarrow> string" where
  "item_or data k d = get_or (map_of data k) d"

definition build_current_user :: "(string \<times> string) list \<Rightarrow> current_user" where
  "build_current_user data =
     \<lparr>cu_display_name = item_or data ''display_name'' ''User'', cu_role = item_or data ''role'' ''user'',
      cu_tenant_id = item_or data ''tenant_id'' ''default''\<rparr>"

section \<open>Login and logout\<close>

datatype 'a page = Redirect nat string | Page nat 'a

datatype cookie_change = KeepCookie | SetCookie string | DeleteCookie

record login_form =
  lf_error :: "string option"
  lf_invite_state :: string
  lf_namespace_name :: string

definition landing :: "web_env \<Rightarrow> string page" where
  "landing E = Page 200 (get_or (we_environ E ''POND_CONTACT_EMAIL'') ''contact@databasecompany.com'')"

definition login_page :: "string option \<Rightarrow> string option \<Rightarrow> login_form page" where
  "login_page invite_state namespace_name =
     Page 200 \<lparr>lf_error = None, lf_invite_state = get_or invite_state [], lf_namespace_name = get_or namespace_name []\<rparr>"

definition login_error :: "nat \<Rightarrow> string \<Rightarrow> login_form page" where
  "login_error n e = Page n \<lparr>lf_error = Some e, lf_invite_state = [], lf_namespace_name = []\<rparr>"

definition login_submit :: "web_env \<Rightarrow> string \<Rightarrow> (login_form page \<times> cookie_change) http" where
  "login_submit E api_key =
     (if blank api_key then Inr (login_error 400 ''API key is required'', KeepCookie)
      else
        (case get_api_key (we_auth E) of
           Inl e \<Rightarrow> Inl e
         | Inr expected \<Rightarrow>
             if expected = [] \<or> api_key \<noteq> expected
             then Inr (login_error 200 ''Invalid API key'', KeepCookie)
             else map_sum id (\<lambda>cookie. (Redirect 303 ''/dashboard'', SetCookie cookie))
                    (sign_session E [(''tenant_id'', ''default''), (''role'', ''admin'')])))"

definition logout :: "unit page \<times> cookie_change" where
  "logout = (Redirect 303 ''/'', DeleteCookie)"

section \<open>The pages\<close>

definition sessions_in :: "string \<Rightarrow> 'c manager \<Rightarrow> session_info list" where
  "sessions_in name m = filter (\<lambda>i. si_workgroup_id i = name) (list_sessions None None m)"

text \<open>\<open>wg['active_sessions'] = ...\<close>: the sessions are looked up by the name of the workgroup.\<close>

definition recount :: "'c manager \<Rightarrow> workgroup \<Rightarrow> workgroup" where
  "recount m w = w\<lparr>wk_active := int (length (sessions_in (wk_name w) m))\<rparr>"

record dashboard_page =
  dp_user :: current_user
  dp_active_sessions :: nat
  dp_queries_today :: nat
  dp_datasets :: nat
  dp_workgroups :: "workgroup list"
  dp_recent :: "history_row list"

definition dashboard ::
    "web_env \<Rightarrow> instant \<Rightarrow> meta_db \<Rightarrow> dataset_info list \<Rightarrow> request \<Rightarrow> 'c app_sys \<Rightarrow>
      dashboard_page page \<times> 'c app_sys" where
  "dashboard E t store datasets rq s =
     (case signed_in E rq of
        None \<Rightarrow> (Redirect 302 ''/login'', s)
      | Some data \<Rightarrow>
          (let wgs = map (recount (ap_manager s)) (rg_workgroups (ap_registry s));
               tenant = item_or data ''tenant_id'' ''default'';
               today = get_query_history None (Some tenant) None (Some (isoformat (t - t mod us_per_day))) None 1000 0 store;
               recent = get_query_history None (Some tenant) None None None 10 0 store
           in (Page 200 \<lparr>dp_user = build_current_user data,
                 dp_active_sessions = length (sm_sessions (ap_manager s)),
                 dp_queries_today = length today, dp_datasets = length datasets,
                 dp_workgroups = wgs, dp_recent = recent\<rparr>,
               s\<lparr>ap_registry := (ap_registry s)\<lparr>rg_workgroups := wgs\<rparr>\<rparr>)))"

definition sessions_page ::
    "web_env \<Rightarrow> request \<Rightarrow> 'c app_sys \<Rightarrow> (session_info list \<times> workgroup list) page" where
  "sessions_page E rq s =
     (case signed_in E rq of
        None \<Rightarrow> Redirect 302 ''/login''
      | Some _ \<Rightarrow> Page 200 (list_sessions None None (ap_manager s), rg_workgroups (ap_registry s)))"

record workgroup_view =
  wv_workgroup :: workgroup
  wv_sessions :: "session_info list"
  wv_nav :: "workgroup list"

definition workgroup_page ::
    "web_env \<Rightarrow> request \<Rightarrow> string \<Rightarrow> 'c app_sys \<Rightarrow> workgroup_view page http \<times> 'c app_sys" where
  "workgroup_page E rq wid s =
     (case signed_in E rq of
        None \<Rightarrow> (Inr (Redirect 302 ''/login''), s)
      | Some _ \<Rightarrow>
          (case find (\<lambda>w. wk_name w = wid \<or> wk_id w = wid) (rg_workgroups (ap_registry s)) of
             None \<Rightarrow> (Inl (wg_not_found wid), s)
           | Some w \<Rightarrow>
               (let w' = recount (ap_manager s) w; g = set_workgroup w' (ap_registry s)
                in (Inr (Page 200 \<lparr>wv_workgroup = w', wv_sessions = sessions_in (wk_name w) (ap_manager s),
                                  wv_nav = rg_workgroups g\<rparr>),
                    s\<lparr>ap_registry := g\<rparr>))))"

definition settings_config :: "(string \<Rightarrow> string option) \<Rightarrow> (string \<times> string) list \<times> (string \<times> bool) list" where
  "settings_config env =
     (map (\<lambda>(k, v, d). (k, get_or (env v) d))
        [(''host'', ''POND_HOST'', ''0.0.0.0''), (''port'', ''POND_PORT'', ''8432''),
         (''data_root'', ''POND_DATA_ROOT'', ''./data''), (''sqlite_path'', ''POND_SQLITE_PATH'', '':memory:''),
         (''log_level'', ''POND_LOG_LEVEL'', ''INFO''), (''idle_timeout'', ''POND_IDLE_TIMEOUT'', ''300''),
         (''max_session_age'', ''POND_MAX_SESSION_AGE'', ''86400''),
         (''memory_limit'', ''POND_SESSION_MEMORY_LIMIT'', ''2GB''), (''threads'', ''POND_SESSION_THREADS'', ''4''),
         (''jwt_expiry'', ''POND_JWT_EXPIRY_SECONDS'', ''3600''), (''rate_limit'', ''POND_PONDAPI_RATE_LIMIT'', ''10''),
         (''rate_window'', ''POND_PONDAPI_RATE_WINDOW'', ''60''), (''max_result_mb'', ''POND_MAX_RESULT_MB'', ''100''),
         (''cors_origins'', ''POND_CORS_ORIGINS'', [])],
      map (\<lambda>(k, v). (k, truthy (env v)))
        [(''google_oauth'', ''POND_GOOGLE_CLIENT_ID''), (''github_oauth'', ''POND_GITHUB_CLIENT_ID''),
         (''smtp_configured'', ''POND_SMTP_HOST'')])"

definition settings_page ::
    "web_env \<Rightarrow> request \<Rightarrow> 'c app_sys \<Rightarrow>
      (current_user \<times> ((string \<times> string) list \<times> (string \<times> bool) list) \<times> workgroup list) page" where
  "settings_page E rq s =
     (case signed_in E rq of
        None \<Rightarrow> Redirect 302 ''/login''
      | Some data \<Rightarrow>
          Page 200 (build_current_user data, settings_config (we_environ E), rg_workgroups (ap_registry s)))"

section \<open>What a login gives\<close>

lemma rsplit_dot_append: "CHR ''.'' \<notin> set b \<Longrightarrow> rsplit_dot (a @ CHR ''.'' # b) = Some (a, b)"
proof -
  assume b: "CHR ''.'' \<notin> set b"
  have "dropWhile (\<lambda>c. c \<noteq> CHR ''.'') (rev b @ CHR ''.'' # rev a) = CHR ''.'' # rev a"
    "takeWhile (\<lambda>c. c \<noteq> CHR ''.'') (rev b @ CHR ''.'' # rev a) = rev b"
    using b by (subst dropWhile_append2 takeWhile_append2; force)+
  then show ?thesis by (simp add: rsplit_dot_def)
qed

text \<open>A hexadecimal digest contains no dot.\<close>

definition dotless :: "(string \<Rightarrow> string \<Rightarrow> string) \<Rightarrow> bool" where
  "dotless mac = (\<forall>k s. CHR ''.'' \<notin> set (mac k s))"

lemma verify_signed_cookie:
  assumes "dotless mac" "loads (json_object data) = Some data"
  shows "verify_signed mac loads (Inr k) (signed_cookie mac k data) = Some data"
  using assms
  by (simp add: verify_signed_def signed_cookie_def Let_def rsplit_dot_append dotless_def cookie_data_def
      b64_decode_padded_encode)

lemma verify_session_is_jwt:
  "verify_session E c = verify_session_cookie (we_mac E) (cookie_data (we_loads E)) (we_auth E) c"
  by (simp add: verify_session_def verify_signed_def verify_session_cookie_def split: option.splits prod.splits sum.splits)

definition admin_session :: "(string \<times> string) list" where
  "admin_session = [(''tenant_id'', ''default''), (''role'', ''admin'')]"

lemma login_submit_cookie:
  "login_submit E key = Inr (pg, SetCookie c) \<longleftrightarrow>
     \<not> blank key \<and> get_api_key (we_auth E) = Inr key \<and> pg = Redirect 303 ''/dashboard'' \<and>
     (\<exists>k. get_session_secret (we_auth E) = Inr k \<and> c = signed_cookie (we_mac E) k admin_session)"
  by (cases "get_session_secret (we_auth E)")
    (auto simp: login_submit_def login_error_def sign_session_def admin_session_def blank_def split: sum.splits)

lemma login_signed_in:
  assumes "dotless (we_mac E)" "we_loads E (json_object admin_session) = Some admin_session"
    "login_submit E key = Inr (pg, SetCookie c)" "rq_session_cookie rq = Some c"
  shows "signed_in E rq = Some admin_session"
proof -
  from assms(3) obtain k where k: "get_session_secret (we_auth E) = Inr k" "c = signed_cookie (we_mac E) k admin_session"
    by (auto simp: login_submit_cookie)
  have "c \<noteq> []" by (simp add: k(2) signed_cookie_def Let_def)
  then show ?thesis
    using verify_signed_cookie [where mac = "we_mac E" and loads = "we_loads E", OF assms(1,2), of k] assms(4) k
    by (simp add: signed_in_def cookie_session_def verify_session_def truthy_def admin_session_def)
qed

text \<open>
  A login answers a cookie exactly to callers who send the configured API key; the
  cookie signs its bearer in as administrator of tenant \<open>default\<close> on the pages, and authenticates
  requests to the API that carry no other credentials, with the rights of the API key.
\<close>

theorem login_cookie_accepted:
  assumes "dotless (we_mac E)" and "we_loads E (json_object admin_session) = Some admin_session"
    and "ad_mac D = we_mac E" and "ad_load D = cookie_data (we_loads E)"
    and "rq_session_cookie rq = Some c" and "rq_authorization rq = None" and "rq_api_key rq = None"
    and "get_session_secret (we_auth E) = Inr k"
  shows "((\<exists>pg c'. login_submit E key = Inr (pg, SetCookie c')) \<longleftrightarrow>
      get_api_key (we_auth E) = Inr key \<and> \<not> blank key) \<and>
    (login_submit E key = Inr (pg, SetCookie c) \<longrightarrow>
      signed_in E rq = Some admin_session \<and> authenticate D (we_auth E) bl now rq = Inr (default_claims ''default''))"
proof -
  have "authenticate D (we_auth E) bl now rq = Inr (default_claims ''default'')"
    if s: "signed_in E rq = Some admin_session"
  proof -
    from s have v: "truthy (rq_session_cookie rq)" "verify_session E (the (rq_session_cookie rq)) = Some admin_session"
      by (auto simp: signed_in_def cookie_session_def split: option.splits if_splits)
    then show ?thesis
      using assms(3,4,6,7)
      by (simp add: authenticate_def bearer_prefix_def verify_session_is_jwt admin_session_def Let_def)
  qed
  moreover have "signed_in E rq = Some admin_session" if "login_submit E key = Inr (pg, SetCookie c)"
    by (rule login_signed_in [OF assms(1,2) that assms(5)])
  moreover have "(\<exists>pg c'. login_submit E key = Inr (pg, SetCookie c')) \<longleftrightarrow>
      get_api_key (we_auth E) = Inr key \<and> \<not> blank key"
    using assms(8) by (auto simp: login_submit_cookie)
  ultimately show ?thesis by blast
qed

section \<open>The pages and the quota\<close>

lemma find_map_same: "(\<And>x. P (f x) = P x) \<Longrightarrow> find P (map f xs) = map_option f (find P xs)"
  by (induction xs) auto

lemma find_workgroup_recount:
  "find_workgroup w (g\<lparr>rg_workgroups := map (recount m) (rg_workgroups g)\<rparr>) = map_option (recount m) (find_workgroup w g)"
  by (simp add: find_workgroup_def recount_def find_map_same)

lemma no_sessions_in: "(\<And>x. x \<in> set (sm_sessions m) \<Longrightarrow> s_workgroup_id x \<noteq> name) \<Longrightarrow> sessions_in name m = []"
  by (auto simp: sessions_in_def list_sessions_def session_info_of_def filter_empty_conv)

text \<open>
  Property C33. Showing the dashboard lifts the quotas: it sets the count of every workgroup to the
  number of sessions whose workgroup is its name, while sessions belong to workgroups by their
  identifier. A workgroup whose name no session carries is left with the count zero, however many
  of its sessions live, and the next creation in it is admitted under any quota.
\<close>

theorem dashboard_lifts_quota:
  assumes "app_reachable D cfg s" and "find_workgroup w (ap_registry s) = Some wk"
    and "\<forall>x \<in> set (sm_sessions (ap_manager s)). s_workgroup_id x \<noteq> wk_name wk"
    and "signed_in E rq = Some data" and "dashboard E now store datasets rq s = (pg, s')"
    and "create_hardened_connection D cfg = Inr c"
  shows "find_workgroup w (ap_registry s') = Some (wk\<lparr>wk_active := 0\<rparr>) \<and>
    tracked w (ap_registry s') = tracked w (ap_registry s) \<and> ap_manager s' = ap_manager s \<and>
    is_ok (fst (post_session D cfg t sid ns (Some w) s'))"
proof -
  have s': "s' = s\<lparr>ap_registry := (ap_registry s)\<lparr>rg_workgroups := map (recount (ap_manager s)) (rg_workgroups (ap_registry s))\<rparr>\<rparr>"
    using assms(4,5) by (auto simp: dashboard_def Let_def)
  have none: "sessions_in (wk_name wk) (ap_manager s) = []"
    using no_sessions_in assms(3) by blast
  have w: "find_workgroup w (ap_registry s') = Some (wk\<lparr>wk_active := 0\<rparr>)"
    using assms(2) by (simp add: s' find_workgroup_recount recount_def none)
  have "wk \<in> set (rg_workgroups (ap_registry s))" using find_workgroupD [OF assms(2)] by blast
  then have "quota_ok (wk_quota wk)" using registry_rowI [OF app_reachable_inv [OF assms(1)]] by blast
  then have "take_slot (Some w) (ap_registry s') = Inr (set_workgroup (wk\<lparr>wk_active := 1\<rparr>) (ap_registry s'))"
    by (auto simp: take_slot_def w check_and_reserve_session_slot_def quota_ok_def split: option.splits)
  then have "is_ok (fst (post_session D cfg t sid ns (Some w) s'))"
    using assms(6) by (auto simp: post_session_def create_session_def Let_def register_again_def get_session_def
        find_sess_set find_sess_save split: option.splits)
  then show ?thesis using w by (simp add: s' tracked_def)
qed

section \<open>A login and a visit of the dashboard\<close>

definition dotless_mac :: "string \<Rightarrow> string \<Rightarrow> string" where
  "dotless_mac k s = filter (\<lambda>c. c \<noteq> CHR ''.'') (k @ ''/'' @ s)"

lemma dotless_mac: "dotless dotless_mac"
  by (simp add: dotless_def dotless_mac_def)

definition sample_loads :: "string \<Rightarrow> (string \<times> string) list option" where
  "sample_loads t = (if t = json_object admin_session then Some admin_session else None)"

definition sample_web :: web_env where
  "sample_web =
     \<lparr>we_auth = sample_env [] ''k1'', we_mac = dotless_mac, we_loads = sample_loads, we_environ = (\<lambda>_. None)\<rparr>"

definition admin_cookie :: string where
  "admin_cookie = signed_cookie dotless_mac ''change-me-default-secret'' admin_session"

definition with_cookie :: "string \<Rightarrow> request" where
  "with_cookie c = plain_request\<lparr>rq_session_cookie := Some c\<rparr>"

lemma sample_login: "login_submit sample_web ''key'' = Inr (Redirect 303 ''/dashboard'', SetCookie admin_cookie)"
proof -
  have "\<not> blank ''key''" by code_simp
  then show ?thesis
    by (simp add: login_submit_cookie sample_web_def sample_env_def get_api_key_def get_session_secret_def
        admin_cookie_def get_or_def)
qed

lemma sample_signed_in: "signed_in sample_web (with_cookie admin_cookie) = Some admin_session"
  by (rule login_signed_in [OF _ _ sample_login])
    (simp_all add: sample_web_def dotless_mac sample_loads_def with_cookie_def)

theorem login_cookie_accepted_witness:
  "login_submit sample_web ''key'' = Inr (Redirect 303 ''/dashboard'', SetCookie admin_cookie) \<and>
   authenticate \<lparr>ad_jwt = sample_jwt sample_access, ad_mac = dotless_mac, ad_load = cookie_data sample_loads\<rparr>
     (sample_env [] ''k1'') [] 0 (with_cookie admin_cookie) = Inr (default_claims ''default'')"
proof -
  let ?D = "\<lparr>ad_jwt = sample_jwt sample_access, ad_mac = dotless_mac, ad_load = cookie_data sample_loads\<rparr>"
  have k: "get_session_secret (we_auth sample_web) = Inr ''change-me-default-secret''"
    by (simp add: sample_web_def sample_env_def get_session_secret_def get_or_def)
  have "dotless (we_mac sample_web)" "we_loads sample_web (json_object admin_session) = Some admin_session"
    by (simp_all add: sample_web_def dotless_mac sample_loads_def)
  from login_cookie_accepted [where D = ?D and rq = "with_cookie admin_cookie" and c = admin_cookie and bl = "[]" and now = 0
      and key = "''key''" and pg = "Redirect 303 ''/dashboard''", OF this _ _ _ _ _ k] sample_login
  show ?thesis by (simp add: sample_web_def with_cookie_def plain_request_def)
qed

definition busy_app :: "string list app_sys" where
  "busy_app = apply_app sample_duck sample_cfg (PostSession sample_time ''s'' ''default'' (Some ''w'')) sample_app"

text \<open>The quota of the workgroup is one session, which lives; after a visit of the dashboard a second one is opened.\<close>

theorem dashboard_lifts_quota_witness:
  "\<exists>pg s'. status_of (fst (post_session sample_duck sample_cfg sample_time ''s2'' ''default'' (Some ''w'') busy_app)) = Some 429 \<and>
     dashboard sample_web sample_time empty_meta [] (with_cookie admin_cookie) busy_app = (pg, s') \<and>
     is_ok (fst (post_session sample_duck sample_cfg sample_time ''s2'' ''default'' (Some ''w'') s'))"
proof -
  have r: "app_reachable sample_duck sample_cfg busy_app"
    unfolding busy_app_def by (rule app_reachable.event [OF sample_app_reachable]) code_simp
  have full: "status_of (fst (post_session sample_duck sample_cfg sample_time ''s2'' ''default'' (Some ''w'') busy_app)) = Some 429"
    "map_option wk_name (find_workgroup ''w'' (ap_registry busy_app)) = Some ''team''"
    "\<forall>x \<in> set (sm_sessions (ap_manager busy_app)). s_workgroup_id x \<noteq> ''team''"
    "is_ok (create_hardened_connection sample_duck sample_cfg)"
    by code_simp+
  obtain wk where wk: "find_workgroup ''w'' (ap_registry busy_app) = Some wk" "wk_name wk = ''team''" using full(2) by blast
  obtain c where c: "create_hardened_connection sample_duck sample_cfg = Inr c" using full(4) by (rule is_okE)
  obtain pg s' where d: "dashboard sample_web sample_time empty_meta [] (with_cookie admin_cookie) busy_app = (pg, s')"
    by (cases "dashboard sample_web sample_time empty_meta [] (with_cookie admin_cookie) busy_app")
  have no: "\<forall>x \<in> set (sm_sessions (ap_manager busy_app)). s_workgroup_id x \<noteq> wk_name wk"
    using full(3) by (simp only: wk(2))
  from dashboard_lifts_quota [OF r wk(1) no sample_signed_in d c, of sample_time "''s2''" "''default''"] full(1) d
  show ?thesis by blast
qed

end
