(* ===== verification/AdminPages.thy ===== *)
theory AdminPages
  imports Website Invites
begin

text \<open>
  \<open>api/admin_routes.py\<close>: the administration pages behind the session cookie of an administrator.
  They read the cookie's secret on their own, from the environment variable only, and fall back to a
  text that is in the source.
\<close>

section \<open>The check of the cookie\<close>

definition admin_secret :: "auth_env \<Rightarrow> string" where
  "admin_secret env = get_or (e_session_secret env) ''change-me-default-secret''"

definition admin_verify_session :: "web_env \<Rightarrow> string \<Rightarrow> (string \<times> string) list option" where
  "admin_verify_session E cookie = verify_signed (we_mac E) (we_loads E) (Inr (admin_secret (we_auth E))) cookie"

text \<open>A page without content is a plain text, \<open>Forbidden\<close> or \<open>Not Found\<close>.\<close>

definition check_admin :: "web_env \<Rightarrow> request \<Rightarrow> 'a option page + (string \<times> string) list" where
  "check_admin E rq =
     (if \<not> truthy (rq_session_cookie rq) then Inl (Redirect 302 ''/login'')
      else
        (case admin_verify_session E (the (rq_session_cookie rq)) of
           None \<Rightarrow> Inl (Redirect 302 ''/login'')
         | Some data \<Rightarrow>
             if data = [] then Inl (Redirect 302 ''/login'')
             else if map_of data ''role'' \<noteq> Some ''admin'' then Inl (Page 403 None)
             else Inr data))"

definition admin_user :: "(string \<times> string) list \<Rightarrow> current_user" where
  "admin_user data =
     \<lparr>cu_display_name = item_or data ''display_name'' ''Admin'', cu_role = item_or data ''role'' ''admin'',
      cu_tenant_id = item_or data ''tenant_id'' ''default''\<rparr>"

definition admin_home :: "web_env \<Rightarrow> request \<Rightarrow> registry \<Rightarrow> (current_user \<times> workgroup list) option page" where
  "admin_home E rq g =
     (case check_admin E rq of
        Inl p \<Rightarrow> p
      | Inr data \<Rightarrow> Page 200 (Some (admin_user data, rg_workgroups g)))"

section \<open>Invitations\<close>

record invites_page =
  ip_user :: current_user
  ip_invites :: "invite_row list"
  ip_error :: "string option"
  ip_nav :: "workgroup list"

definition invites_view ::
    "(string \<times> string) list \<Rightarrow> string option \<Rightarrow> meta_db \<Rightarrow> registry \<Rightarrow> invites_page" where
  "invites_view data error db g =
     \<lparr>ip_user = admin_user data, ip_invites = list_invites (item_or data ''tenant_id'' ''default'') db,
      ip_error = error, ip_nav = rg_workgroups g\<rparr>"

definition admin_invites :: "web_env \<Rightarrow> request \<Rightarrow> meta_db \<Rightarrow> registry \<Rightarrow> invites_page option page" where
  "admin_invites E rq db g =
     (case check_admin E rq of
        Inl p \<Rightarrow> p
      | Inr data \<Rightarrow> Page 200 (Some (invites_view data None db g)))"

definition invite_hours :: "string \<Rightarrow> int" where
  "invite_hours s = (if strip s = [] then 168 else get_or (py_int s) 168)"

text \<open>An exception of the store is swallowed.\<close>

definition admin_create_invite ::
    "web_env \<Rightarrow> instant \<Rightarrow> string \<Rightarrow> request \<Rightarrow> string \<Rightarrow> string \<Rightarrow> string \<Rightarrow> registry \<Rightarrow> meta_db \<Rightarrow>
      invites_page option page \<times> meta_db" where
  "admin_create_invite E t token rq email role hours g db =
     (case check_admin E rq of
        Inl p \<Rightarrow> (p, db)
      | Inr data \<Rightarrow>
          (let tenant = item_or data ''tenant_id'' ''default'' in
           if email = [] \<or> \<not> valid_email (strip email)
           then (Page 400 (Some (invites_view data (Some ''Invalid email address'') db g)), db)
           else (Redirect 303 ''/admin/invites'',
                 snd (create_invite t token (strip email) tenant tenant (if role = [] then ''member'' else role)
                        (invite_hours hours) db))))"

definition admin_revoke_invite ::
    "web_env \<Rightarrow> request \<Rightarrow> string \<Rightarrow> registry \<Rightarrow> meta_db \<Rightarrow> invites_page option page \<times> meta_db" where
  "admin_revoke_invite E rq token g db =
     (case check_admin E rq of
        Inl p \<Rightarrow> (p, db)
      | Inr data \<Rightarrow>
          (case revoke_invite token db of
             (Inl _, db') \<Rightarrow> (Page 404 (Some (invites_view data (Some ''Invite not found'') db' g)), db')
           | (Inr _, db') \<Rightarrow> (Redirect 303 ''/admin/invites'', db')))"

section \<open>Namespaces and usage\<close>

text \<open>\<open>wg_by_ns.setdefault(ns_id, []).append(wg)\<close>\<close>

fun add_to_group :: "string \<Rightarrow> workgroup \<Rightarrow> (string \<times> workgroup list) list \<Rightarrow> (string \<times> workgroup list) list" where
  "add_to_group k w [] = [(k, [w])]"
| "add_to_group k w ((j, ws) # d) = (if j = k then (j, ws @ [w]) # d else (j, ws) # add_to_group k w d)"

definition group_by_namespace :: "workgroup list \<Rightarrow> (string \<times> workgroup list) list" where
  "group_by_namespace ws = foldl (\<lambda>d w. add_to_group (wk_namespace_id w) w d) [] ws"

definition admin_namespaces ::
    "web_env \<Rightarrow> request \<Rightarrow> registry \<Rightarrow> (current_user \<times> namespace list \<times> (string \<times> workgroup list) list) option page" where
  "admin_namespaces E rq g =
     (case check_admin E rq of
        Inl p \<Rightarrow> p
      | Inr data \<Rightarrow> Page 200 (Some (admin_user data, rg_namespaces g, group_by_namespace (rg_workgroups g))))"

definition admin_usage ::
    "web_env \<Rightarrow> request \<Rightarrow> 'stats \<Rightarrow> registry \<Rightarrow> (current_user \<times> 'stats \<times> workgroup list) option page" where
  "admin_usage E rq stats g =
     (case check_admin E rq of
        Inl p \<Rightarrow> p
      | Inr data \<Rightarrow> Page 200 (Some (admin_user data, stats, rg_workgroups g)))"

section \<open>Quotas\<close>

record quota_page =
  qp_user :: current_user
  qp_workgroup :: workgroup
  qp_error :: "string option"
  qp_nav :: "workgroup list"

definition quota_view :: "(string \<times> string) list \<Rightarrow> workgroup \<Rightarrow> string option \<Rightarrow> registry \<Rightarrow> quota_page" where
  "quota_view data w error g =
     \<lparr>qp_user = admin_user data, qp_workgroup = w, qp_error = error, qp_nav = rg_workgroups g\<rparr>"

definition admin_quota_get :: "web_env \<Rightarrow> request \<Rightarrow> string \<Rightarrow> registry \<Rightarrow> quota_page option page" where
  "admin_quota_get E rq wid g =
     (case check_admin E rq of
        Inl p \<Rightarrow> p
      | Inr data \<Rightarrow>
          (case find_workgroup wid g of
             None \<Rightarrow> Page 404 None
           | Some w \<Rightarrow> Page 200 (Some (quota_view data w None g))))"

definition parse_limit :: "string \<Rightarrow> string + int option" where
  "parse_limit s =
     (if strip s = [] then Inr None
      else (case py_int (strip s) of
              None \<Rightarrow> Inl (''Invalid integer: '' @ py_repr (strip s))
            | Some n \<Rightarrow> Inr (Some n)))"

definition parse_quota :: "string \<Rightarrow> string \<Rightarrow> string \<Rightarrow> string + quota" where
  "parse_quota ms mqd mrm =
     (case parse_limit ms of
        Inl e \<Rightarrow> Inl e
      | Inr a \<Rightarrow>
          (case parse_limit mqd of
             Inl e \<Rightarrow> Inl e
           | Inr b \<Rightarrow>
               map_sum id (\<lambda>c. \<lparr>qt_max_sessions = a, qt_max_query_duration_ms = b, qt_max_result_mb = c\<rparr>)
                 (parse_limit mrm)))"

definition no_quota :: quota where
  "no_quota = \<lparr>qt_max_sessions = None, qt_max_query_duration_ms = None, qt_max_result_mb = None\<rparr>"

definition admin_quota_post ::
    "web_env \<Rightarrow> request \<Rightarrow> string \<Rightarrow> string \<Rightarrow> string \<Rightarrow> string \<Rightarrow> registry \<Rightarrow> quota_page option page \<times> registry" where
  "admin_quota_post E rq wid ms mqd mrm g =
     (case check_admin E rq of
        Inl p \<Rightarrow> (p, g)
      | Inr data \<Rightarrow>
          (case find_workgroup wid g of
             None \<Rightarrow> (Page 404 None, g)
           | Some w \<Rightarrow>
               (case parse_quota ms mqd mrm of
                  Inl e \<Rightarrow> (Page 400 (Some (quota_view data w (Some e) g)), g)
                | Inr q \<Rightarrow>
                    if \<not> quota_ok (Some q)
                    then (Page 400 (Some (quota_view data w (Some ''max_sessions must be a positive integer'') g)), g)
                    else (Redirect 303 ''/admin/namespaces'',
                          set_workgroup (w\<lparr>wk_quota := (if q = no_quota then None else Some q)\<rparr>) g))))"

section \<open>Who is an administrator\<close>

lemma check_admin_iff:
  "check_admin E rq = Inr data \<longleftrightarrow>
     truthy (rq_session_cookie rq) \<and> admin_verify_session E (the (rq_session_cookie rq)) = Some data \<and>
     data \<noteq> [] \<and> map_of data ''role'' = Some ''admin''"
  by (auto simp: check_admin_def split: option.splits)

lemma check_admin_signed:
  assumes "dotless (we_mac E)" "we_loads E (json_object data) = Some data" "map_of data ''role'' = Some ''admin''"
  shows "check_admin E (rq\<lparr>rq_session_cookie := Some (signed_cookie (we_mac E) (admin_secret (we_auth E)) data)\<rparr>) = Inr data"
  using verify_signed_cookie [where mac = "we_mac E" and loads = "we_loads E", OF assms(1,2)] assms(3)
  by (auto simp: check_admin_iff admin_verify_session_def truthy_def signed_cookie_def Let_def)

lemma created_invite_found:
  assumes "create_invite t token email tenant by role hours db = (Some row, db')"
  shows "get_invite token db' = Some row" "ir_token row = token" "ir_tenant_id row = tenant" "ir_role row = role"
    "ir_status row = ''pending''" "lower (ir_email row) = lower (lower email)"
    "ir_expires_at row = isoformat (t + hours * 3600000000)" "valid_instant (t + hours * 3600000000)"
    "row \<in> set (md_invites db')"
proof -
  have "token \<notin> ir_token ` set (md_invites db)"
    using assms by (auto simp: create_invite_def Let_def split: if_splits)
  note fresh = find_fresh_key [OF this]
  show "get_invite token db' = Some row" "ir_token row = token" "ir_tenant_id row = tenant" "ir_role row = role"
    "ir_status row = ''pending''" "lower (ir_email row) = lower (lower email)"
    "ir_expires_at row = isoformat (t + hours * 3600000000)" "valid_instant (t + hours * 3600000000)"
    "row \<in> set (md_invites db')"
    using assms fresh by (auto simp: create_invite_def get_invite_def find_append Let_def split: if_splits)
qed

lemma accept_pending:
  assumes "get_invite token db = Some row" "ir_status row = ''pending''" "lower (ir_email row) = lower email"
    "ir_expires_at row = isoformat e" "valid_instant e" "t \<le> e" "valid_email email"
    "create_access_token (ad_jwt D) env now jti (ir_tenant_id row) None (Some (ir_role row)) = Inr access"
  shows "\<exists>a db'. accept_invite_route D env now t jti token email db = (Inr a, db') \<and> ia_access_token a = access"
  using assms by (simp add: accept_invite_route_def accept_invite_def fromisoformat_isoformat mark_accepted_def)

section \<open>The secret everybody knows\<close>

text \<open>
  Property C32. If the secret of the session cookie is configured by a file, or not at all, anybody
  is an administrator: a cookie signed with the text in the source is accepted by the administration
  pages, for any tenant its sender writes into it. With it one creates an invitation for any role,
  reads its token on the page, and accepts it for an access token of that role and tenant.
\<close>

theorem known_secret_gives_admin:
  assumes "e_session_secret (we_auth E) = None" and "dotless (we_mac E)"
    and "data = [(''tenant_id'', tenant), (''role'', ''admin'')]"
    and "we_loads E (json_object data) = Some data"
    and "rq' = rq\<lparr>rq_session_cookie := Some (signed_cookie (we_mac E) ''change-me-default-secret'' data)\<rparr>"
    and "valid_email email" and "strip email = email" and "role \<noteq> []"
    and "token \<notin> ir_token ` set (md_invites db)"
    and "valid_instant (t + invite_hours hours * 3600000000)" and "t' \<le> t + invite_hours hours * 3600000000"
    and "create_access_token (ad_jwt D) env now jti tenant None (Some role) = Inr access"
  shows "\<exists>db'. admin_create_invite E t token rq' email role hours g db = (Redirect 303 ''/admin/invites'', db') \<and>
    (\<exists>p. admin_invites E rq' db' g = Page 200 (Some p) \<and> token \<in> ir_token ` set (ip_invites p)) \<and>
    (\<exists>a db''. accept_invite_route D env now t' jti token email db' = (Inr a, db'') \<and> ia_access_token a = access)"
proof -
  have admin: "check_admin E rq' = Inr data"
    using check_admin_signed [OF assms(2,4), of rq] assms(1,3,5) by (simp add: admin_secret_def get_or_def)
  have tenant: "item_or data ''tenant_id'' ''default'' = tenant" by (simp add: assms(3) item_or_def get_or_def)
  have "email \<noteq> []" using assms(6) by (auto simp: valid_email_def email_pattern_def rx_match_start_def)
  obtain row db' where c: "create_invite t token email tenant tenant role (invite_hours hours) db = (Some row, db')"
    using assms(9,10) by (simp add: create_invite_def Let_def)
  note row = created_invite_found [OF c]
  have "admin_create_invite E t token rq' email role hours g db = (Redirect 303 ''/admin/invites'', db')"
    using assms(6-8) \<open>email \<noteq> []\<close> c by (simp add: admin_create_invite_def admin tenant Let_def)
  moreover have "\<exists>p. admin_invites E rq' db' g = Page 200 (Some p) \<and> token \<in> ir_token ` set (ip_invites p)"
    using row(2,3,9) by (force simp: admin_invites_def admin invites_view_def tenant list_invites_def)
  moreover have "\<exists>a db''. accept_invite_route D env now t' jti token email db' = (Inr a, db'') \<and> ia_access_token a = access"
    by (rule accept_pending [OF row(1,5) _ row(7,8) assms(11,6)])
      (use row(3,4,6) assms(12) in simp_all)
  ultimately show ?thesis by blast
qed

section \<open>Quotas and groups\<close>

lemma admin_quota_post_cases:
  assumes "admin_quota_post E rq wid ms mqd mrm g = (p, g')"
  shows "g' = g \<or> (\<exists>data w q. check_admin E rq = (Inr data :: quota_page option page + _) \<and> find_workgroup wid g = Some w \<and>
    parse_quota ms mqd mrm = Inr q \<and> quota_ok (Some q) \<and>
    g' = set_workgroup (w\<lparr>wk_quota := (if q = no_quota then None else Some q)\<rparr>) g)"
  using assms
  by (cases "check_admin E rq :: quota_page option page + _"; cases "find_workgroup wid g"; cases "parse_quota ms mqd mrm")
    (simp_all add: admin_quota_post_def split: if_splits)

text \<open>Setting a quota through the pages keeps the registry's invariant.\<close>

lemma admin_quota_post_inv:
  assumes "registry_inv g" "admin_quota_post E rq wid ms mqd mrm g = (p, g')"
  shows "registry_inv g'"
  using admin_quota_post_cases [OF assms(2)]
proof (elim disjE exE conjE)
  fix data w q
  assume w: "find_workgroup wid g = Some w" and q: "quota_ok (Some q)"
    and g': "g' = set_workgroup (w\<lparr>wk_quota := (if q = no_quota then None else Some q)\<rparr>) g"
  have "w \<in> set (rg_workgroups g)" using find_workgroupD [OF w] by blast
  from registry_rowI [OF assms(1) this] q show ?thesis
    unfolding g' by (intro set_workgroup_inv [OF assms(1)]) (auto simp: quota_ok_def)
qed (use assms(1) in simp)

lemma map_of_add_to_group:
  "map_of (add_to_group k w d) j = (if j = k then Some (get_or (map_of d k) [] @ [w]) else map_of d j)"
  by (induction d rule: add_to_group.induct [where ?a0.0 = k and ?a1.0 = w]) (auto simp: get_or_def)

text \<open>The page of the namespaces shows every workgroup, under its namespace, in the order of the registry.\<close>

lemma group_by_namespace_filter:
  "get_or (map_of (group_by_namespace ws) k) [] = filter (\<lambda>w. wk_namespace_id w = k) ws"
  by (induction ws rule: rev_induct) (auto simp: group_by_namespace_def map_of_add_to_group get_or_def)

section \<open>A forged cookie\<close>

definition forged_data :: "(string \<times> string) list" where
  "forged_data = [(''tenant_id'', ''victim''), (''role'', ''admin'')]"

definition file_web :: web_env where
  "file_web =
     sample_web\<lparr>we_auth := (sample_env [] ''k1'')\<lparr>e_session_secret_file := ''/run/secrets/session''\<rparr>,
                we_loads := (\<lambda>t. if t = json_object forged_data then Some forged_data else None)\<rparr>"

theorem known_secret_gives_admin_witness:
  "\<exists>db' a db''. admin_create_invite file_web sample_time ''tok''
      (with_cookie (signed_cookie dotless_mac ''change-me-default-secret'' forged_data))
      ''a@b.c'' ''admin'' ''168'' empty_registry empty_meta = (Redirect 303 ''/admin/invites'', db') \<and>
    accept_invite_route (sample_deps sample_access) (sample_env [] ''k1'') 0 sample_time ''j1'' ''tok'' ''a@b.c'' db' = (Inr a, db'') \<and>
    ia_access_token a = ''k1.j1''"
proof -
  have h: "valid_email ''a@b.c''" "strip ''a@b.c'' = ''a@b.c''" "invite_hours ''168'' = 168"
    "valid_instant (sample_time + 168 * 3600000000)" "md_invites empty_meta = []"
    "create_access_token (ad_jwt (sample_deps sample_access)) (sample_env [] ''k1'') 0 ''j1'' ''victim'' None (Some ''admin'') = Inr ''k1.j1''"
    by code_simp+
  have e: "e_session_secret (we_auth file_web) = None" "dotless (we_mac file_web)" "we_mac file_web = dotless_mac"
    "we_loads file_web (json_object forged_data) = Some forged_data"
    by (simp_all add: file_web_def sample_web_def sample_env_def dotless_mac)
  have c: "with_cookie (signed_cookie dotless_mac ''change-me-default-secret'' forged_data) =
      plain_request\<lparr>rq_session_cookie := Some (signed_cookie (we_mac file_web) ''change-me-default-secret'' forged_data)\<rparr>"
    by (simp add: with_cookie_def e(3))
  from known_secret_gives_admin [OF e(1,2) forged_data_def e(4) c h(1,2), where role = "''admin''" and token = "''tok''" and db = empty_meta
      and t = sample_time and t' = sample_time and hours = "''168''" and g = empty_registry,
      OF _ _ _ _ h(6)] h(3-5)
  show ?thesis by fastforce
qed

end
