(* ===== verification/HtmxPartials.thy ===== *)
theory HtmxPartials
  imports Website Executor
begin

text \<open>
  \<open>api/htmx_partials.py\<close>: the fragments the pages load. Every handler calls \<open>require_auth\<close> first;
  \<open>auth\<close> is what that answers or raises. A fragment is the value its template is given.
\<close>

section \<open>Fragments\<close>

definition fetch_execution :: "string \<Rightarrow> execution list \<Rightarrow> execution option" where
  "fetch_execution eid xs =
     map_option (\<lambda>r. r\<lparr>ex_columns := Some (get_or (ex_columns r) []), ex_rows := Some (get_or (ex_rows r) [])\<rparr>)
       (fetch_row eid xs)"

definition sessions_table :: "claims http \<Rightarrow> 'c manager \<Rightarrow> session_info list http" where
  "sessions_table auth m = map_sum id (\<lambda>_. list_sessions None None m) auth"

definition terminate_session :: "claims http \<Rightarrow> string \<Rightarrow> 'c app_sys \<Rightarrow> unit http \<times> 'c app_sys" where
  "terminate_session auth sid s =
     (case auth of
        Inl e \<Rightarrow> (Inl e, s)
      | Inr _ \<Rightarrow>
          (case destroy_session sid (ap_manager s) of
             (Inl _, m) \<Rightarrow> (Inl (HTTPException 404 ''Session not found''), s)
           | (Inr _, m) \<Rightarrow> (Inr (), s\<lparr>ap_manager := m\<rparr>)))"

definition no_workgroup :: http_exc where
  "no_workgroup = HTTPException 404 ''Workgroup not found''"

definition find_named :: "string \<Rightarrow> registry \<Rightarrow> workgroup option" where
  "find_named name g = find (\<lambda>w. wk_name w = name) (rg_workgroups g)"

definition workgroup_sessions :: "claims http \<Rightarrow> string \<Rightarrow> 'c app_sys \<Rightarrow> session_info list http" where
  "workgroup_sessions auth name s =
     (case auth of
        Inl e \<Rightarrow> Inl e
      | Inr _ \<Rightarrow> if find_named name (ap_registry s) = None then Inl no_workgroup
                 else Inr (sessions_in name (ap_manager s)))"

definition pondapi_detail :: "claims http \<Rightarrow> string \<Rightarrow> execution list option \<Rightarrow> execution http" where
  "pondapi_detail auth eid db =
     (case auth of
        Inl e \<Rightarrow> Inl e
      | Inr c \<Rightarrow>
          (case db of
             None \<Rightarrow> Inl (HTTPException 503 ''PondAPI not available'')
           | Some xs \<Rightarrow>
               (case fetch_execution eid xs of
                  None \<Rightarrow> Inl (HTTPException 404 ''Execution not found'')
                | Some r \<Rightarrow>
                    if ex_tenant r \<noteq> get_or (c_tenant_id c) ''default''
                    then Inl (HTTPException 404 ''Execution not found'') else Inr r)))"

section \<open>The tabs of a workgroup\<close>

definition workgroup_overview :: "claims http \<Rightarrow> string \<Rightarrow> 'c app_sys \<Rightarrow> workgroup http \<times> 'c app_sys" where
  "workgroup_overview auth name s =
     (case auth of
        Inl e \<Rightarrow> (Inl e, s)
      | Inr _ \<Rightarrow>
          (case find_named name (ap_registry s) of
             None \<Rightarrow> (Inl no_workgroup, s)
           | Some w \<Rightarrow>
               (let w' = recount (ap_manager s) w
                in (Inr w', s\<lparr>ap_registry := set_workgroup w' (ap_registry s)\<rparr>))))"

definition workgroup_history ::
    "claims http \<Rightarrow> string \<Rightarrow> meta_db \<Rightarrow> registry \<Rightarrow> (history_row list \<times> workgroup) http" where
  "workgroup_history auth name store g =
     (case auth of
        Inl e \<Rightarrow> Inl e
      | Inr c \<Rightarrow>
          (case find_named name g of
             None \<Rightarrow> Inl no_workgroup
           | Some w \<Rightarrow>
               Inr (get_query_history None (Some (get_or (c_tenant_id c) ''default'')) None None None 25 0 store, w)))"

definition workgroup_apikeys :: "claims http \<Rightarrow> string \<Rightarrow> registry \<Rightarrow> workgroup http" where
  "workgroup_apikeys auth name g =
     (case auth of
        Inl e \<Rightarrow> Inl e
      | Inr _ \<Rightarrow> (case find_named name g of None \<Rightarrow> Inl no_workgroup | Some w \<Rightarrow> Inr w))"

section \<open>Suspending and resuming\<close>

text \<open>What the handlers make of an exception of the session manager: only two kinds are caught.\<close>

definition session_failure :: "string \<Rightarrow> session_error \<Rightarrow> http_exc" where
  "session_failure conflict e =
     (case e of
        KeyError _ \<Rightarrow> HTTPException 404 ''Session not found''
      | ValueError _ \<Rightarrow> HTTPException 409 conflict
      | _ \<Rightarrow> server_error)"

definition session_row_of :: "string \<Rightarrow> 'c manager \<Rightarrow> session_info http" where
  "session_row_of sid m = map_sum (\<lambda>_. server_error) id (get_session sid m)"

definition suspend_session_route :: "claims http \<Rightarrow> instant \<Rightarrow> string \<Rightarrow> 'c app_sys \<Rightarrow> session_info http \<times> 'c app_sys" where
  "suspend_session_route auth t sid s =
     (case auth of
        Inl e \<Rightarrow> (Inl e, s)
      | Inr _ \<Rightarrow>
          (case suspend_session t sid (ap_manager s) of
             (Inl e, m) \<Rightarrow> (Inl (session_failure ''Session already suspended'' e), s\<lparr>ap_manager := m\<rparr>)
           | (Inr _, m) \<Rightarrow> (session_row_of sid m, s\<lparr>ap_manager := m\<rparr>)))"

definition resume_session_route ::
    "'c duck \<Rightarrow> session_cfg \<Rightarrow> claims http \<Rightarrow> instant \<Rightarrow> string \<Rightarrow> 'c app_sys \<Rightarrow> session_info http \<times> 'c app_sys" where
  "resume_session_route D cfg auth t sid s =
     (case auth of
        Inl e \<Rightarrow> (Inl e, s)
      | Inr _ \<Rightarrow>
          (case resume_session D cfg t sid (ap_manager s) of
             (Inl e, m) \<Rightarrow> (Inl (session_failure ''Session already active'' e), s\<lparr>ap_manager := m\<rparr>)
           | (Inr _, m) \<Rightarrow> (session_row_of sid m, s\<lparr>ap_manager := m\<rparr>)))"

section \<open>Sessions of other workgroups\<close>

text \<open>
  The fragments check nothing but that the caller is somebody: whatever the claims, an
  active session is suspended, a suspended one resumed (if a connection can be opened) and any
  session is terminated, as the session manager does it. A terminated session keeps its slot in
  the quota of its workgroup, and deleting it afterwards through the API, which would give the slot
  back, is answered with 404.
\<close>

theorem fragments_ignore_workgroups:
  assumes "find_sess sid (ap_manager s) = Some ss" and "create_hardened_connection D cfg = Inr c"
  shows "(s_status ss \<noteq> SUSPENDED \<longrightarrow>
      (\<exists>i s'. suspend_session_route (Inr claims) t sid s = (Inr i, s') \<and> si_status i = status_text SUSPENDED \<and>
         find_sess sid (ap_manager s') = Some (ss\<lparr>s_conn := None, s_status := SUSPENDED, s_suspended_at := Some t\<rparr>))) \<and>
    (s_status ss \<noteq> ACTIVE \<longrightarrow>
      (\<exists>i s'. resume_session_route D cfg (Inr claims) t sid s = (Inr i, s') \<and> si_status i = status_text ACTIVE \<and>
         find_sess sid (ap_manager s') =
           Some (ss\<lparr>s_conn := Some c, s_status := ACTIVE, s_suspended_at := None, s_last_active := t\<rparr>))) \<and>
    (\<exists>s'. terminate_session (Inr claims) sid s = (Inr (), s') \<and> find_sess sid (ap_manager s') = None \<and>
       ap_registry s' = ap_registry s \<and>
       (\<exists>d. delete_session_route sid s' = (Inl (HTTPException 404 d), s')))"
proof -
  have id: "s_id ss = sid" using find_sess_SomeD [OF assms(1)] by blast
  have "\<exists>i s'. suspend_session_route (Inr claims) t sid s = (Inr i, s') \<and> si_status i = status_text SUSPENDED \<and>
         find_sess sid (ap_manager s') = Some (ss\<lparr>s_conn := None, s_status := SUSPENDED, s_suspended_at := Some t\<rparr>)"
    if "s_status ss \<noteq> SUSPENDED"
    using that id by (simp add: suspend_session_route_def suspend_session_def assms(1) Let_def session_row_of_def
        get_session_def find_sess_set find_sess_save session_info_of_def)
  moreover have "\<exists>i s'. resume_session_route D cfg (Inr claims) t sid s = (Inr i, s') \<and> si_status i = status_text ACTIVE \<and>
         find_sess sid (ap_manager s') =
           Some (ss\<lparr>s_conn := Some c, s_status := ACTIVE, s_suspended_at := None, s_last_active := t\<rparr>)"
    if "s_status ss \<noteq> ACTIVE"
    using that id by (simp add: resume_session_route_def resume_session_def assms Let_def session_row_of_def
        get_session_def find_sess_set find_sess_save session_info_of_def)
  moreover have "\<exists>s'. terminate_session (Inr claims) sid s = (Inr (), s') \<and> find_sess sid (ap_manager s') = None \<and>
       ap_registry s' = ap_registry s \<and> (\<exists>d. delete_session_route sid s' = (Inl (HTTPException 404 d), s'))"
    using assms(1) find_sess_destroy [of sid "ap_manager s"]
    by (auto simp: terminate_session_def destroy_session_def delete_session_route_def split: prod.splits)
  ultimately show ?thesis by blast
qed

text \<open>A caller without any workgroup suspends and terminates the session of workgroup \<open>w\<close>; its slot stays taken.\<close>

theorem fragments_ignore_workgroups_witness:
  "\<exists>i s1 s2. suspend_session_route (Inr no_claims) sample_time ''s'' busy_app = (Inr i, s1) \<and> si_status i = ''SUSPENDED'' \<and>
     terminate_session (Inr no_claims) ''s'' busy_app = (Inr (), s2) \<and> find_sess ''s'' (ap_manager s2) = None \<and>
     map wk_active (rg_workgroups (ap_registry s2)) = [1]"
proof -
  have h: "map_option s_status (find_sess ''s'' (ap_manager busy_app)) = Some ACTIVE"
    "map wk_active (rg_workgroups (ap_registry busy_app)) = [1]" "is_ok (create_hardened_connection sample_duck sample_cfg)"
    by code_simp+
  obtain ss where ss: "find_sess ''s'' (ap_manager busy_app) = Some ss" "s_status ss = ACTIVE" using h(1) by blast
  obtain c where c: "create_hardened_connection sample_duck sample_cfg = Inr c" using h(3) by (rule is_okE)
  from fragments_ignore_workgroups [OF ss(1) c, of no_claims sample_time] ss(2) h(2)
  show ?thesis by auto
qed

end
