(* ===== verification/Datasets.thy ===== *)
theory Datasets
  imports Website
begin

text \<open>
  \<open>store/dataset_manager.py\<close> and \<open>api/dataset_routes.py\<close>: uploaded files, their names as tables, and
  the endpoints. The file system maps paths to contents; reading a file with DuckDB is a parameter.
  \<open>register_in_session\<close> is in the theory of the sessions.
\<close>

section \<open>File names\<close>

text \<open>\<open>Path(f).name\<close>, \<open>.suffix\<close> and \<open>.stem\<close> on POSIX\<close>

definition path_name :: "string \<Rightarrow> string" where
  "path_name f =
     (case rev (filter (\<lambda>p. p \<noteq> [] \<and> p \<noteq> ''.'') (split_on CHR ''/'' f)) of [] \<Rightarrow> [] | p # _ \<Rightarrow> p)"

definition stem_suffix :: "string \<Rightarrow> string \<times> string" where
  "stem_suffix f =
     (case rsplit_dot (path_name f) of
        None \<Rightarrow> (path_name f, [])
      | Some (a, b) \<Rightarrow> if a \<noteq> [] \<and> b \<noteq> [] then (a, CHR ''.'' # b) else (path_name f, []))"

definition name_char :: "char \<Rightarrow> bool" where
  "name_char c = (is_lower_az c \<or> is_digit_c c \<or> c = CHR ''_'')"

text \<open>\<open>re.sub('_+', '_', s)\<close>\<close>

fun single_underscores :: "string \<Rightarrow> string" where
  "single_underscores (a # b # s) =
     (if a = CHR ''_'' \<and> b = CHR ''_'' then single_underscores (b # s) else a # single_underscores (b # s))"
| "single_underscores s = s"

definition normalize_name :: "string \<Rightarrow> string" where
  "normalize_name f =
     strip_with (\<lambda>c. c = CHR ''_'')
       (single_underscores (map (\<lambda>c. if name_char c then c else CHR ''_'') (lower (fst (stem_suffix f)))))"

definition join_path :: "string \<Rightarrow> string \<Rightarrow> string" where
  "join_path dir f = (if dir = [] then f else if last dir = CHR ''/'' then dir @ f else dir @ ''/'' @ f)"

section \<open>The manager\<close>

type_synonym files = "string \<Rightarrow> string option"

record dataset_manager =
  dm_root :: string
  dm_datasets :: "dataset_info list"
  dm_files :: files

text \<open>
  \<open>dr_writable\<close>: whether a path can be created. \<open>dr_read\<close> executes a statement on the files: \<open>None\<close>
  when that raises, else the columns and, unless fetching raises, the number of rows.
\<close>

record dataset_env =
  dr_writable :: "string \<Rightarrow> bool"
  dr_read :: "string \<Rightarrow> files \<Rightarrow> (string list \<times> nat option) option"

datatype upload_error = UploadValueError string | UploadExists string | UploadOSError

definition has_dataset :: "string \<Rightarrow> dataset_manager \<Rightarrow> bool" where
  "has_dataset name m = (name \<in> di_name ` set (dm_datasets m))"

definition introspect :: "dataset_env \<Rightarrow> string \<Rightarrow> string \<Rightarrow> files \<Rightarrow> string list \<times> nat" where
  "introspect E fmt path fs =
     (case dr_read E (''SELECT * FROM '' @ (if fmt = ''csv'' then ''read_csv_auto('' else ''read_parquet('')
             @ [CHR 0x27] @ path @ [CHR 0x27] @ '')'') fs of
        None \<Rightarrow> ([], 0)
      | Some (columns, n) \<Rightarrow> (columns, get_or n 0))"

definition upload ::
    "dataset_env \<Rightarrow> instant \<Rightarrow> string \<Rightarrow> string \<Rightarrow> dataset_manager \<Rightarrow>
      (upload_error + dataset_info) \<times> dataset_manager" where
  "upload E t content filename m =
     (let ext = lower (snd (stem_suffix filename)); name = normalize_name filename;
          path = join_path (dm_root m) (name @ ext); fmt = (if ext = ''.csv'' then ''csv'' else ''parquet'') in
      if ext \<notin> {''.csv'', ''.parquet''}
      then (Inl (UploadValueError (''Unsupported file type: '' @ py_repr ext @ ''. Only csv and parquet are supported.'')), m)
      else if content = [] then (Inl (UploadValueError ''File is empty''), m)
      else if has_dataset name m then (Inl (UploadExists (''Dataset already exists: '' @ py_repr name)), m)
      else if \<not> dr_writable E path then (Inl UploadOSError, m)
      else
        (let fs = (dm_files m)(path \<mapsto> content); (columns, n) = introspect E fmt path fs;
             info = \<lparr>di_name = name, di_file_path = path, di_format = fmt, di_size_bytes = int (length content),
                     di_row_count = int n, di_columns = columns, di_created_at = isoformat t\<rparr>
         in (Inr info, m\<lparr>dm_datasets := dm_datasets m @ [info], dm_files := fs\<rparr>)))"

definition list_datasets :: "dataset_manager \<Rightarrow> dataset_info list" where
  "list_datasets m = dm_datasets m"

definition get_dataset :: "string \<Rightarrow> dataset_manager \<Rightarrow> dataset_info option" where
  "get_dataset name m = find (\<lambda>d. di_name d = name) (dm_datasets m)"

definition delete_dataset :: "string \<Rightarrow> dataset_manager \<Rightarrow> bool \<times> dataset_manager" where
  "delete_dataset name m =
     (case get_dataset name m of
        None \<Rightarrow> (False, m)
      | Some d \<Rightarrow>
          (True, m\<lparr>dm_datasets := delete_where (\<lambda>d. di_name d = name) (dm_datasets m),
                  dm_files := (dm_files m)(di_file_path d := None)\<rparr>))"

section \<open>The endpoints\<close>

text \<open>\<open>auth\<close> is what \<open>require_auth\<close> answers or raises.\<close>

record dataset_view =
  dv_name :: string
  dv_format :: string
  dv_size_bytes :: int
  dv_row_count :: int
  dv_columns :: "string list"
  dv_created_at :: string

definition info_to_dict :: "dataset_info \<Rightarrow> dataset_view" where
  "info_to_dict d =
     \<lparr>dv_name = di_name d, dv_format = di_format d, dv_size_bytes = di_size_bytes d, dv_row_count = di_row_count d,
      dv_columns = di_columns d, dv_created_at = di_created_at d\<rparr>"

definition upload_failure :: "upload_error \<Rightarrow> http_exc" where
  "upload_failure e =
     (case e of
        UploadValueError s \<Rightarrow> HTTPException 400 s
      | UploadExists s \<Rightarrow> HTTPException 409 s
      | UploadOSError \<Rightarrow> server_error)"

definition upload_dataset ::
    "claims http \<Rightarrow> dataset_env \<Rightarrow> instant \<Rightarrow> string \<Rightarrow> string option \<Rightarrow> dataset_manager \<Rightarrow>
      dataset_view http \<times> dataset_manager" where
  "upload_dataset auth E t content filename m =
     (case auth of
        Inl e \<Rightarrow> (Inl e, m)
      | Inr _ \<Rightarrow>
          (case upload E t content (get_or filename []) m of
             (r, m') \<Rightarrow> (map_sum upload_failure info_to_dict r, m')))"

datatype dataset_list = DatasetJson "dataset_view list" | DatasetHtml "(dataset_view list \<times> current_user) page"

definition list_datasets_route ::
    "claims http \<Rightarrow> web_env \<Rightarrow> string option \<Rightarrow> request \<Rightarrow> dataset_manager \<Rightarrow> dataset_list http" where
  "list_datasets_route auth E accept rq m =
     (case auth of
        Inl e \<Rightarrow> Inl e
      | Inr _ \<Rightarrow>
          (let ds = map info_to_dict (list_datasets m) in
           Inr (if contains_sub ''text/html'' (get_or accept [])
                then DatasetHtml (case signed_in E rq of
                       None \<Rightarrow> Redirect 302 ''/login'' | Some data \<Rightarrow> Page 200 (ds, build_current_user data))
                else DatasetJson ds)))"

definition dataset_missing :: "string \<Rightarrow> http_exc" where
  "dataset_missing name = HTTPException 404 (''Dataset not found: '' @ py_repr name)"

definition get_dataset_route :: "claims http \<Rightarrow> string \<Rightarrow> dataset_manager \<Rightarrow> dataset_view http" where
  "get_dataset_route auth name m =
     (case auth of
        Inl e \<Rightarrow> Inl e
      | Inr _ \<Rightarrow>
          (case get_dataset name m of None \<Rightarrow> Inl (dataset_missing name) | Some d \<Rightarrow> Inr (info_to_dict d)))"

definition delete_dataset_route ::
    "claims http \<Rightarrow> string \<Rightarrow> dataset_manager \<Rightarrow> (string \<times> string) http \<times> dataset_manager" where
  "delete_dataset_route auth name m =
     (case auth of
        Inl e \<Rightarrow> (Inl e, m)
      | Inr _ \<Rightarrow>
          (case delete_dataset name m of
             (True, m') \<Rightarrow> (Inr (''Dataset '' @ py_repr name @ '' deleted'', name), m')
           | (False, m') \<Rightarrow> (Inl (dataset_missing name), m')))"

section \<open>Names are plain\<close>

text \<open>Lower-case letters, digits and single inner underscores; possibly nothing at all.\<close>

definition plain_name :: "string \<Rightarrow> bool" where
  "plain_name s =
     ((\<forall>c \<in> set s. name_char c) \<and> no_double CHR ''_'' s \<and> (s \<noteq> [] \<longrightarrow> hd s \<noteq> CHR ''_'' \<and> last s \<noteq> CHR ''_''))"

lemma set_single_underscores: "set (single_underscores s) \<subseteq> set s"
  by (induction s rule: single_underscores.induct) auto

lemma single_underscores_head: "single_underscores (a # s) = a # tl (single_underscores (a # s))"
  by (induction "a # s" arbitrary: s rule: single_underscores.induct) auto

lemma no_double_underscores: "no_double CHR ''_'' (single_underscores s)"
proof (induction s rule: single_underscores.induct)
  case (1 a b s)
  show ?case
  proof (cases "a = CHR ''_'' \<and> b = CHR ''_''")
    case False
    then show ?thesis using 1(2) single_underscores_head [of b s] by (cases "tl (single_underscores (b # s))") auto
  qed (use 1(1) in simp)
qed simp_all

lemma plain_normalize: "plain_name (normalize_name f)"
proof -
  let ?p = "\<lambda>c. c = CHR ''_''"
  define u where "u = single_underscores (map (\<lambda>c. if name_char c then c else CHR ''_'') (lower (fst (stem_suffix f))))"
  have n: "normalize_name f = strip_with ?p u" by (simp add: normalize_name_def u_def)
  have u: "name_char c" if "c \<in> set u" for c
    using that set_single_underscores unfolding u_def by (fastforce simp: name_char_def)
  have "no_double CHR ''_'' u" unfolding u_def by (rule no_double_underscores)
  then have "no_double CHR ''_'' (normalize_name f)" unfolding n by (rule no_double_strip)
  moreover have "\<forall>c \<in> set (normalize_name f). name_char c" unfolding n using set_strip_with u by blast
  ultimately show ?thesis
    using strip_with_ends [of ?p u] unfolding plain_name_def n by blast
qed

section \<open>The registry of datasets\<close>

text \<open>The manager of one process: the files may be left from earlier ones, the registry starts empty.\<close>

inductive dataset_reachable :: "dataset_env \<Rightarrow> string \<Rightarrow> dataset_manager \<Rightarrow> bool" for E dir where
  start: "dataset_reachable E dir \<lparr>dm_root = dir, dm_datasets = [], dm_files = fs\<rparr>"
| uploaded: "dataset_reachable E dir m \<Longrightarrow> dataset_reachable E dir (snd (upload_dataset auth E t content filename m))"
| deleted: "dataset_reachable E dir m \<Longrightarrow> dataset_reachable E dir (snd (delete_dataset_route auth name m))"

definition dataset_ok :: "string \<Rightarrow> files \<Rightarrow> dataset_info \<Rightarrow> bool" where
  "dataset_ok dir fs d =
     (plain_name (di_name d) \<and>
      (di_format d = ''csv'' \<or> di_format d = ''parquet'') \<and>
      di_file_path d = join_path dir (di_name d @ CHR ''.'' # di_format d) \<and>
      (\<exists>content. fs (di_file_path d) = Some content \<and> content \<noteq> [] \<and> di_size_bytes d = int (length content)))"

definition datasets_inv :: "string \<Rightarrow> dataset_manager \<Rightarrow> bool" where
  "datasets_inv dir m =
     (dm_root m = dir \<and> distinct (map di_name (dm_datasets m)) \<and>
      (\<forall>d \<in> set (dm_datasets m). dataset_ok dir (dm_files m) d))"

lemma plain_no_dot: "plain_name s \<Longrightarrow> CHR ''.'' \<notin> set s"
proof -
  have "\<not> name_char (CHR ''.'')" by code_simp
  then show "plain_name s \<Longrightarrow> CHR ''.'' \<notin> set s" unfolding plain_name_def by blast
qed

lemma join_path_inject [simp]: "join_path dir a = join_path dir b \<longleftrightarrow> a = b"
  by (simp add: join_path_def)

lemma dotted_inject: "CHR ''.'' \<notin> set a \<Longrightarrow> CHR ''.'' \<notin> set b \<Longrightarrow> a @ CHR ''.'' # x = b @ CHR ''.'' # y \<Longrightarrow> a = b"
proof -
  assume n: "CHR ''.'' \<notin> set a" "CHR ''.'' \<notin> set b" "a @ CHR ''.'' # x = b @ CHR ''.'' # y"
  have "takeWhile (\<lambda>c. c \<noteq> CHR ''.'') (s @ CHR ''.'' # t) = s" if "CHR ''.'' \<notin> set s" for s t
    using that by (subst takeWhile_append2) auto
  then show "a = b" using n by metis
qed

text \<open>Different datasets have different files.\<close>

lemma dataset_paths:
  assumes "dataset_ok dir fs d" "dataset_ok dir fs' d'" "di_file_path d = di_file_path d'"
  shows "di_name d = di_name d'"
  using assms plain_no_dot dotted_inject unfolding dataset_ok_def by (metis join_path_inject)

lemma dataset_ok_other:
  assumes "dataset_ok dir fs d" "p \<noteq> di_file_path d"
  shows "dataset_ok dir (fs(p := x)) d"
proof -
  have "(fs(p := x)) (di_file_path d) = fs (di_file_path d)" using assms(2) by simp
  note same = this
  show ?thesis using assms(1) unfolding dataset_ok_def same .
qed

lemma upload_cases:
  assumes "upload E t content filename m = (r, m')"
  obtains "m' = m" "\<not> is_ok r"
  | info where "r = Inr info" "di_name info = normalize_name filename" "di_name info \<notin> di_name ` set (dm_datasets m)"
      "m' = m\<lparr>dm_datasets := dm_datasets m @ [info], dm_files := (dm_files m)(di_file_path info \<mapsto> content)\<rparr>"
      "dataset_ok (dm_root m) (dm_files m') info"
proof (cases r)
  case (Inl e)
  then have "m' = m" using assms by (auto simp: upload_def Let_def split: if_splits prod.splits)
  then show thesis using that(1) Inl by simp
next
  case (Inr info)
  let ?ext = "lower (snd (stem_suffix filename))"
  have r: "?ext \<in> {''.csv'', ''.parquet''}" "content \<noteq> []" "di_name info = normalize_name filename"
    "di_name info \<notin> di_name ` set (dm_datasets m)"
    "m' = m\<lparr>dm_datasets := dm_datasets m @ [info], dm_files := (dm_files m)(di_file_path info \<mapsto> content)\<rparr>"
    "di_file_path info = join_path (dm_root m) (normalize_name filename @ ?ext)"
    "di_format info = (if ?ext = ''.csv'' then ''csv'' else ''parquet'')" "di_size_bytes info = int (length content)"
    using assms Inr by (auto simp: upload_def has_dataset_def Let_def split: if_splits prod.splits)
  have "dataset_ok (dm_root m) (dm_files m') info"
    using r(1,2,6,7,8) plain_normalize [of filename] by (auto simp: dataset_ok_def r(3,5))
  then show thesis using that(2) Inr r by blast
qed

lemma upload_inv:
  assumes "datasets_inv dir m" "upload E t content filename m = (r, m')"
  shows "datasets_inv dir m'"
  using assms(2)
proof (cases rule: upload_cases)
  case (2 info)
  then have ok: "dataset_ok dir (dm_files m') info" using assms(1) by (simp add: datasets_inv_def)
  have "dataset_ok dir (dm_files m') d" if d: "d \<in> set (dm_datasets m)" for d
  proof -
    have old: "dataset_ok dir (dm_files m) d" using assms(1) d by (simp add: datasets_inv_def)
    have "di_file_path info \<noteq> di_file_path d" using dataset_paths [OF ok old] 2(3) d by blast
    then show ?thesis using dataset_ok_other [OF old] by (simp add: 2(4))
  qed
  then show ?thesis using assms(1) 2(3) ok by (auto simp: datasets_inv_def 2(4))
qed (use assms(1) in simp)

lemma delete_dataset_inv:
  assumes "datasets_inv dir m" "delete_dataset name m = (b, m')"
  shows "datasets_inv dir m'"
proof (cases "get_dataset name m")
  case (Some d)
  then have d: "d \<in> set (dm_datasets m)" "di_name d = name" by (auto simp: get_dataset_def dest: find_SomeD)
  have m': "m' = m\<lparr>dm_datasets := delete_where (\<lambda>d. di_name d = name) (dm_datasets m),
                  dm_files := (dm_files m)(di_file_path d := None)\<rparr>"
    using assms(2) Some by (simp add: delete_dataset_def)
  have "dataset_ok dir (dm_files m') x" if x: "x \<in> set (dm_datasets m)" "di_name x \<noteq> name" for x
  proof -
    have ok: "dataset_ok dir (dm_files m) x" "dataset_ok dir (dm_files m) d"
      using assms(1) x(1) d(1) by (simp_all add: datasets_inv_def)
    have "di_file_path d \<noteq> di_file_path x" using dataset_paths [OF ok(2,1)] d(2) x(2) by auto
    then show ?thesis using dataset_ok_other [OF ok(1)] by (simp add: m')
  qed
  then show ?thesis using assms(1) by (auto simp: datasets_inv_def m' delete_where_def distinct_map_filter)
qed (use assms in \<open>simp add: delete_dataset_def\<close>)

lemma dataset_reachable_inv: "dataset_reachable E dir m \<Longrightarrow> datasets_inv dir m"
proof (induction rule: dataset_reachable.induct)
  case (uploaded m auth t content filename)
  then show ?case using upload_inv by (auto simp: upload_dataset_def split: sum.splits prod.splits)
next
  case (deleted m auth name)
  then show ?case using delete_dataset_inv by (auto simp: delete_dataset_route_def split: sum.splits prod.splits bool.splits)
qed (simp add: datasets_inv_def)


text \<open>An upload whose name is only punctuation becomes the dataset with the empty name.\<close>

definition sample_data_env :: dataset_env where
  "sample_data_env = \<lparr>dr_writable = (\<lambda>_. True), dr_read = (\<lambda>_ _. Some ([''x''], Some 1))\<rparr>"


end
