(* ===== verification/QueryRoutes.thy ===== *)
theory QueryRoutes
  imports ShareLinks
begin

text \<open>
  \<open>api/query_routes.py\<close>: the endpoints of the saved queries. \<open>auth\<close> is what \<open>require_auth\<close> answers
  or raises.
\<close>

record save_query_request =
  sq_title :: string
  sq_description :: string
  sq_sql :: string
  sq_created_by :: "string option"
  sq_visibility :: string

definition save_query_request_ok :: "save_query_request \<Rightarrow> bool" where
  "save_query_request_ok b = (sq_visibility b \<in> {''public'', ''private''})"

definition unprocessable_entity :: http_exc where
  "unprocessable_entity = HTTPException 422 ''Unprocessable Entity''"

definition caller_tenant :: "claims \<Rightarrow> string" where
  "caller_tenant c = get_or (c_tenant_id c) ''default''"

text \<open>An exception of the lookup after the insertion is not caught.\<close>

definition create_query ::
    "claims http \<Rightarrow> instant \<Rightarrow> save_query_request \<Rightarrow> meta_db \<Rightarrow> query_row http \<times> meta_db" where
  "create_query auth t b db =
     (case auth of
        Inl e \<Rightarrow> (Inl e, db)
      | Inr c \<Rightarrow>
          if \<not> save_query_request_ok b then (Inl unprocessable_entity, db)
          else
            (case save_query t (sq_title b) (sq_description b) (sq_sql b) (or_else (sq_created_by b) (caller_tenant c))
                    (caller_tenant c) (sq_visibility b) db of
               Inl e \<Rightarrow> (Inl (HTTPException 409 (query_error_text e)), db)
             | Inr (slug, db') \<Rightarrow>
                 (map_sum (\<lambda>_. server_error) id (get_query_by_slug slug (caller_tenant c) True db'), db')))"

definition list_queries_route :: "claims http \<Rightarrow> int \<Rightarrow> int \<Rightarrow> meta_db \<Rightarrow> query_row list http" where
  "list_queries_route auth limit offset db =
     map_sum id (\<lambda>c. list_queries (Some (caller_tenant c)) True limit offset None db) auth"

definition get_query :: "claims http \<Rightarrow> string \<Rightarrow> meta_db \<Rightarrow> query_row http" where
  "get_query auth slug db =
     (case auth of
        Inl e \<Rightarrow> Inl e
      | Inr c \<Rightarrow>
          if \<not> rx_match_start slug_pattern slug \<or> 255 < length slug then Inl unprocessable_entity
          else
            (case get_query_by_slug slug (caller_tenant c) True db of
               Inl (PermissionDenied s) \<Rightarrow> Inl (HTTPException 403 (query_error_text (PermissionDenied s)))
             | Inl e \<Rightarrow> Inl (HTTPException 404 (query_error_text e))
             | Inr r \<Rightarrow> Inr r))"

lemma slug_matches: "rx_match_start slug_pattern (make_slug title)"
  using make_slug_shape [of title] by blast

lemma find_snoc_fresh: "k \<notin> key ` set rs \<Longrightarrow> find (\<lambda>r. key r = k) (rs @ [x]) = (if key x = k then Some x else None)"
  by (simp add: find_append find_fresh_key)

lemma create_query_cases:
  assumes "create_query (Inr c) t b db = (Inr row, db')"
  shows "save_query_request_ok b \<and> make_slug (sq_title b) \<notin> qr_slug ` set (md_queries db) \<and>
    row = \<lparr>qr_slug = make_slug (sq_title b), qr_title = sq_title b, qr_description = sq_description b,
      qr_sql = sq_sql b, qr_created_by = or_else (sq_created_by b) (caller_tenant c), qr_tenant_id = caller_tenant c,
      qr_created_at = isoformat t, qr_visibility = sq_visibility b\<rparr> \<and>
    db' = db\<lparr>md_queries := md_queries db @ [row]\<rparr>"
  using assms
  by (auto simp: create_query_def save_query_def get_query_by_slug_def find_snoc_fresh Let_def split: if_splits)

text \<open>
  Property C36. A saved query belongs to the tenant of its author's token, under the slug of its title.
  Read by its slug it is answered to that tenant and, if it is public, to everybody; other tenants get
  403. A slug of more than 255 characters can be saved but not read. Nobody, of whatever tenant, can
  save another query under the slug. Lists show queries of the caller's tenant and public ones only.
\<close>

theorem saved_query_visibility:
  assumes "create_query (Inr c) t b db = (Inr row, db')"
  shows "qr_tenant_id row = caller_tenant c \<and> qr_slug row = make_slug (sq_title b) \<and> qr_sql row = sq_sql b \<and>
    (\<forall>c'. length (qr_slug row) \<le> 255 \<longrightarrow>
       get_query (Inr c') (qr_slug row) db' =
         (if sq_visibility b = ''public'' \<or> caller_tenant c' = caller_tenant c then Inr row
          else Inl (HTTPException 403 (query_error_text (PermissionDenied (qr_slug row)))))) \<and>
    (\<forall>c'. 255 < length (qr_slug row) \<longrightarrow> status_of (get_query (Inr c') (qr_slug row) db') = Some 422) \<and>
    (\<forall>c' t' b'. save_query_request_ok b' \<and> make_slug (sq_title b') = qr_slug row \<longrightarrow>
       status_of (fst (create_query (Inr c') t' b' db')) = Some 409 \<and> snd (create_query (Inr c') t' b' db') = db') \<and>
    (\<forall>c' limit offset. \<forall>r \<in> set (list_queries (Some (caller_tenant c')) True limit offset None db').
       r \<in> set (md_queries db') \<and> (qr_tenant_id r = caller_tenant c' \<or> qr_visibility r = ''public''))"
proof -
  note row = create_query_cases [OF assms]
  have vis: "sq_visibility b = ''public'' \<longleftrightarrow> sq_visibility b \<noteq> ''private''"
    using row by (auto simp: save_query_request_ok_def)
  have fresh: "make_slug (sq_title b) \<notin> qr_slug ` set (md_queries db)" using row by blast
  have found: "find (\<lambda>r. qr_slug r = make_slug (sq_title b)) (md_queries db') = Some row"
    using row find_snoc_fresh [OF fresh, of row] by simp
  have fields: "qr_visibility row = sq_visibility b" "qr_tenant_id row = caller_tenant c" "qr_slug row = make_slug (sq_title b)"
    "qr_sql row = sq_sql b"
    using row by simp_all
  have get: "get_query (Inr c') (make_slug (sq_title b)) db' =
         (if 255 < length (make_slug (sq_title b)) then Inl unprocessable_entity
          else if sq_visibility b = ''public'' \<or> caller_tenant c' = caller_tenant c then Inr row
          else Inl (HTTPException 403 (query_error_text (PermissionDenied (make_slug (sq_title b))))))" for c'
    using vis by (simp add: get_query_def get_query_by_slug_def found slug_matches fields)
  have again: "create_query (Inr c') t' b' db' =
      (Inl (HTTPException 409 (query_error_text (DuplicateQuery (make_slug (sq_title b))))), db')"
    if "save_query_request_ok b'" "make_slug (sq_title b') = make_slug (sq_title b)" for c' t' b'
  proof -
    have "make_slug (sq_title b) \<in> qr_slug ` set (md_queries db')" using row by simp
    then show ?thesis using that by (simp add: create_query_def save_query_def Let_def)
  qed
  have listed: "r \<in> set (md_queries db') \<and> (qr_tenant_id r = caller_tenant c' \<or> qr_visibility r = ''public'')"
    if "r \<in> set (list_queries (Some (caller_tenant c')) True limit offset None db')" for c' limit offset r
    using that set_sql_limit_offset unfolding list_queries_def by fastforce
  show ?thesis using get again listed by (simp add: unprocessable_entity_def fields)
qed

definition tenant_claims :: "string \<Rightarrow> claims" where
  "tenant_claims t = no_claims\<lparr>c_tenant_id := Some t\<rparr>"

definition sample_saved :: "string \<Rightarrow> save_query_request" where
  "sample_saved v =
     \<lparr>sq_title = ''Top 10!'', sq_description = [], sq_sql = ''SELECT 1'', sq_created_by = None, sq_visibility = v\<rparr>"

theorem saved_query_visibility_witness:
  "\<exists>row db'. create_query (Inr (tenant_claims ''a'')) sample_time (sample_saved ''private'') empty_meta = (Inr row, db') \<and>
     get_query (Inr (tenant_claims ''a'')) ''top-10'' db' = Inr row \<and>
     status_of (get_query (Inr (tenant_claims ''b'')) ''top-10'' db') = Some 403 \<and>
     status_of (fst (create_query (Inr (tenant_claims ''b'')) sample_time (sample_saved ''public'') db')) = Some 409"
proof -
  let ?p = "create_query (Inr (tenant_claims ''a'')) sample_time (sample_saved ''private'') empty_meta"
  have h: "is_ok (fst ?p)" "make_slug ''Top 10!'' = ''top-10''" by code_simp+
  obtain row db' where p: "?p = (Inr row, db')" using h(1) by (metis is_okE prod.collapse)
  note v = saved_query_visibility [OF p]
  have slug: "qr_slug row = ''top-10''" using v h(2) by (simp add: sample_saved_def)
  with v p h(2) show ?thesis by (simp add: sample_saved_def save_query_request_ok_def tenant_claims_def caller_tenant_def get_or_def)
qed

end
