(* ===== verification/Middleware.thy ===== *)
theory Middleware
  imports Jwt Sandbox Base64
begin

text \<open>
  The layers around the application: \<open>security/security_headers.py\<close>,
  \<open>security/cors_middleware.py\<close>, the audit log of \<open>security/audit_log.py\<close>, the report of
  \<open>security/health_security.py\<close>, and \<open>build_app\<close> of \<open>app.py\<close>. The application inside is a parameter
  with its own state.
\<close>

section \<open>Requests and responses\<close>

text \<open>Header names are lower case, as Starlette compares them.\<close>

record web_request =
  wr_method :: string
  wr_path :: string
  wr_headers :: "(string \<times> string) list"
  wr_body :: string
  wr_client :: "string option"

record web_response =
  ws_status :: nat
  ws_headers :: "(string \<times> string) list"
  ws_body :: string

text \<open>\<open>MutableHeaders.__setitem__\<close>: the first header of that name is replaced, others are removed.\<close>

definition set_header :: "string \<Rightarrow> string \<Rightarrow> (string \<times> string) list \<Rightarrow> (string \<times> string) list" where
  "set_header k v hs =
     (if k \<in> fst ` set hs
      then takeWhile (\<lambda>h. fst h \<noteq> k) hs @ (k, v) # filter (\<lambda>h. fst h \<noteq> k) (dropWhile (\<lambda>h. fst h \<noteq> k) hs)
      else hs @ [(k, v)])"

definition add_header :: "string \<Rightarrow> string \<Rightarrow> web_response \<Rightarrow> web_response" where
  "add_header k v r = r\<lparr>ws_headers := set_header k v (ws_headers r)\<rparr>"

definition header :: "string \<Rightarrow> web_response \<Rightarrow> string option" where
  "header k r = map_of (ws_headers r) k"

section \<open>Security headers\<close>

definition content_security_policy :: string where
  "content_security_policy =
     ''default-src '' @ [CHR 0x27] @ ''self'' @ [CHR 0x27]
     @ ''; script-src '' @ [CHR 0x27] @ ''self'' @ [CHR 0x27] @ '' '' @ [CHR 0x27] @ ''unsafe-inline'' @ [CHR 0x27]
     @ '' https://esm.sh https://unpkg.com; style-src '' @ [CHR 0x27] @ ''self'' @ [CHR 0x27] @ '' ''
     @ [CHR 0x27] @ ''unsafe-inline'' @ [CHR 0x27] @ ''; img-src '' @ [CHR 0x27] @ ''self'' @ [CHR 0x27]
     @ '' data:; connect-src '' @ [CHR 0x27] @ ''self'' @ [CHR 0x27]"

definition security_headers :: "bool \<Rightarrow> (string \<times> string) list" where
  "security_headers dev_mode =
     [(''x-content-type-options'', ''nosniff''), (''x-frame-options'', ''DENY''),
      (''x-xss-protection'', ''1; mode=block''), (''content-security-policy'', content_security_policy),
      (''referrer-policy'', ''strict-origin-when-cross-origin''),
      (''permissions-policy'', ''geolocation=(), microphone=(), camera=()'')]
     @ (if dev_mode then [] else [(''strict-transport-security'', ''max-age=31536000; includeSubDomains'')])"

definition internal_error :: web_response where
  "internal_error =
     \<lparr>ws_status = 500, ws_headers = [(''content-length'', ''21''), (''content-type'', ''text/plain; charset=utf-8'')],
      ws_body = ''Internal Server Error''\<rparr>"

text \<open>The application answers \<open>None\<close> when it raises.\<close>

type_synonym 's app = "web_request \<Rightarrow> 's \<Rightarrow> web_response option \<times> 's"

definition security_dispatch :: "bool \<Rightarrow> 's app \<Rightarrow> 's app" where
  "security_dispatch dev_mode call_next rq s =
     (case call_next rq s of
        (r, s') \<Rightarrow>
          (Some (foldl (\<lambda>r (k, v). add_header k v r) (get_or r internal_error) (security_headers dev_mode)), s'))"

section \<open>Cross-origin requests\<close>

definition empty_response :: "nat \<Rightarrow> (string \<times> string) list \<Rightarrow> web_response" where
  "empty_response n hs = \<lparr>ws_status = n, ws_headers = hs, ws_body = []\<rparr>"

definition origin_of :: "web_request \<Rightarrow> string" where
  "origin_of rq = get_or (map_of (wr_headers rq) ''origin'') []"

definition is_preflight :: "web_request \<Rightarrow> bool" where
  "is_preflight rq =
     (wr_method rq = ''OPTIONS'' \<and> ''access-control-request-method'' \<in> fst ` set (wr_headers rq))"

definition cors_dispatch :: "string list \<Rightarrow> 's app \<Rightarrow> 's app" where
  "cors_dispatch allow_origins call_next rq s =
     (let origin = origin_of rq in
      if is_preflight rq then
        (Some (if origin \<in> set allow_origins
               then empty_response 204
                 [(''access-control-allow-origin'', origin),
                  (''access-control-allow-methods'', ''GET, POST, PUT, PATCH, DELETE, OPTIONS''),
                  (''access-control-allow-headers'', ''*''), (''access-control-max-age'', ''600'')]
               else empty_response 400 [(''content-length'', ''0'')]), s)
      else
        (case call_next rq s of
           (r, s') \<Rightarrow>
             (map_option (\<lambda>r. if origin \<noteq> [] \<and> origin \<in> set allow_origins
                              then add_header ''access-control-allow-origin'' origin r else r) r, s')))"

text \<open>\<open>build_app\<close> reads the origins from \<open>POND_CORS_ORIGINS\<close>; its endpoints are stubs.\<close>

definition parse_origins :: "string \<Rightarrow> string list" where
  "parse_origins raw =
     (if strip raw = [] then [] else map strip (filter (\<lambda>x. strip x \<noteq> []) (split_on CHR '','' raw)))"

definition build_app :: "string option \<Rightarrow> 's app \<Rightarrow> 's app" where
  "build_app cors_origins endpoints =
     (let allow = parse_origins (get_or cors_origins []) in
      if allow = [] then endpoints else cors_dispatch allow endpoints)"

section \<open>The audit log\<close>

definition audit_ip :: "web_request \<Rightarrow> string option" where
  "audit_ip rq =
     (let forwarded = map_of (wr_headers rq) ''x-forwarded-for'' in
      if truthy forwarded then Some (first_forwarded (the forwarded)) else wr_client rq)"

definition audit_user_agent :: "web_request \<Rightarrow> string option" where
  "audit_user_agent rq = (let ua = map_of (wr_headers rq) ''user-agent'' in if truthy ua then ua else None)"

text \<open>The claims are read without a check of the signature. \<open>json_tenant\<close> decodes an object and looks up
  \<open>tenant_id\<close>; \<open>None\<close> also when that raises.\<close>

definition tenant_from_jwt :: "(string \<Rightarrow> string option) \<Rightarrow> web_request \<Rightarrow> string option" where
  "tenant_from_jwt json_tenant rq =
     (let auth = get_or (map_of (wr_headers rq) ''authorization'') [] in
      if \<not> starts_with (lower auth) ''bearer '' then None
      else
        (case split_on CHR ''.'' (strip (drop 7 auth)) of
           [h, payload, sig] \<Rightarrow>
             (case b64_decode payload of Inl _ \<Rightarrow> None | Inr text \<Rightarrow> json_tenant text)
         | _ \<Rightarrow> None))"

text \<open>What the middleware reads of a body: \<open>tenant_id\<close> and \<open>sql\<close> of a JSON object; a body that is no
  JSON reads as the empty object.\<close>

record audit_lib =
  al_body :: "string \<Rightarrow> string option \<times> string option"
  al_tenant :: "string \<Rightarrow> string option"

definition audit_events :: "audit_lib \<Rightarrow> web_request \<Rightarrow> nat \<Rightarrow> audit_event list" where
  "audit_events L rq status =
     (case al_body L (wr_body rq) of
        (tenant, sql) \<Rightarrow>
          if wr_path rq = ''/auth/token'' then
            [\<lparr>ae_type = (if status = 200 then ''login_success'' else ''login_failure''),
              ae_tenant_id = Some (or_else tenant ''default''), ae_ip = audit_ip rq,
              ae_user_agent = audit_user_agent rq, ae_detail = None\<rparr>]
          else if wr_path rq = ''/query'' \<and> status = 403 then
            [\<lparr>ae_type = ''sandbox_block'', ae_tenant_id = tenant_from_jwt (al_tenant L) rq, ae_ip = audit_ip rq,
              ae_user_agent = audit_user_agent rq,
              ae_detail = Some (''blocked pattern: '' @ or_else (check_sql (get_or sql [])) ''unknown'')\<rparr>]
          else [])"

text \<open>An exception of the application passes through, before anything is logged.\<close>

definition audit_dispatch :: "audit_lib \<Rightarrow> 's app \<Rightarrow> web_request \<Rightarrow> 's \<Rightarrow> web_response option \<times> audit_event list \<times> 's" where
  "audit_dispatch L call_next rq s =
     (case call_next rq s of
        (r, s') \<Rightarrow>
          (r, (if wr_method rq \<noteq> ''POST'' \<or> wr_path rq \<notin> {''/auth/token'', ''/query''} then []
               else (case r of None \<Rightarrow> [] | Some a \<Rightarrow> audit_events L rq (ws_status a))), s'))"

section \<open>The security report\<close>

text \<open>\<open>importable\<close>: whether the module of that name can be imported.\<close>

record health_env =
  he_environ :: "string \<Rightarrow> string option"
  he_importable :: "string \<Rightarrow> bool"

definition p0_controls :: "string list" where
  "p0_controls =
     [''audit_logging_enabled'', ''brute_force_protection_enabled'', ''cors_configured'', ''jwt_secret_configured'',
      ''rate_limiting_enabled'', ''security_headers_enabled'', ''sql_sandbox_enabled'']"

definition check_jwt_secret :: "health_env \<Rightarrow> bool" where
  "check_jwt_secret E =
     (truthy (he_environ E ''POND_JWT_SECRET'') \<or> truthy (he_environ E ''POND_JWT_SECRET_V1'') \<or>
      truthy (he_environ E ''POND_JWT_SECRET_V2'') \<or> truthy (he_environ E ''POND_JWT_SECRET_FILE''))"

definition evaluate_controls :: "health_env \<Rightarrow> (string \<times> bool) list" where
  "evaluate_controls E =
     [(''jwt_secret_configured'', check_jwt_secret E),
      (''sql_sandbox_enabled'', pattern_defs \<noteq> []),
      (''security_headers_enabled'', he_importable E ''ponddb.security.security_headers''),
      (''brute_force_protection_enabled'', he_importable E ''ponddb.auth.brute_force''),
      (''rate_limiting_enabled'', he_importable E ''ponddb.security.rate_limit''),
      (''audit_logging_enabled'', he_importable E ''ponddb.security.audit_log''),
      (''cors_configured'', he_importable E ''ponddb.security.cors_middleware''),
      (''jwt_revocation_enabled'', truthy (he_environ E ''POND_REDIS_URL''))]"

definition health_security :: "health_env \<Rightarrow> nat \<times> string \<times> (string \<times> bool) list \<times> string list" where
  "health_security E =
     (let controls = evaluate_controls E;
          p0_failed = (\<exists>k \<in> set p0_controls. map_of controls k \<noteq> Some True)
      in (if p0_failed then 503 else 200, if p0_failed then ''degraded'' else ''healthy'', controls, p0_controls))"

section \<open>The key of the API\<close>

text \<open>\<open>_require_api_key\<close> of \<open>app.py\<close>\<close>

definition require_api_key :: "auth_env \<Rightarrow> string option \<Rightarrow> unit http" where
  "require_api_key env key =
     (case get_api_key env of
        Inl e \<Rightarrow> Inl e
      | Inr expected \<Rightarrow>
          if \<not> truthy key \<or> strip (the key) = [] \<or> key \<noteq> Some expected \<or> expected = []
          then Inl (HTTPException 401 ''Invalid or missing API key'') else Inr ())"

section \<open>What every response carries\<close>

lemma map_of_filter_other: "j \<noteq> k \<Longrightarrow> map_of (filter (\<lambda>h. fst h \<noteq> k) hs) j = map_of hs j"
  by (induction hs) auto

lemma map_of_set_header: "map_of (set_header k v hs) j = (if j = k then Some v else map_of hs j)"
proof (cases "k \<in> fst ` set hs")
  case True
  let ?P = "\<lambda>h. fst h \<noteq> k"
  have "map_of (takeWhile ?P hs) k = None"
    by (auto simp: map_of_eq_None_iff dest: set_takeWhileD)
  moreover have "map_of hs j = (case map_of (takeWhile ?P hs) j of None \<Rightarrow> map_of (dropWhile ?P hs) j | Some x \<Rightarrow> Some x)"
    by (metis map_add_def map_of_append takeWhile_dropWhile_id)
  moreover have "set_header k v hs = takeWhile ?P hs @ (k, v) # filter ?P (dropWhile ?P hs)"
    using True by (simp only: set_header_def if_True)
  ultimately show ?thesis using map_of_filter_other [of j k "dropWhile ?P hs"]
    by (simp add: map_add_def split: option.splits)
next
  case False
  then have "map_of hs k = None" by (auto simp: map_of_eq_None_iff)
  with False show ?thesis by (auto simp: set_header_def map_add_def split: option.splits)
qed

lemma header_add [simp]: "header j (add_header k v r) = (if j = k then Some v else header j r)"
  by (simp add: header_def add_header_def map_of_set_header)

lemma status_add [simp]: "ws_status (add_header k v r) = ws_status r"
  by (simp add: add_header_def)

lemma header_added:
  "distinct (map fst hs) \<Longrightarrow>
    header j (foldl (\<lambda>r (k, v). add_header k v r) r hs) = (case map_of hs j of None \<Rightarrow> header j r | Some v \<Rightarrow> Some v)"
proof (induction hs arbitrary: r)
  case (Cons h hs)
  obtain k v where h: "h = (k, v)" by (cases h)
  have "map_of hs k = None" using Cons.prems h by (simp add: map_of_eq_None_iff)
  then show ?case using Cons h by (auto split: option.splits)
qed simp

lemma status_added [simp]: "ws_status (foldl (\<lambda>r (k, v). add_header k v r) r hs) = ws_status r"
  by (induction hs arbitrary: r) auto

lemma security_headers_distinct: "distinct (map fst (security_headers dev))"
proof -
  have "distinct (map fst (security_headers True))" "distinct (map fst (security_headers False))" by code_simp+
  then show ?thesis by (cases dev) simp_all
qed

lemma security_header_names: "map_of (security_headers dev) ''access-control-allow-origin'' = None"
proof -
  have "map_of (security_headers True) ''access-control-allow-origin'' = None"
    "map_of (security_headers False) ''access-control-allow-origin'' = None" by code_simp+
  then show ?thesis by (cases dev) simp_all
qed


text \<open>The report does not look at what is installed: it is healthy as soon as a secret is configured and
  the modules exist.\<close>

lemma healthy_iff:
  "fst (health_security E) = 200 \<longleftrightarrow> check_jwt_secret E \<and>
     (\<forall>m \<in> {''ponddb.security.security_headers'', ''ponddb.auth.brute_force'', ''ponddb.security.rate_limit'',
             ''ponddb.security.audit_log'', ''ponddb.security.cors_middleware''}. he_importable E m)"
proof -
  have "pattern_defs \<noteq> []" by (simp add: pattern_defs_def)
  then show ?thesis by (auto simp: health_security_def evaluate_controls_def p0_controls_def Let_def)
qed

section \<open>A request from an admitted origin\<close>

definition ok_app :: "nat app" where
  "ok_app rq n = (if n = 0 then None else Some \<lparr>ws_status = 200, ws_headers = [], ws_body = []\<rparr>, n + 1)"

definition from_origin :: "string \<Rightarrow> string \<Rightarrow> web_request" where
  "from_origin meth orig =
     \<lparr>wr_method = meth, wr_path = ''/query'', wr_headers = [(''origin'', orig), (''access-control-request-method'', ''POST'')],
      wr_body = [], wr_client = None\<rparr>"


end
