(* ===== verification/Runner.thy ===== *)
theory Runner
  imports Sessions
begin

text \<open>
  \<open>engine/subprocess_runner.py\<close> and \<open>engine/compute_tracker.py\<close>: a query in a child process, and the
  sample of a query's costs. The session manager calls the former without limits when
  \<open>POND_SUBPROCESS_ISOLATION\<close> is set. Times are in seconds.
\<close>

section \<open>The child\<close>

datatype queue_item = ChildOk query_result | ChildError string string

text \<open>
  What the child finds: \<open>setrlimit\<close>, which answers the name and text of an exception, if any; DuckDB on
  a fresh connection, with the same on the left; and the milliseconds it takes.
\<close>

record child_env =
  ce_setrlimit :: "int option \<Rightarrow> int option \<Rightarrow> (string \<times> string) option"
  ce_exec :: "string \<Rightarrow> (string \<times> string) + (string list \<times> rows) option"
  ce_elapsed_ms :: rat

definition child_worker :: "child_env \<Rightarrow> string \<Rightarrow> int option \<Rightarrow> int option \<Rightarrow> queue_item" where
  "child_worker C sql mem cpu =
     (case ce_setrlimit C mem cpu of
        Some (name, text) \<Rightarrow> ChildError name text
      | None \<Rightarrow>
          (case ce_exec C sql of
             Inl (name, text) \<Rightarrow> ChildError name text
           | Inr r \<Rightarrow> ChildOk (result_of (ce_elapsed_ms C) r)))"

section \<open>The parent\<close>

text \<open>
  The course of the child: it returns from its function after some time, is killed with an exit code
  after some time, or runs on. A process that has put an item into a \<open>multiprocessing.Queue\<close> does not
  exit before the item has been written to the pipe, which takes a reader if the item is larger than
  the buffer of the pipe (\<open>pc_buffer\<close> bytes; \<open>pc_size\<close> is the size of a pickled item).
\<close>

datatype course = Returns rat | Dies rat int | Endless

record process =
  pc_course :: course
  pc_buffer :: int
  pc_size :: "queue_item \<Rightarrow> int"

definition exit_time :: "process \<Rightarrow> queue_item \<Rightarrow> rat option" where
  "exit_time P item =
     (case pc_course P of
        Returns t \<Rightarrow> if pc_size P item \<le> pc_buffer P then Some t else None
      | Dies t _ \<Rightarrow> Some t
      | Endless \<Rightarrow> None)"

datatype joined = Exited | TimedOut | Waiting

definition join_child :: "rat option \<Rightarrow> rat option \<Rightarrow> joined" where
  "join_child wall t =
     (case (wall, t) of
        (None, None) \<Rightarrow> Waiting
      | (None, Some _) \<Rightarrow> Exited
      | (Some w, None) \<Rightarrow> TimedOut
      | (Some w, Some x) \<Rightarrow> if x \<le> w then Exited else TimedOut)"

text \<open>
  What the parent finds in the queue. Of an item larger than the buffer the pipe holds the beginning,
  so the queue is not empty; the parent reads on, and since it holds the pipe open for writing itself,
  it waits for ever, even for a child it has killed.
\<close>

datatype reading = NoItem | Item queue_item | Stuck

definition read_queue :: "process \<Rightarrow> rat option \<Rightarrow> joined \<Rightarrow> queue_item \<Rightarrow> reading" where
  "read_queue P wall j item =
     (case (j, pc_course P) of
        (Exited, Returns _) \<Rightarrow> Item item
      | (TimedOut, Returns t) \<Rightarrow> if wall \<noteq> None \<and> t \<le> the wall then Stuck else NoItem
      | _ \<Rightarrow> NoItem)"

definition exit_code :: "process \<Rightarrow> joined \<Rightarrow> int" where
  "exit_code P j =
     (case j of TimedOut \<Rightarrow> - 9 | _ \<Rightarrow> (case pc_course P of Dies _ c \<Rightarrow> c | _ \<Rightarrow> 0))"

datatype runner_error =
    PlainException string
  | SubprocessKilledError string
  | SubprocessMemoryError string
  | SubprocessCpuError string

definition sigxcpu :: int where
  "sigxcpu = 24"

text \<open>A timeout comes with its text. \<open>None\<close>: the call does not return.\<close>

definition wall_timeout :: "(rat \<times> string) option \<Rightarrow> int option \<Rightarrow> rat option" where
  "wall_timeout timeout cpu =
     (case (timeout, cpu) of
        (Some (w, _), _) \<Rightarrow> Some w
      | (None, Some c) \<Rightarrow> Some (of_int c + 5)
      | (None, None) \<Rightarrow> None)"

definition killed_error ::
    "int option \<Rightarrow> int option \<Rightarrow> (rat \<times> string) option \<Rightarrow> joined \<Rightarrow> int \<Rightarrow> runner_error" where
  "killed_error mem cpu timeout j code =
     (if j = TimedOut
      then SubprocessCpuError (''Process exceeded wall timeout of ''
             @ (case timeout of None \<Rightarrow> ''None'' | Some (_, text) \<Rightarrow> text) @ ''s'')
      else if code = - sigxcpu
      then SubprocessCpuError (''Process exceeded CPU time limit of ''
             @ (case cpu of None \<Rightarrow> ''None'' | Some c \<Rightarrow> int_str c) @ ''s'')
      else case mem of
        Some m \<Rightarrow> SubprocessMemoryError (''Process exceeded memory limit of '' @ int_str m @ '' bytes (exit code ''
             @ int_str code @ '')'')
      | None \<Rightarrow>
          (case cpu of
             Some c \<Rightarrow> SubprocessCpuError (''Process exceeded CPU time limit of '' @ int_str c @ ''s (exit code ''
                  @ int_str code @ '')'')
           | None \<Rightarrow> SubprocessKilledError (''Process was killed unexpectedly (exit code '' @ int_str code @ '')'')))"

definition run_query_isolated ::
    "child_env \<Rightarrow> process \<Rightarrow> string \<Rightarrow> int option \<Rightarrow> int option \<Rightarrow> (rat \<times> string) option \<Rightarrow>
      (runner_error + query_result) option" where
  "run_query_isolated C P sql mem cpu timeout =
     (let item = child_worker C sql mem cpu; wall = wall_timeout timeout cpu; j = join_child wall (exit_time P item) in
      if j = Waiting then None
      else
        (case read_queue P wall j item of
           Item (ChildOk r) \<Rightarrow> Some (Inr r)
         | Item (ChildError name text) \<Rightarrow> Some (Inl (PlainException (name @ '': '' @ text)))
         | NoItem \<Rightarrow> Some (Inl (killed_error mem cpu timeout j (exit_code P j)))
         | Stuck \<Rightarrow> None))"

section \<open>The costs of a query\<close>

text \<open>\<open>_mem_kb\<close>: the reading of \<open>ru_maxrss\<close>, in bytes on macOS; \<open>None\<close> when it raises.\<close>

definition mem_kb :: "bool \<Rightarrow> int option \<Rightarrow> rat" where
  "mem_kb darwin rss =
     (case rss of None \<Rightarrow> 0 | Some n \<Rightarrow> if darwin then of_int n / 1024 else of_int n)"

record tracker =
  tk_sha256 :: "string \<Rightarrow> string"
  tk_darwin :: bool
  tk_rss_before :: "int option"
  tk_rss_after :: "int option"
  tk_wall_ms :: rat
  tk_time :: instant

text \<open>A query that fails leaves no sample.\<close>

definition track_query ::
    "tracker \<Rightarrow> 'c duck \<Rightarrow> string \<Rightarrow> string \<Rightarrow> 'c \<Rightarrow> meta_db option \<Rightarrow> (string + compute_row) \<times> 'c \<times> meta_db option" where
  "track_query T D sid sql c store =
     (case dk_exec D c sql of
        (Inl e, c') \<Rightarrow> (Inl e, c', store)
      | (Inr _, c') \<Rightarrow>
          (let sample = \<lparr>cs_session_id = sid, cs_query_hash = tk_sha256 T sql, cs_wall_ms = tk_wall_ms T,
                         cs_mem_delta_kb = max 0 (mem_kb (tk_darwin T) (tk_rss_after T) - mem_kb (tk_darwin T) (tk_rss_before T)),
                         cs_timestamp = isoformat (tk_time T)\<rparr>
           in (Inr sample, c', map_option (log_compute_sample sample) store)))"

lemma track_query_logged:
  "track_query T D sid sql c (Some db) = (Inr sample, c', Some db') \<Longrightarrow>
    get_compute_samples (Some sid) db' = get_compute_samples (Some sid) db @ [sample] \<and> 0 \<le> cs_mem_delta_kb sample"
  by (auto simp: track_query_def get_compute_samples_def log_compute_sample_def Let_def split: prod.splits sum.splits)

section \<open>When the call returns\<close>


text \<open>A statement whose pickled result has 100000 bytes, on a pipe of 65536: it runs within a second, and
  the call hangs, with ten seconds of patience too; with half a second it fails.\<close>

definition sample_child :: child_env where
  "sample_child =
     \<lparr>ce_setrlimit = (\<lambda>_ _. None), ce_exec = (\<lambda>_. Inr (Some ([''x''], [[''1'']]))), ce_elapsed_ms = 5\<rparr>"

definition sample_process :: "int \<Rightarrow> process" where
  "sample_process n = \<lparr>pc_course = Returns 1, pc_buffer = 65536, pc_size = (\<lambda>_. n)\<rparr>"


end
