(* ===== verification/Mcp.thy ===== *)
theory Mcp
  imports Http
begin

text \<open>
  The MCP server \<open>tools/mcp-server-ponddb\<close>: \<open>client.py\<close>, the wrapper of the memory API, and \<open>server.py\<close>,
  which serves its five tools as JSON-RPC over standard input and output. The network is a parameter,
  as are the texts Python gives for exceptions and for values that are not strings.
\<close>

section \<open>JSON\<close>

text \<open>A value \<open>json.loads\<close> gives; the members of an object in the order of the dictionary.\<close>

datatype json =
    JNull
  | JBool bool
  | JNum rat
  | JStr string
  | JArr "json list"
  | JObj "(string \<times> json) list"

fun json_true :: "json \<Rightarrow> bool" where
  "json_true JNull = False"
| "json_true (JBool b) = b"
| "json_true (JNum x) = (x \<noteq> 0)"
| "json_true (JStr s) = (s \<noteq> [])"
| "json_true (JArr xs) = (xs \<noteq> [])"
| "json_true (JObj d) = (d \<noteq> [])"

section \<open>The client of the memory API\<close>

text \<open>The verb, the URL, the headers, and the JSON body or the query parameters.\<close>

datatype http_method = POST | GET | DELETE

record http_call =
  hc_method :: http_method
  hc_url :: string
  hc_headers :: "(string \<times> string) list"
  hc_data :: "(string \<times> json) list"

text \<open>
  What \<open>httpx\<close> does: the text of an exception, or a status and what decoding the body gives, the text
  of an exception or a value; and the text of the exception for a status. \<open>hx_str\<close> is \<open>str\<close> on values
  that are not strings, \<open>hx_not_a_dict\<close> the text of the exception for looking up a key in them.
\<close>

record ('s, 'a) httpx =
  hx_send :: "http_call \<Rightarrow> 's \<Rightarrow> (string + nat \<times> (string + 'a)) \<times> 's"
  hx_status_error :: "nat \<Rightarrow> string \<Rightarrow> string"
  hx_str :: "json \<Rightarrow> string"
  hx_not_a_dict :: "json \<Rightarrow> string \<Rightarrow> string"

record mcp_client =
  mc_base :: string
  mc_headers :: "(string \<times> string) list"
  mc_workgroup :: string

definition new_client :: "string \<Rightarrow> string \<Rightarrow> string \<Rightarrow> mcp_client" where
  "new_client base_url api_key workgroup =
     \<lparr>mc_base = rev (dropWhile (\<lambda>c. c = CHR ''/'') (rev base_url)),
      mc_headers = [(''X-API-Key'', api_key), (''Content-Type'', ''application/json'')],
      mc_workgroup = workgroup\<rparr>"

text \<open>A call, \<open>raise_for_status\<close> and \<open>resp.json()\<close>.\<close>

definition call_api ::
    "('s, 'a) httpx \<Rightarrow> mcp_client \<Rightarrow> http_method \<Rightarrow> string \<Rightarrow> (string \<times> json) list \<Rightarrow> 's \<Rightarrow> (string + 'a) \<times> 's" where
  "call_api N c verb path data s =
     (let url = mc_base c @ path in
      case hx_send N \<lparr>hc_method = verb, hc_url = url, hc_headers = mc_headers c, hc_data = data\<rparr> s of
        (Inl e, s') \<Rightarrow> (Inl e, s')
      | (Inr (status, body), s') \<Rightarrow>
          (if 200 \<le> status \<and> status < 300 then body else Inl (hx_status_error N status url), s'))"

text \<open>\<open>f"/memories/{memory_id}"\<close>\<close>

definition json_text :: "('s, 'a) httpx \<Rightarrow> json \<Rightarrow> string" where
  "json_text N v = (case v of JStr s \<Rightarrow> s | _ \<Rightarrow> hx_str N v)"

definition optional_member :: "string \<Rightarrow> json \<Rightarrow> (string \<times> json) list" where
  "optional_member k v = (if json_true v then [(k, v)] else [])"

definition remember ::
    "('s, 'a) httpx \<Rightarrow> mcp_client \<Rightarrow> json \<Rightarrow> json \<Rightarrow> json \<Rightarrow> json \<Rightarrow> json \<Rightarrow> json \<Rightarrow> 's \<Rightarrow> (string + 'a) \<times> 's" where
  "remember N c agent_id memory_type content access_scope importance memory_key s =
     call_api N c POST ''/memories''
       ([(''agent_id'', agent_id), (''memory_type'', memory_type), (''content'', content),
         (''access_scope'', access_scope), (''importance'', importance)] @ optional_member ''memory_key'' memory_key) s"

definition recall ::
    "('s, 'a) httpx \<Rightarrow> mcp_client \<Rightarrow> json \<Rightarrow> json \<Rightarrow> json \<Rightarrow> json \<Rightarrow> json \<Rightarrow> 's \<Rightarrow> (string + 'a) \<times> 's" where
  "recall N c agent_id memory_type content_contains min_importance limit s =
     call_api N c GET ''/memories/search''
       ((''limit'', limit) # optional_member ''agent_id'' agent_id @ optional_member ''memory_type'' memory_type
        @ optional_member ''content_contains'' content_contains
        @ (if min_importance = JNull then [] else [(''min_importance'', min_importance)])) s"

definition run_sql :: "('s, 'a) httpx \<Rightarrow> mcp_client \<Rightarrow> json \<Rightarrow> json \<Rightarrow> 's \<Rightarrow> (string + 'a) \<times> 's" where
  "run_sql N c sql session_id s =
     call_api N c POST ''/pondapi/execute'' ((''sql'', sql) # optional_member ''session_id'' session_id) s"

definition forget :: "('s, 'a) httpx \<Rightarrow> mcp_client \<Rightarrow> json \<Rightarrow> 's \<Rightarrow> (string + 'a) \<times> 's" where
  "forget N c memory_id s = call_api N c DELETE (''/memories/'' @ json_text N memory_id) [] s"

definition feedback :: "('s, 'a) httpx \<Rightarrow> mcp_client \<Rightarrow> json \<Rightarrow> json \<Rightarrow> 's \<Rightarrow> (string + 'a) \<times> 's" where
  "feedback N c memory_id reward s =
     call_api N c POST (''/memories/'' @ json_text N memory_id @ ''/feedback'') [(''reward'', reward)] s"

section \<open>The tools\<close>

definition text_type :: json where
  "text_type = JObj [(''type'', JStr ''string'')]"

definition one_of :: "string list \<Rightarrow> json" where
  "one_of xs = JObj [(''type'', JStr ''string''), (''enum'', JArr (map JStr xs))]"

text \<open>Name, description, the properties of the input schema, and the required ones.\<close>

record tool =
  tl_name :: string
  tl_description :: string
  tl_properties :: "(string \<times> json) list"
  tl_required :: "string list"

definition tools :: "tool list" where
  "tools =
     [\<lparr>tl_name = ''ponddb_remember'',
       tl_description = ''Store a memory in PondDB. Types: working, episodic, semantic, procedural, shared.'',
       tl_properties =
         [(''agent_id'', text_type),
          (''memory_type'', one_of [''working'', ''episodic'', ''semantic'', ''procedural'', ''shared'']),
          (''content'', JObj [(''type'', JStr ''object'')]),
          (''access_scope'', JObj [(''type'', JStr ''string''),
             (''enum'', JArr [JStr ''private'', JStr ''workgroup'', JStr ''namespace'']), (''default'', JStr ''private'')]),
          (''importance'', JObj [(''type'', JStr ''number''), (''minimum'', JNum 0), (''maximum'', JNum 1),
             (''default'', JNum (1/2))]),
          (''memory_key'', text_type)],
       tl_required = [''agent_id'', ''memory_type'', ''content'']\<rparr>,
      \<lparr>tl_name = ''ponddb_recall'',
       tl_description = ''Search memories in PondDB. Returns memories matching filters, sorted by utility.'',
       tl_properties =
         [(''agent_id'', text_type), (''memory_type'', text_type), (''content_contains'', text_type),
          (''min_importance'', JObj [(''type'', JStr ''number'')]),
          (''limit'', JObj [(''type'', JStr ''integer''), (''default'', JNum 20)])],
       tl_required = []\<rparr>,
      \<lparr>tl_name = ''ponddb_query'',
       tl_description = ''Run a SQL query against PondDB via PondAPI.'',
       tl_properties = [(''sql'', text_type)],
       tl_required = [''sql'']\<rparr>,
      \<lparr>tl_name = ''ponddb_forget'',
       tl_description = ''Soft-delete a memory from PondDB.'',
       tl_properties = [(''memory_id'', text_type)],
       tl_required = [''memory_id'']\<rparr>,
      \<lparr>tl_name = ''ponddb_feedback'',
       tl_description = ''Provide feedback on a memory's usefulness. Reward between -1.0 and 1.0.'',
       tl_properties = [(''memory_id'', text_type),
         (''reward'', JObj [(''type'', JStr ''number''), (''minimum'', JNum (- 1)), (''maximum'', JNum 1)])],
       tl_required = [''memory_id'', ''reward'']\<rparr>]"

section \<open>Calling a tool\<close>

definition get_client :: "(string \<Rightarrow> string option) \<Rightarrow> mcp_client" where
  "get_client environ =
     new_client (get_or (environ ''PONDDB_URL'') ''http://localhost:8432'') (get_or (environ ''PONDDB_API_KEY'') [])
       (get_or (environ ''PONDDB_WORKGROUP'') ''default'')"

text \<open>\<open>d[k]\<close> and \<open>d.get(k, default)\<close>\<close>

definition member :: "('s, 'a) httpx \<Rightarrow> json \<Rightarrow> string \<Rightarrow> string + json" where
  "member N d k =
     (case d of
        JObj xs \<Rightarrow> (case map_of xs k of None \<Rightarrow> Inl (py_repr k) | Some v \<Rightarrow> Inr v)
      | _ \<Rightarrow> Inl (hx_not_a_dict N d k))"

definition member_or :: "('s, 'a) httpx \<Rightarrow> json \<Rightarrow> string \<Rightarrow> json \<Rightarrow> string + json" where
  "member_or N d k v =
     (case d of JObj xs \<Rightarrow> Inr (get_or (map_of xs k) v) | _ \<Rightarrow> Inl (hx_not_a_dict N d k))"

text \<open>The values of a list of look-ups, or the first exception.\<close>

fun all_members :: "(string + json) list \<Rightarrow> string + json list" where
  "all_members [] = Inr []"
| "all_members (r # rs) =
     (case r of
        Inl e \<Rightarrow> Inl e
      | Inr v \<Rightarrow> (case all_members rs of Inl e \<Rightarrow> Inl e | Inr vs \<Rightarrow> Inr (v # vs)))"

definition call_with ::
    "(string + json) list \<Rightarrow> (json list \<Rightarrow> 's \<Rightarrow> (string + 'a) \<times> 's) \<Rightarrow> 's \<Rightarrow> (string + 'a) \<times> 's" where
  "call_with args f s = (case all_members args of Inl e \<Rightarrow> (Inl e, s) | Inr vs \<Rightarrow> f vs s)"

definition handle_tool_call ::
    "('s, 'a) httpx \<Rightarrow> (string \<Rightarrow> string option) \<Rightarrow> json \<Rightarrow> json \<Rightarrow> 's \<Rightarrow> (string + 'a) \<times> 's" where
  "handle_tool_call N environ name a s =
     (let c = get_client environ; must = member N a; may = member_or N a in
      if name = JStr ''ponddb_remember'' then
        call_with [must ''agent_id'', must ''memory_type'', must ''content'',
            may ''access_scope'' (JStr ''private''), may ''importance'' (JNum (1/2)), may ''memory_key'' JNull]
          (\<lambda>vs. remember N c (vs ! 0) (vs ! 1) (vs ! 2) (vs ! 3) (vs ! 4) (vs ! 5)) s
      else if name = JStr ''ponddb_recall'' then
        call_with [may ''agent_id'' JNull, may ''memory_type'' JNull, may ''content_contains'' JNull,
            may ''min_importance'' JNull, may ''limit'' (JNum 20)]
          (\<lambda>vs. recall N c (vs ! 0) (vs ! 1) (vs ! 2) (vs ! 3) (vs ! 4)) s
      else if name = JStr ''ponddb_query'' then
        call_with [must ''sql''] (\<lambda>vs. run_sql N c (vs ! 0) JNull) s
      else if name = JStr ''ponddb_forget'' then
        call_with [must ''memory_id''] (\<lambda>vs. forget N c (vs ! 0)) s
      else if name = JStr ''ponddb_feedback'' then
        call_with [must ''memory_id'', must ''reward''] (\<lambda>vs. feedback N c (vs ! 0) (vs ! 1)) s
      else (Inl (''Unknown tool: '' @ json_text N name), s))"

section \<open>JSON-RPC\<close>

datatype 'a rpc_body = Initialized | ToolList "tool list" | ToolResult 'a | RpcError int string

record 'a rpc_reply =
  rr_id :: json
  rr_body :: "'a rpc_body"

text \<open>A request that is not an object raises outside of the \<open>try\<close> and ends the server.\<close>

datatype 'a served = Crashed | Silent | Reply "'a rpc_reply"

definition handle_jsonrpc ::
    "('s, 'a) httpx \<Rightarrow> (string \<Rightarrow> string option) \<Rightarrow> json \<Rightarrow> 's \<Rightarrow> 'a served \<times> 's" where
  "handle_jsonrpc N environ request s =
     (case request of
        JObj d \<Rightarrow>
          (let meth = get_or (map_of d ''method'') (JStr []); req_id = get_or (map_of d ''id'') JNull;
               params = get_or (map_of d ''params'') (JObj []);
               reply = (\<lambda>b. Reply \<lparr>rr_id = req_id, rr_body = b\<rparr>) in
           if meth = JStr ''initialize'' then (reply Initialized, s)
           else if meth = JStr ''notifications/initialized'' then (Silent, s)
           else if meth = JStr ''tools/list'' then (reply (ToolList tools), s)
           else if meth = JStr ''tools/call'' then
             (case all_members [member_or N params ''name'' (JStr []), member_or N params ''arguments'' (JObj [])] of
                Inl e \<Rightarrow> (reply (RpcError (- 32000) e), s)
              | Inr vs \<Rightarrow>
                  (case handle_tool_call N environ (vs ! 0) (vs ! 1) s of
                     (Inl e, s') \<Rightarrow> (reply (RpcError (- 32000) e), s')
                   | (Inr r, s') \<Rightarrow> (reply (ToolResult r), s')))
           else (reply (RpcError (- 32601) (''Unknown method: '' @ json_text N meth)), s))
      | _ \<Rightarrow> (Crashed, s))"

text \<open>The loop over the lines of standard input; the replies, and whether the server has crashed.\<close>

fun serve ::
    "('s, 'a) httpx \<Rightarrow> (string \<Rightarrow> string option) \<Rightarrow> (string \<Rightarrow> json option) \<Rightarrow> string list \<Rightarrow> 's \<Rightarrow>
      'a rpc_reply list \<times> bool \<times> 's" where
  "serve N environ loads [] s = ([], False, s)"
| "serve N environ loads (l # ls) s =
     (if strip l = [] then serve N environ loads ls s
      else
        (case loads (strip l) of
           None \<Rightarrow> serve N environ loads ls s
         | Some request \<Rightarrow>
             (case handle_jsonrpc N environ request s of
                (Crashed, s') \<Rightarrow> ([], True, s')
              | (Silent, s') \<Rightarrow> serve N environ loads ls s'
              | (Reply r, s') \<Rightarrow> (case serve N environ loads ls s' of (rs, x) \<Rightarrow> (r # rs, x)))))"

end
