(* ===== verification/McpServer.thy ===== *)
theory McpServer
  imports Mcp MemorySystem Jwt
begin

text \<open>
  The MCP server of \<open>tools/mcp-server-ponddb\<close> on top of the memory API: its calls are answered by the
  handlers of \<open>memory/routes.py\<close>. Between two calls anything may happen to the memories.
\<close>

section \<open>Who owns a memory\<close>

definition owner_view :: "memory \<Rightarrow> string \<times> string \<times> string \<times> string" where
  "owner_view m = (m_id m, m_agent_id m, m_workgroup_id m, m_scope m)"

lemma owner_view_kept [simp]:
  "owner_view (m\<lparr>m_content := x\<rparr>) = owner_view m" "owner_view (m\<lparr>m_importance := i\<rparr>) = owner_view m"
  "owner_view (m\<lparr>m_updated_at := t\<rparr>) = owner_view m" "owner_view (m\<lparr>m_utility := u\<rparr>) = owner_view m"
  "owner_view (m\<lparr>m_deleted_at := d\<rparr>) = owner_view m" "owner_view (m\<lparr>m_access_count := k\<rparr>) = owner_view m"
  "owner_view (m\<lparr>m_last_accessed_at := d\<rparr>) = owner_view m"
  by (simp_all add: owner_view_def)

definition owned :: "memory list \<Rightarrow> memory list \<Rightarrow> bool" where
  "owned ms ms' = (owner_view ` set ms \<subseteq> owner_view ` set ms')"

lemma owned_refl [simp]: "owned ms ms"
  by (simp add: owned_def)

lemma owned_append [simp]: "owned ms (ms @ rs)"
  by (auto simp: owned_def)

lemma ownedE:
  assumes "owned ms ms'" "m \<in> set ms"
  obtains m' where "m' \<in> set ms'" "owner_view m' = owner_view m"
  using assms unfolding owned_def by (metis (no_types, lifting) image_iff image_subset_iff)

lemma owned_trans: "owned a b \<Longrightarrow> owned b c \<Longrightarrow> owned a c"
  by (auto simp: owned_def)

lemma owned_update:
  assumes "\<And>m. owner_view (f m) = owner_view m"
  shows "owned ms (update_where P f ms)"
proof -
  have "owner_view ` set (update_where P f ms) = owner_view ` set ms"
    unfolding set_update_where image_image by (rule image_cong) (simp_all add: assms)
  then show ?thesis by (simp add: owned_def)
qed

lemma owned_touch [simp]: "owned (memories db) (memories (touch_ids now ids db))"
  by (simp add: touch_ids_def owned_update)

text \<open>No event of the service changes whose a memory is.\<close>

lemma owned_event: "owned (memories (ms_db s)) (memories (ms_db (apply_event ev s)))"
proof (induction ev s rule: apply_event.induct)
  case (1 e rq c b s)
  then show ?case
    by (auto simp: post_memory_def create_memory_def insert_memory_def Let_def owned_update
        split: sum.splits option.splits if_splits prod.splits)
next
  case (2 pick e rq c q s)
  then show ?case
    by (auto simp: get_search_def Let_def search_db split: prod.splits dest!: arg_cong [where f = snd])
next
  case (3 e rq c mid s)
  then show ?case by (auto simp: get_memory_route_def split: option.splits)
next
  case (4 e rq c mid b s)
  then show ?case
    by (auto simp: put_memory_def update_memory_def Let_def owned_update split: prod.splits option.splits if_splits)
next
  case (5 e rq c mid s)
  then show ?case
    by (auto simp: delete_memory_route_def soft_delete_memory_def Let_def owned_update split: prod.splits option.splits)
next
  case (6 e rq c mid r s)
  then show ?case
    by (auto simp: memory_feedback_def update_utility_def Let_def owned_update split: prod.splits option.splits if_splits)
next
  case (7 e rq c b s)
  then show ?case
    by (auto simp: post_grant_def create_grant_def Let_def split: sum.splits option.splits if_splits)
next
  case (8 rq c gid s)
  then show ?case by (auto simp: revoke_grant_def delete_grant_def split: option.splits)
next
  case (9 t lid s)
  then show ?case by (auto split: list.splits sum.splits)
next
  case (10 t t2 lid s)
  obtain n db' task where c: "cleanup_run_once t t2 lid (ms_db s) = (n, db', task)"
    by (metis prod_cases3)
  then show ?case using cleanup_memories [OF c] by (simp add: owned_update)
next
  case (11 t s)
  then show ?case by (simp add: decay_run_once_def Let_def owned_update)
qed

lemma owned_events: "owned (memories (ms_db s)) (memories (ms_db (fold apply_event evs s)))"
proof (induction evs arbitrary: s)
  case (Cons ev evs)
  then show ?case using owned_trans [OF owned_event Cons.IH] by simp
qed simp

lemma reachable_events: "mem_reachable s \<Longrightarrow> mem_reachable (fold apply_event evs s)"
  by (induction evs arbitrary: s) (auto intro: mem_reachable.intros mem_step.intros)

section \<open>The memory API as a network\<close>

text \<open>
  FastAPI's parsing of bodies and parameters is a parameter: \<open>None\<close> where it answers 422. The state is
  that of the service with the revoked tokens and the clocks the next call finds.
\<close>

record mem_host =
  mh_base :: string
  mh_deps :: auth_deps
  mh_env :: auth_env
  mh_pick :: "string list \<Rightarrow> string"
  mh_create :: "(string \<times> json) list \<Rightarrow> memory_create option"
  mh_search :: "(string \<times> json) list \<Rightarrow> search_query option"
  mh_reward :: "(string \<times> json) list \<Rightarrow> rat option"

record mem_world =
  mw_sys :: mem_sys
  mw_blocklist :: "string list"
  mw_now :: int
  mw_call :: call_env

datatype mem_answer =
    Created created
  | Hits "memory list"
  | Deleted string "string option"
  | FedBack string rat rat

type_synonym mem_response = "string + nat \<times> (string + mem_answer)"

definition refusal :: "http_exc \<Rightarrow> mem_response" where
  "refusal e = (case e of HTTPException n d \<Rightarrow> Inr (n, Inl d))"

definition request_with :: "(string \<times> string) list \<Rightarrow> request" where
  "request_with hs = plain_request\<lparr>rq_api_key := map_of hs ''X-API-Key''\<rparr>"

text \<open>The answer of a handler, with its status, and the state it leaves.\<close>

definition respond ::
    "nat \<Rightarrow> ('r \<Rightarrow> mem_answer) \<Rightarrow> mem_world \<Rightarrow> 'r http \<times> mem_db \<times> log_args option \<Rightarrow> mem_response \<times> mem_world" where
  "respond status f w r =
     ((case fst r of Inl e \<Rightarrow> refusal e | Inr x \<Rightarrow> Inr (status, Inr (f x))),
      w\<lparr>mw_sys := after_call (mw_sys w) r\<rparr>)"

text \<open>A segment of a path that needs no escaping; identifiers are such. Other paths have no handler here.\<close>

definition plain_segment :: "string \<Rightarrow> bool" where
  "plain_segment s = (s \<noteq> [] \<and> list_all (\<lambda>c. is_word c \<or> c = CHR ''-'') s)"

definition memories_path :: string where
  "memories_path = ''/memories/''"

definition feedback_suffix :: string where
  "feedback_suffix = ''/feedback''"

definition api_answer :: "mem_host \<Rightarrow> http_call \<Rightarrow> claims \<Rightarrow> mem_world \<Rightarrow> mem_response \<times> mem_world" where
  "api_answer H call c w =
     (let path = drop (length (mh_base H)) (hc_url call); rq = request_with (hc_headers call);
          e = mw_call w; db = ms_db (mw_sys w); seg = drop (length memories_path) path;
          mid = take (length seg - length feedback_suffix) seg in
      if hc_method call = POST \<and> path = ''/memories'' then
        (case mh_create H (hc_data call) of
           None \<Rightarrow> (refusal validation_error, w)
         | Some b \<Rightarrow> respond 201 Created w (post_memory e rq c b db))
      else if hc_method call = GET \<and> path = ''/memories/search'' then
        (case mh_search H (hc_data call) of
           None \<Rightarrow> (refusal validation_error, w)
         | Some q \<Rightarrow> respond 200 Hits w (get_search (mh_pick H) e rq c q db))
      else if hc_method call = DELETE \<and> starts_with path memories_path \<and> plain_segment seg then
        respond 200 (\<lambda>(i, t). Deleted i t) w (delete_memory_route e rq c seg db)
      else if hc_method call = POST \<and> starts_with path memories_path \<and> plain_segment mid \<and> seg = mid @ feedback_suffix then
        (case mh_reward H (hc_data call) of
           None \<Rightarrow> (refusal validation_error, w)
         | Some r \<Rightarrow> respond 200 (\<lambda>(i, old, new). FedBack i old new) w (memory_feedback e rq c mid r db))
      else (refusal (HTTPException 404 ''Not Found''), w))"

definition serve_api :: "mem_host \<Rightarrow> http_call \<Rightarrow> mem_world \<Rightarrow> mem_response \<times> mem_world" where
  "serve_api H call w =
     (if \<not> starts_with (hc_url call) (mh_base H) then (Inl ''connection refused'', w)
      else
        (case fst (require_auth (mh_deps H) (mh_env H) (mw_blocklist w) (mw_now w) (request_with (hc_headers call))) of
           Inl e \<Rightarrow> (refusal e, w)
         | Inr c \<Rightarrow> api_answer H call c w))"

definition memory_net ::
    "mem_host \<Rightarrow> (nat \<Rightarrow> string \<Rightarrow> string) \<Rightarrow> (json \<Rightarrow> string) \<Rightarrow> (json \<Rightarrow> string \<Rightarrow> string) \<Rightarrow> (mem_world, mem_answer) httpx" where
  "memory_net H err str nd =
     \<lparr>hx_send = serve_api H, hx_status_error = err, hx_str = str, hx_not_a_dict = nd\<rparr>"

text \<open>What is used of the parsing: texts are taken over, and absent members have their defaults.\<close>

definition parses_bodies :: "mem_host \<Rightarrow> bool" where
  "parses_bodies H =
     (\<forall>d b. mh_create H d = Some b \<longrightarrow>
        (\<forall>s. map_of d ''agent_id'' = Some (JStr s) \<longrightarrow> mc_agent_id b = s) \<and>
        (\<forall>s. map_of d ''access_scope'' = Some (JStr s) \<longrightarrow> mc_access_scope b = s) \<and>
        (map_of d ''memory_key'' = None \<longrightarrow> mc_memory_key b = None))"

lemma parsed_defaults:
  assumes "parses_bodies H" "mh_create H [(''agent_id'', JStr agent), (''memory_type'', ty), (''content'', content),
      (''access_scope'', JStr scope), (''importance'', i)] = Some b"
  shows "mc_agent_id b = agent" "mc_access_scope b = scope" "mc_memory_key b = None"
proof -
  let ?d = "[(''agent_id'', JStr agent), (''memory_type'', ty), (''content'', content),
      (''access_scope'', JStr scope), (''importance'', i)]"
  have "map_of ?d ''agent_id'' = Some (JStr agent)" "map_of ?d ''access_scope'' = Some (JStr scope)"
    "map_of ?d ''memory_key'' = None" by simp_all
  then show "mc_agent_id b = agent" "mc_access_scope b = scope" "mc_memory_key b = None"
    using assms unfolding parses_bodies_def by blast+
qed

section \<open>Callers with an API key\<close>

lemma api_key_claims:
  assumes "fst (require_auth D env bl now (request_with hs)) = Inr c" 
  shows "wg_of c = ''default'' \<and> agent_of c = ''unknown'' \<and> \<not> is_admin c"
proof -
  have "c = default_claims ''default''"
    using assms
    by (auto simp: require_auth_def authenticate_def request_with_def plain_request_def Let_def
        bearer_prefix_def split: if_splits sum.splits)
  then show ?thesis
    by (simp add: wg_of_def agent_of_def is_admin_def default_claims_def no_claims_def truthy_Some)
qed

text \<open>A client whose calls the host answers.\<close>

lemma serve_api_authenticated:
  assumes "serve_api H call w = (Inr (n, Inr a), w')"
  obtains c where "wg_of c = ''default''" "agent_of c = ''unknown''" "\<not> is_admin c"
    "starts_with (hc_url call) (mh_base H)" "api_answer H call c w = (Inr (n, Inr a), w')"
proof -
  let ?auth = "fst (require_auth (mh_deps H) (mh_env H) (mw_blocklist w) (mw_now w) (request_with (hc_headers call)))"
  have s: "starts_with (hc_url call) (mh_base H)" using assms by (auto simp: serve_api_def split: if_splits)
  obtain c where c: "?auth = Inr c"
    using assms s by (cases ?auth) (auto simp: serve_api_def refusal_def split: http_exc.splits)
  then have "api_answer H call c w = (Inr (n, Inr a), w')" using assms s by (simp add: serve_api_def)
  then show ?thesis using that api_key_claims [OF c] s by blast
qed

lemma call_api_ok:
  assumes "call_api (memory_net H err str nd) c verb path d w = (Inr a, w')"
  obtains n where "serve_api H \<lparr>hc_method = verb, hc_url = mc_base c @ path, hc_headers = mc_headers c, hc_data = d\<rparr> w
    = (Inr (n, Inr a), w')"
  using assms by (auto simp: call_api_def memory_net_def Let_def split: prod.splits sum.splits if_splits)

text \<open>The paths of the calls, for a host at the client's own address.\<close>

lemma remember_answered:
  assumes "remember (memory_net H err str nd) c agent ty content scope importance key w = (Inr a, w')"
    and "mc_base c = mh_base H"
  obtains b cl r db' task where
    "mh_create H ([(''agent_id'', agent), (''memory_type'', ty), (''content'', content),
         (''access_scope'', scope), (''importance'', importance)] @ optional_member ''memory_key'' key) = Some b"
    "wg_of cl = ''default''" "a = Created r"
    "post_memory (mw_call w) (request_with (mc_headers c)) cl b (ms_db (mw_sys w)) = (Inr r, db', task)"
    "mw_sys w' = apply_event (PostMemory (mw_call w) (request_with (mc_headers c)) cl b) (mw_sys w)"
proof -
  let ?call = "\<lparr>hc_method = POST, hc_url = mc_base c @ ''/memories'', hc_headers = mc_headers c, hc_data =
    [(''agent_id'', agent), (''memory_type'', ty), (''content'', content), (''access_scope'', scope),
     (''importance'', importance)] @ optional_member ''memory_key'' key\<rparr>"
  from assms(1) obtain n where "serve_api H ?call w = (Inr (n, Inr a), w')"
    unfolding remember_def by (rule call_api_ok)
  then obtain cl where cl: "wg_of cl = ''default''" "api_answer H ?call cl w = (Inr (n, Inr a), w')"
    by (rule serve_api_authenticated) blast
  obtain b where b: "mh_create H (hc_data ?call) = Some b"
    using cl(2) assms(2) by (cases "mh_create H (hc_data ?call)") (auto simp: api_answer_def refusal_def validation_error_def Let_def)
  obtain x db' task where p: "post_memory (mw_call w) (request_with (mc_headers c)) cl b (ms_db (mw_sys w)) = (x, db', task)"
    by (metis prod_cases3)
  have "respond 201 Created w (x, db', task) = (Inr (n, Inr a), w')"
    using cl(2) assms(2) b p by (simp add: api_answer_def Let_def)
  then obtain r where r: "x = Inr r" "a = Created r" "mw_sys w' = after_call (mw_sys w) (x, db', task)"
    by (cases x) (auto simp: respond_def refusal_def split: http_exc.splits)
  show ?thesis
  proof (rule that)
    show "mw_sys w' = apply_event (PostMemory (mw_call w) (request_with (mc_headers c)) cl b) (mw_sys w)"
      using r(3) by (simp add: p)
  qed (use b cl(1) r(1,2) p in simp_all)
qed

lemma recall_answered:
  assumes "recall (memory_net H err str nd) c agent ty contains importance limit w = (Inr a, w')"
    and "mc_base c = mh_base H"
  obtains q cl hits db' task where "a = Hits hits" "wg_of cl = ''default''" "agent_of cl = ''unknown''"
    "get_search (mh_pick H) (mw_call w) (request_with (mc_headers c)) cl q (ms_db (mw_sys w)) = (Inr hits, db', task)"
proof -
  let ?data = "(''limit'', limit) # optional_member ''agent_id'' agent @ optional_member ''memory_type'' ty
        @ optional_member ''content_contains'' contains
        @ (if importance = JNull then [] else [(''min_importance'', importance)])"
  let ?call = "\<lparr>hc_method = GET, hc_url = mc_base c @ ''/memories/search'', hc_headers = mc_headers c, hc_data = ?data\<rparr>"
  from assms(1) obtain n where "serve_api H ?call w = (Inr (n, Inr a), w')"
    unfolding recall_def by (rule call_api_ok)
  then obtain cl where cl: "wg_of cl = ''default''" "agent_of cl = ''unknown''" "api_answer H ?call cl w = (Inr (n, Inr a), w')"
    by (rule serve_api_authenticated) blast
  obtain q where q: "mh_search H ?data = Some q"
    using cl(3) assms(2) by (cases "mh_search H ?data") (auto simp: api_answer_def refusal_def validation_error_def Let_def)
  obtain x db' task where p:
    "get_search (mh_pick H) (mw_call w) (request_with (mc_headers c)) cl q (ms_db (mw_sys w)) = (x, db', task)"
    by (metis prod_cases3)
  have "respond 200 Hits w (x, db', task) = (Inr (n, Inr a), w')"
    using cl(3) assms(2) q p by (simp add: api_answer_def Let_def)
  then obtain hits where "x = Inr hits" "a = Hits hits"
    by (cases x) (auto simp: respond_def refusal_def split: http_exc.splits)
  then show ?thesis using that cl(1,2) p by blast
qed

text \<open>A search shows memories of the database, and never a caller a private one of another agent.\<close>

lemma search_hides_private:
  assumes "get_search pick e rq c q db = (Inr hits, db', task)" and "m \<in> set hits" and "agent_of c \<noteq> []"
  shows "m \<in> set (memories db) \<and> (m_scope m = ''private'' \<longrightarrow> m_agent_id m = agent_of c)"
proof -
  let ?granted = "filter (\<lambda>a. wa_grant_id a \<noteq> None)
    (get_accessible_workgroups (ce_t1 e) db (wg_of c) (Some (agent_of c)) True ''read'')"
  have limit: "0 \<le> sq_limit q"
    and "hits = map h_memory (fst (search_memories (ce_t2 e) (wg_of c) (Some (agent_of c)) q ?granted db))"
    using assms(1) by (auto simp: get_search_def Let_def split: if_splits prod.splits)
  then obtain h where h: "m = h_memory h"
      "h \<in> set (fst (search_memories (ce_t2 e) (wg_of c) (Some (agent_of c)) q ?granted db))"
    using assms(2) by auto
  from set_search_results [OF limit h(2)]
  consider m' where "h = own_hit m'" "m' \<in> set (query_workgroup (isoformat (ce_t2 e)) (wg_of c) (Some (agent_of c)) False q db)"
    | g m' where "h = grant_hit g m'"
      "m' \<in> set (query_workgroup (isoformat (ce_t2 e)) (wa_workgroup_id g) (Some (agent_of c)) True (grant_query g q) db)"
    by (auto simp: collect_hits_def hits_of_grant_def)
  then show ?thesis
  proof cases
    case 1
    then show ?thesis
      using query_workgroup_where [OF 1(2)] h(1) assms(3)
      by (simp add: own_hit_def search_where_def scope_visible_def truthy_Some)
  next
    case 2
    then show ?thesis
      using query_workgroup_where [OF 2(2)] h(1) by (simp add: grant_hit_def search_where_def scope_visible_def)
  qed
qed

section \<open>The tools\<close>

lemma call_with_ok: "call_with args f s = (Inr a, s') \<Longrightarrow> \<exists>vs. all_members args = Inr vs \<and> f vs s = (Inr a, s')"
  by (auto simp: call_with_def split: sum.splits)

lemma remember_tool:
  assumes "handle_tool_call N environ (JStr ''ponddb_remember'') (JObj args) s = (Inr a, s')"
  obtains agent ty content where "map_of args ''agent_id'' = Some agent" "map_of args ''memory_type'' = Some ty"
    "map_of args ''content'' = Some content"
    "remember N (get_client environ) agent ty content (get_or (map_of args ''access_scope'') (JStr ''private''))
       (get_or (map_of args ''importance'') (JNum (1/2))) (get_or (map_of args ''memory_key'') JNull) s = (Inr a, s')"
proof -
  let ?must = "member N (JObj args)" and ?may = "member_or N (JObj args)"
  have "call_with [?must ''agent_id'', ?must ''memory_type'', ?must ''content'',
      ?may ''access_scope'' (JStr ''private''), ?may ''importance'' (JNum (1/2)), ?may ''memory_key'' JNull]
    (\<lambda>vs. remember N (get_client environ) (vs ! 0) (vs ! 1) (vs ! 2) (vs ! 3) (vs ! 4) (vs ! 5)) s = (Inr a, s')"
    using assms by (simp add: handle_tool_call_def Let_def)
  from call_with_ok [OF this] show ?thesis
    using that by (auto simp: member_def member_or_def split: option.splits sum.splits)
qed

lemma recall_tool:
  assumes "handle_tool_call N environ (JStr ''ponddb_recall'') d s = (Inr a, s')"
  obtains agent ty contains importance limit where
    "recall N (get_client environ) agent ty contains importance limit s = (Inr a, s')"
proof -
  have "call_with [member_or N d ''agent_id'' JNull, member_or N d ''memory_type'' JNull,
      member_or N d ''content_contains'' JNull, member_or N d ''min_importance'' JNull, member_or N d ''limit'' (JNum 20)]
    (\<lambda>vs. recall N (get_client environ) (vs ! 0) (vs ! 1) (vs ! 2) (vs ! 3) (vs ! 4)) s = (Inr a, s')"
    using assms by (simp add: handle_tool_call_def Let_def)
  from call_with_ok [OF this] show ?thesis using that by blast
qed

lemma forget_tool:
  "handle_tool_call N environ (JStr ''ponddb_forget'') (JObj [(''memory_id'', JStr mid)]) s =
    forget N (get_client environ) (JStr mid) s"
  by (simp add: handle_tool_call_def call_with_def member_def Let_def)

text \<open>Nobody but its agent, and administrators, can delete a memory.\<close>

lemma forget_refused:
  assumes "mc_base c = mh_base H" "m \<in> set (memories (ms_db (mw_sys w)))" "distinct (map m_id (memories (ms_db (mw_sys w))))"
    and "m_agent_id m \<noteq> ''unknown''"
  shows "(\<exists>e. fst (forget (memory_net H err str nd) c (JStr (m_id m)) w) = Inl e) \<and>
    ms_db (mw_sys (snd (forget (memory_net H err str nd) c (JStr (m_id m)) w))) = ms_db (mw_sys w)"
proof -
  let ?call = "\<lparr>hc_method = DELETE, hc_url = mc_base c @ ''/memories/'' @ m_id m, hc_headers = mc_headers c, hc_data = []\<rparr>"
  define refused_with where "refused_with = (\<lambda>(r :: mem_response, w' :: mem_world). ms_db (mw_sys w') = ms_db (mw_sys w) \<and>
    ((\<exists>n d. r = Inr (n, Inl d)) \<or> (\<exists>d. r = Inl d)))"
  let ?r = "\<lambda>cl. delete_memory_route (mw_call w) (request_with (mc_headers c)) cl (m_id m) (ms_db (mw_sys w))"
  have route: "\<exists>n d. fst (?r cl) = Inl (HTTPException n d) \<and> snd (?r cl) = (ms_db (mw_sys w), None)"
    if "agent_of cl = ''unknown''" "\<not> is_admin cl" for cl
  proof (cases "get_memory (ms_db (mw_sys w)) (m_id m)")
    case (Some m')
    then have "m' = m" using assms(2,3) by (metis get_memory_SomeD inj_onD distinct_map)
    then show ?thesis using Some that assms(4) by (simp add: delete_memory_route_def can_modify_memory_def)
  qed (simp add: delete_memory_route_def)
  obtain r w' where s: "serve_api H ?call w = (r, w')" by (metis prod.collapse)
  have api: "refused_with (api_answer H ?call cl w)" if "agent_of cl = ''unknown''" "\<not> is_admin cl" for cl
  proof -
    have path: "drop (length (mh_base H)) (hc_url ?call) = ''/memories/'' @ m_id m" using assms(1) by simp
    show ?thesis
    proof (cases "plain_segment (m_id m)")
      case True
      then have "api_answer H ?call cl w = respond 200 (\<lambda>(i, t). Deleted i t) w (?r cl)"
        unfolding api_answer_def path Let_def memories_path_def by simp
      then show ?thesis using route [OF that] by (auto simp: respond_def refused_with_def refusal_def)
    next
      case False
      then have "api_answer H ?call cl w = (refusal (HTTPException 404 ''Not Found''), w)"
        unfolding api_answer_def path Let_def memories_path_def by simp
      then show ?thesis by (simp add: refused_with_def refusal_def)
    qed
  qed
  have "refused_with (serve_api H ?call w)"
  proof (cases "fst (require_auth (mh_deps H) (mh_env H) (mw_blocklist w) (mw_now w) (request_with (hc_headers ?call)))")
    case (Inl x)
    then show ?thesis by (cases x) (simp add: serve_api_def refused_with_def refusal_def)
  next
    case (Inr cl)
    then show ?thesis using api [of cl] api_key_claims [OF Inr] by (simp add: serve_api_def refused_with_def)
  qed
  then show ?thesis
    using s by (auto simp: forget_def call_api_def memory_net_def json_text_def refused_with_def Let_def)
qed

lemma post_memory_new:
  assumes "mem_inv db" "post_memory e rq c b db = (Inr r, db', task)" "mc_memory_key b = None"
  shows "\<exists>m. get_memory db' (cr_id r) = Some m \<and> m_agent_id m = mc_agent_id b \<and> m_scope m = mc_access_scope b"
proof -
  have key: "keyed_match (body_args c b) db = None" using assms(3) by (simp add: keyed_match_def body_args_def)
  from assms(2) obtain m where m: "create_memory (ce_t2 e) (ce_fresh e) (body_args c b) db = Inr (Some m, db')" "cr_id r = m_id m"
    by (rule post_memory_success)
  let ?r = "new_row (isoformat (ce_t2 e)) (or_else None (ce_fresh e)) (body_args c b)"
  have eq: "m = ?r" "\<not> memory_conflict ?r (memories db)" "db' = db\<lparr>memories := memories db @ [?r]\<rparr>"
    using create_memory_insert_case [OF assms(1) key, of "ce_t2 e" "ce_fresh e"] m(1)
    by (auto simp: Let_def body_args_def split: if_splits)
  have "find (\<lambda>m. m_id m = m_id ?r \<and> live m) (memories db) = None"
    using eq(2) by (auto simp: find_None_iff_ball memory_conflict_def)
  then have "get_memory db' (m_id ?r) = Some ?r" by (simp add: get_memory_def eq(3) find_append new_row_def)
  then show ?thesis using m(2) eq(1) by (simp add: new_row_def body_args_def)
qed


section \<open>An agent that remembers with the defaults\<close>

definition sample_create :: "(string \<times> json) list \<Rightarrow> memory_create option" where
  "sample_create d =
     (case (map_of d ''agent_id'', map_of d ''memory_type'', map_of d ''content'', map_of d ''access_scope'',
            map_of d ''importance'', map_of d ''memory_key'') of
        (Some (JStr agent), Some (JStr ty), Some (JObj c), Some (JStr scope), Some (JNum i), key) \<Rightarrow>
          Some \<lparr>mc_agent_id = agent, mc_memory_type = ty, mc_content = ''{}'', mc_access_scope = scope,
            mc_importance = i, mc_memory_key = (case key of Some (JStr k) \<Rightarrow> Some k | _ \<Rightarrow> None),
            mc_causal_parent_id = None, mc_expires_at = None\<rparr>
      | _ \<Rightarrow> None)"

definition sample_search :: "(string \<times> json) list \<Rightarrow> search_query option" where
  "sample_search d =
     Some \<lparr>sq_agent_id = None, sq_memory_type = None, sq_access_scope = None, sq_min_importance = None,
       sq_min_utility = None, sq_since = None, sq_until = None, sq_content_contains = None, sq_limit = 20\<rparr>"

definition sample_host :: mem_host where
  "sample_host =
     \<lparr>mh_base = ''http://localhost:8432'', mh_deps = sample_deps sample_access, mh_env = sample_env [] ''k1'',
      mh_pick = hd, mh_create = sample_create, mh_search = sample_search, mh_reward = (\<lambda>d. None)\<rparr>"

definition sample_world :: mem_world where
  "sample_world = \<lparr>mw_sys = initial_sys, mw_blocklist = [], mw_now = 1000, mw_call = sample_call ''x''\<rparr>"

definition sample_net :: "(mem_world, mem_answer) httpx" where
  "sample_net = memory_net sample_host (\<lambda>n url. int_str (int n)) (\<lambda>v. []) (\<lambda>v k. [])"

definition sample_environ :: "string \<Rightarrow> string option" where
  "sample_environ k = (if k = ''PONDDB_API_KEY'' then Some ''key'' else None)"

definition sample_args :: "(string \<times> json) list" where
  "sample_args = [(''agent_id'', JStr ''ann''), (''memory_type'', JStr ''semantic''), (''content'', JObj [])]"

lemma sample_host_parses: "parses_bodies sample_host"
  unfolding parses_bodies_def
proof (intro allI impI)
  fix d b
  assume "mh_create sample_host d = Some b"
  then have "sample_create d = Some b" by (simp add: sample_host_def)
  then show "(\<forall>s. map_of d ''agent_id'' = Some (JStr s) \<longrightarrow> mc_agent_id b = s) \<and>
      (\<forall>s. map_of d ''access_scope'' = Some (JStr s) \<longrightarrow> mc_access_scope b = s) \<and>
      (map_of d ''memory_key'' = None \<longrightarrow> mc_memory_key b = None)"
    unfolding sample_create_def by (auto split: option.splits json.splits)
qed


end
