(* ===== verification/Lifespan.thy ===== *)
theory Lifespan
  imports MemorySystem SessionSystem
begin

text \<open>
  The life of the server process: \<open>_lifespan\<close> of \<open>app.py\<close>, which restores the sessions and starts the
  background tasks, the loops of these tasks (\<open>start_watchdog\<close>, and \<open>start\<close>, \<open>stop\<close> and \<open>_loop\<close> in
  \<open>memory/tasks.py\<close>), and the shutdown. Between two rounds of the tasks requests change the sessions
  and the memories. Times are in microseconds.
\<close>

section \<open>Configuration\<close>

text \<open>\<open>float(text)\<close> of a number of seconds, in microseconds; \<open>None\<close> where it raises. The special values
  \<open>nan\<close> and \<open>inf\<close> are left out.\<close>

record life_cfg =
  lf_environ :: "string \<Rightarrow> string option"
  lf_float :: "string \<Rightarrow> int option"

definition watchdog_interval :: "life_cfg \<Rightarrow> int option" where
  "watchdog_interval L = lf_float L (get_or (lf_environ L ''POND_WATCHDOG_INTERVAL'') ''30'')"

definition max_suspend_age :: "life_cfg \<Rightarrow> int option" where
  "max_suspend_age L = lf_float L (get_or (lf_environ L ''POND_MAX_SUSPEND_AGE'') ''3600'')"

datatype bg_task = WatchdogTask | CleanupTask | DecayTask

text \<open>The arguments \<open>interval=60.0\<close> and \<open>interval=86400.0\<close>; a negative sleep does not wait.\<close>

definition task_interval :: "life_cfg \<Rightarrow> bg_task \<Rightarrow> int" where
  "task_interval L k =
     (case k of
        WatchdogTask \<Rightarrow> max 0 (get_or (watchdog_interval L) 0)
      | CleanupTask \<Rightarrow> 60000000
      | DecayTask \<Rightarrow> 86400000000)"

section \<open>The process\<close>

text \<open>A task has not been started, sleeps until a time, has ended with an exception, or is cancelled.\<close>

datatype timer = NotStarted | Due instant | Raised | Cancelled

record 'c server_process =
  pr_manager :: "'c manager"
  pr_memory :: mem_db
  pr_report :: cleanup_task
  pr_timers :: "bg_task \<Rightarrow> timer"
  pr_up :: bool
  pr_booted :: instant
  pr_runs :: "(bg_task \<times> instant) list"

definition new_process :: "'c manager \<Rightarrow> mem_db \<Rightarrow> 'c server_process" where
  "new_process m db =
     \<lparr>pr_manager = m, pr_memory = db, pr_report = new_cleanup_task, pr_timers = (\<lambda>_. NotStarted), pr_up = False,
      pr_booted = 0, pr_runs = []\<rparr>"

definition set_timer :: "bg_task \<Rightarrow> timer \<Rightarrow> 'c server_process \<Rightarrow> 'c server_process" where
  "set_timer k x s = s\<lparr>pr_timers := (pr_timers s)(k := x)\<rparr>"

text \<open>\<open>create_task(self._loop())\<close>: the loop sleeps before its first round.\<close>

definition start_task :: "life_cfg \<Rightarrow> instant \<Rightarrow> bg_task \<Rightarrow> 'c server_process \<Rightarrow> 'c server_process" where
  "start_task L t k s = set_timer k (Due (t + task_interval L k)) s"

definition stop_task :: "bg_task \<Rightarrow> 'c server_process \<Rightarrow> 'c server_process" where
  "stop_task k s =
     (case pr_timers s k of Due _ \<Rightarrow> set_timer k Cancelled s | _ \<Rightarrow> s)"

text \<open>\<open>start_watchdog\<close> reads its limit outside of its \<open>try\<close>, and runs its first round without a sleep.\<close>

definition start_watchdog :: "life_cfg \<Rightarrow> instant \<Rightarrow> 'c server_process \<Rightarrow> 'c server_process" where
  "start_watchdog L t s =
     set_timer WatchdogTask (case max_suspend_age L of None \<Rightarrow> Raised | Some _ \<Rightarrow> Due t) s"

text \<open>The exceptions of a start: those of \<open>load_from_store\<close>, and the one of \<open>float\<close>.\<close>

definition startup ::
    "'c duck \<Rightarrow> session_cfg \<Rightarrow> life_cfg \<Rightarrow> instant \<Rightarrow> 'c server_process \<Rightarrow> (session_error + unit) \<times> 'c server_process" where
  "startup D cfg L t s =
     (case load_from_store D cfg (pr_manager s) of
        (Inl e, m) \<Rightarrow> (Inl e, s\<lparr>pr_manager := m\<rparr>)
      | (Inr _, m) \<Rightarrow>
          (let s1 = s\<lparr>pr_manager := m\<rparr> in
           case watchdog_interval L of
             None \<Rightarrow> (Inl (ValueError ''could not convert string to float''), s1)
           | Some _ \<Rightarrow>
               (Inr (), (start_task L t DecayTask (start_task L t CleanupTask (start_watchdog L t s1)))
                  \<lparr>pr_up := True, pr_booted := t, pr_runs := []\<rparr>)))"

text \<open>The right value is whether the shutdown ends without the exception of the watchdog.\<close>

definition shutdown :: "'c server_process \<Rightarrow> bool \<times> 'c server_process" where
  "shutdown s =
     (pr_timers s WatchdogTask \<noteq> Raised,
      (stop_task WatchdogTask (stop_task DecayTask (stop_task CleanupTask s)))\<lparr>pr_up := False\<rparr>)"

section \<open>The rounds\<close>

text \<open>A round begins at \<open>t\<close> and ends at \<open>t2\<close>, when the sleep begins. A round that raises is logged and
  followed by the same sleep; the rounds of the model do not raise.\<close>

definition finish_round :: "life_cfg \<Rightarrow> bg_task \<Rightarrow> instant \<Rightarrow> instant \<Rightarrow> 'c server_process \<Rightarrow> 'c server_process" where
  "finish_round L k t t2 s = (start_task L t2 k s)\<lparr>pr_runs := (k, t) # pr_runs s\<rparr>"

definition watchdog_round ::
    "session_cfg \<Rightarrow> life_cfg \<Rightarrow> instant \<Rightarrow> (string \<Rightarrow> instant) \<Rightarrow> instant \<Rightarrow> instant \<Rightarrow> 'c server_process \<Rightarrow> 'c server_process" where
  "watchdog_round cfg L t clk t1 t2 s =
     (let m = snd (run_watchdog_once cfg t clk (pr_manager s));
          m' = snd (run_reaper_once (get_or (max_suspend_age L) 0) t1 m)
      in finish_round L WatchdogTask t t2 (s\<lparr>pr_manager := m'\<rparr>))"

definition cleanup_round ::
    "life_cfg \<Rightarrow> instant \<Rightarrow> instant \<Rightarrow> string \<Rightarrow> instant \<Rightarrow> 'c server_process \<Rightarrow> 'c server_process" where
  "cleanup_round L t t1 lid t2 s =
     (case cleanup_run_once t t1 lid (pr_memory s) of
        (_, db, report) \<Rightarrow> finish_round L CleanupTask t t2 (s\<lparr>pr_memory := db, pr_report := report\<rparr>))"

definition decay_round :: "life_cfg \<Rightarrow> instant \<Rightarrow> instant \<Rightarrow> 'c server_process \<Rightarrow> 'c server_process" where
  "decay_round L t t2 s =
     finish_round L DecayTask t t2 (s\<lparr>pr_memory := snd (decay_run_once t (pr_memory s))\<rparr>)"

definition due :: "bg_task \<Rightarrow> instant \<Rightarrow> 'c server_process \<Rightarrow> bool" where
  "due k t s = (case pr_timers s k of Due d \<Rightarrow> d \<le> t | _ \<Rightarrow> False)"

text \<open>The events of the two services that are not rounds of the tasks.\<close>

definition session_request :: "session_event \<Rightarrow> bool" where
  "session_request ev = (case ev of Watchdog _ _ \<Rightarrow> False | Reaper _ _ \<Rightarrow> False | _ \<Rightarrow> True)"

definition memory_request :: "mem_event \<Rightarrow> bool" where
  "memory_request ev = (case ev of Cleanup _ _ _ \<Rightarrow> False | Decay _ \<Rightarrow> False | _ \<Rightarrow> True)"

inductive life_step :: "'c duck \<Rightarrow> session_cfg \<Rightarrow> life_cfg \<Rightarrow> 'c server_process \<Rightarrow> 'c server_process \<Rightarrow> bool" for D cfg L where
  starting: "\<not> pr_up s \<Longrightarrow> startup D cfg L t s = (Inr (), s') \<Longrightarrow> life_step D cfg L s s'"
| watching: "due WatchdogTask t s \<Longrightarrow> t \<le> t2 \<Longrightarrow> life_step D cfg L s (watchdog_round cfg L t clk t1 t2 s)"
| cleaning: "due CleanupTask t s \<Longrightarrow> t \<le> t2 \<Longrightarrow> life_step D cfg L s (cleanup_round L t t1 lid t2 s)"
| decaying: "due DecayTask t s \<Longrightarrow> t \<le> t2 \<Longrightarrow> life_step D cfg L s (decay_round L t t2 s)"
| on_sessions: "pr_up s \<Longrightarrow> session_request ev \<Longrightarrow>
    life_step D cfg L s (s\<lparr>pr_manager := apply_session_event D cfg ev (pr_manager s)\<rparr>)"
| on_memories: "pr_up s \<Longrightarrow> memory_request ev \<Longrightarrow>
    life_step D cfg L s (s\<lparr>pr_memory := ms_db (apply_event ev \<lparr>ms_db = pr_memory s, ms_pending = pending\<rparr>)\<rparr>)"
| stopping: "pr_up s \<Longrightarrow> life_step D cfg L s (snd (shutdown s))"

inductive life_run :: "'c duck \<Rightarrow> session_cfg \<Rightarrow> life_cfg \<Rightarrow> 'c server_process \<Rightarrow> bool" for D cfg L where
  begin_life: "mem_inv db \<Longrightarrow> life_run D cfg L (new_process m db)"
| go_on: "life_run D cfg L s \<Longrightarrow> life_step D cfg L s s' \<Longrightarrow> life_run D cfg L s'"

section \<open>The pace of the tasks\<close>

definition runs_of :: "bg_task \<Rightarrow> 'c server_process \<Rightarrow> instant list" where
  "runs_of k s = map snd (filter (\<lambda>r. fst r = k) (pr_runs s))"

definition paced :: "life_cfg \<Rightarrow> 'c server_process \<Rightarrow> bool" where
  "paced L s =
     (\<forall>k. sorted_wrt (\<lambda>later earlier. earlier + task_interval L k \<le> later) (runs_of k s) \<and>
        (k \<noteq> WatchdogTask \<longrightarrow> (\<forall>x \<in> set (runs_of k s). pr_booted s + task_interval L k \<le> x)) \<and>
        (\<forall>d. pr_timers s k = Due d \<longrightarrow> pr_up s \<and>
           (\<forall>x \<in> set (runs_of k s). x + task_interval L k \<le> d) \<and>
           (k \<noteq> WatchdogTask \<longrightarrow> pr_booted s + task_interval L k \<le> d)) \<and>
        (k = WatchdogTask \<longrightarrow> max_suspend_age L = None \<longrightarrow>
           runs_of k s = [] \<and> (\<forall>d. pr_timers s k \<noteq> Due d)))"

lemma task_interval_pos: "0 \<le> task_interval L k"
  by (cases k) (simp_all add: task_interval_def)

lemma paced_same:
  assumes "paced L s" "pr_timers s' = pr_timers s" "pr_runs s' = pr_runs s" "pr_booted s' = pr_booted s" "pr_up s' = pr_up s"
  shows "paced L s'"
  using assms unfolding paced_def runs_of_def by simp

lemma paced_round:
  assumes "paced L s" "due k t s" "t \<le> t2"
  shows "paced L (finish_round L k t t2 s)"
proof -
  obtain d where d: "pr_timers s k = Due d" "d \<le> t" using assms(2) by (auto simp: due_def split: timer.splits)
  let ?s = "finish_round L k t t2 s"
  have runs: "runs_of j ?s = (if j = k then [t] else []) @ runs_of j s" for j
    by (simp add: runs_of_def finish_round_def)
  have rest: "pr_booted ?s = pr_booted s" "pr_up ?s = pr_up s"
    "pr_timers ?s = (pr_timers s)(k := Due (t2 + task_interval L k))"
    by (simp_all add: finish_round_def start_task_def set_timer_def)
  have k: "pr_up s" "\<forall>x \<in> set (runs_of k s). x + task_interval L k \<le> d"
    "k \<noteq> WatchdogTask \<longrightarrow> pr_booted s + task_interval L k \<le> d" "k = WatchdogTask \<longrightarrow> max_suspend_age L \<noteq> None"
    using assms(1) d(1) unfolding paced_def by blast+
  have later: "x + task_interval L k \<le> t" if "x \<in> set (runs_of k s)" for x using k(2) that d(2) by fastforce
  show ?thesis
    unfolding paced_def
  proof (intro allI)
    fix j
    have IH: "sorted_wrt (\<lambda>later earlier. earlier + task_interval L j \<le> later) (runs_of j s)"
      "j \<noteq> WatchdogTask \<longrightarrow> (\<forall>x \<in> set (runs_of j s). pr_booted s + task_interval L j \<le> x)"
      "\<forall>d. pr_timers s j = Due d \<longrightarrow> pr_up s \<and> (\<forall>x \<in> set (runs_of j s). x + task_interval L j \<le> d) \<and>
           (j \<noteq> WatchdogTask \<longrightarrow> pr_booted s + task_interval L j \<le> d)"
      "j = WatchdogTask \<longrightarrow> max_suspend_age L = None \<longrightarrow> runs_of j s = [] \<and> (\<forall>d. pr_timers s j \<noteq> Due d)"
      using assms(1) unfolding paced_def by blast+
    show "sorted_wrt (\<lambda>later earlier. earlier + task_interval L j \<le> later) (runs_of j ?s) \<and>
        (j \<noteq> WatchdogTask \<longrightarrow> (\<forall>x \<in> set (runs_of j ?s). pr_booted ?s + task_interval L j \<le> x)) \<and>
        (\<forall>d. pr_timers ?s j = Due d \<longrightarrow> pr_up ?s \<and>
           (\<forall>x \<in> set (runs_of j ?s). x + task_interval L j \<le> d) \<and>
           (j \<noteq> WatchdogTask \<longrightarrow> pr_booted ?s + task_interval L j \<le> d)) \<and>
        (j = WatchdogTask \<longrightarrow> max_suspend_age L = None \<longrightarrow>
           runs_of j ?s = [] \<and> (\<forall>d. pr_timers ?s j \<noteq> Due d))"
    proof (cases "j = k")
      case True
      then show ?thesis
        using IH(1,2) k later d(2) assms(3) task_interval_pos [of L k] unfolding True runs rest by force
    next
      case False
      then have "runs_of j ?s = runs_of j s" "pr_timers ?s j = pr_timers s j" by (simp_all add: runs rest)
      then show ?thesis using IH unfolding rest(1,2) by metis
    qed
  qed
qed

lemma paced_startup:
  assumes "startup D cfg L t s = (Inr (), s')"
  shows "paced L s'"
proof -
  have s': "pr_timers s' = (\<lambda>k. case k of WatchdogTask \<Rightarrow> (case max_suspend_age L of None \<Rightarrow> Raised | Some _ \<Rightarrow> Due t)
      | _ \<Rightarrow> Due (t + task_interval L k))" "pr_up s'" "pr_booted s' = t" "pr_runs s' = []"
    using assms
    by (auto simp: startup_def start_task_def start_watchdog_def set_timer_def Let_def fun_eq_iff
        split: prod.splits sum.splits option.splits bg_task.splits)
  show ?thesis
    unfolding paced_def runs_of_def s'(3,4) by (auto simp: s'(1,2) split: bg_task.splits option.splits)
qed

lemma shutdown_fields:
  "pr_timers (snd (shutdown s)) k \<noteq> Due d" "pr_runs (snd (shutdown s)) = pr_runs s"
  "pr_booted (snd (shutdown s)) = pr_booted s" "pr_memory (snd (shutdown s)) = pr_memory s" "\<not> pr_up (snd (shutdown s))"
proof -
  have stop: "pr_timers (stop_task j x) i = (if i = j \<and> (\<exists>d. pr_timers x j = Due d) then Cancelled else pr_timers x i)"
    "pr_runs (stop_task j x) = pr_runs x" "pr_booted (stop_task j x) = pr_booted x" "pr_memory (stop_task j x) = pr_memory x"
    for i j and x :: "'a server_process"
    by (auto simp: stop_task_def set_timer_def split: timer.splits)
  show "pr_timers (snd (shutdown s)) k \<noteq> Due d" by (cases k) (auto simp: shutdown_def stop)
  show "pr_runs (snd (shutdown s)) = pr_runs s" "pr_booted (snd (shutdown s)) = pr_booted s"
    "pr_memory (snd (shutdown s)) = pr_memory s" "\<not> pr_up (snd (shutdown s))" by (simp_all add: shutdown_def stop)
qed

lemma paced_shutdown:
  assumes "paced L s"
  shows "paced L (snd (shutdown s))"
proof -
  have runs: "runs_of k (snd (shutdown s)) = runs_of k s" for k by (simp add: runs_of_def shutdown_fields(2))
  show ?thesis using assms unfolding paced_def runs shutdown_fields(3) by (simp add: shutdown_fields(1))
qed

lemma paced_step: "life_step D cfg L s s' \<Longrightarrow> paced L s \<Longrightarrow> paced L s'"
proof (induction rule: life_step.induct)
  case (starting s t s')
  then show ?case by (blast intro: paced_startup)
next
  case (watching t s t2 clk t1)
  have "paced L (s\<lparr>pr_manager := m\<rparr>)" "due WatchdogTask t (s\<lparr>pr_manager := m\<rparr>)" for m
    by (rule paced_same [OF watching(3)]; simp) (use watching(1) in \<open>simp add: due_def\<close>)
  then show ?case using paced_round watching(2) unfolding watchdog_round_def Let_def by blast
next
  case (cleaning t s t2 t1 lid)
  obtain n db report where c: "cleanup_run_once t t1 lid (pr_memory s) = (n, db, report)" by (metis prod_cases3)
  have "paced L (s\<lparr>pr_memory := db, pr_report := report\<rparr>)" "due CleanupTask t (s\<lparr>pr_memory := db, pr_report := report\<rparr>)"
    by (rule paced_same [OF cleaning(3)]; simp) (use cleaning(1) in \<open>simp add: due_def\<close>)
  then show ?case using paced_round cleaning(2) by (simp add: cleanup_round_def c)
next
  case (decaying t s t2)
  have "paced L (s\<lparr>pr_memory := db\<rparr>)" "due DecayTask t (s\<lparr>pr_memory := db\<rparr>)" for db
    by (rule paced_same [OF decaying(3)]; simp) (use decaying(1) in \<open>simp add: due_def\<close>)
  then show ?case using paced_round decaying(2) unfolding decay_round_def by blast
next
  case (stopping s)
  then show ?case by (simp add: paced_shutdown)
qed (auto intro: paced_same)

lemma memory_step: "life_step D cfg L s s' \<Longrightarrow> mem_inv (pr_memory s) \<Longrightarrow> mem_inv (pr_memory s')"
proof (induction rule: life_step.induct)
  case (starting s t s')
  have "pr_memory s' = pr_memory s"
    using starting(2)
    by (auto simp: startup_def start_task_def start_watchdog_def set_timer_def Let_def
        split: prod.splits sum.splits option.splits)
  then show ?case using starting(3) by simp
next
  case (cleaning t s t2 t1 lid)
  obtain n db report where c: "cleanup_run_once t t1 lid (pr_memory s) = (n, db, report)" by (metis prod_cases3)
  show ?case using cleanup_inv [OF cleaning(3) c] by (simp add: cleanup_round_def c finish_round_def start_task_def set_timer_def)
next
  case (on_memories s ev pending)
  then show ?case using apply_event_inv [of "\<lparr>ms_db = pr_memory s, ms_pending = pending\<rparr>" ev] by simp
next
  case (stopping s)
  then show ?case by (simp add: shutdown_fields)
qed (simp_all add: watchdog_round_def decay_round_def finish_round_def start_task_def set_timer_def Let_def decay_inv)

text \<open>
  Property C39. In every run of the server, whatever requests come in between: two rounds of the same
  background task begin at least its interval apart, the first round of the cleanup and of the decay an
  interval after the start; a task waits for its next round only while the server is up; and the memories
  keep their invariant. If \<open>POND_MAX_SUSPEND_AGE\<close> is not a number the server starts all the same, no
  round of the watchdog ever runs, and the shutdown ends with the exception.
\<close>

theorem background_tasks_paced:
  assumes "life_run D cfg L s"
  shows "sorted_wrt (\<lambda>later earlier. earlier + task_interval L k \<le> later) (runs_of k s) \<and>
    (k \<noteq> WatchdogTask \<longrightarrow> (\<forall>x \<in> set (runs_of k s). pr_booted s + task_interval L k \<le> x)) \<and>
    (\<not> pr_up s \<longrightarrow> (\<forall>d. pr_timers s k \<noteq> Due d)) \<and> mem_inv (pr_memory s) \<and>
    (max_suspend_age L = None \<longrightarrow> runs_of WatchdogTask s = [] \<and>
       (\<forall>t s'. startup D cfg L t s = (Inr (), s') \<longrightarrow> pr_up s' \<and> \<not> fst (shutdown s')))"
proof -
  have "paced L s \<and> mem_inv (pr_memory s)"
    using assms
  proof (induction rule: life_run.induct)
    case (begin_life db m)
    then show ?case by (simp add: new_process_def paced_def runs_of_def)
  next
    case (go_on s s')
    then show ?case using paced_step memory_step by blast
  qed
  moreover have "pr_up s' \<and> \<not> fst (shutdown s')"
    if "max_suspend_age L = None" "startup D cfg L t s = (Inr (), s')" for t s'
    using that
    by (auto simp: startup_def shutdown_def start_task_def start_watchdog_def set_timer_def Let_def
        split: prod.splits sum.splits option.splits)
  ultimately show ?thesis unfolding paced_def by blast
qed

text \<open>A server whose limit of a suspension is unreadable: two rounds of the cleanup, none of the watchdog.\<close>

definition sample_life :: life_cfg where
  "sample_life =
     \<lparr>lf_environ = (\<lambda>k. if k = ''POND_MAX_SUSPEND_AGE'' then Some ''1h'' else None),
      lf_float = (\<lambda>s. map_option (\<lambda>n. n * 1000000) (py_int s))\<rparr>"

definition sample_server_process :: "string list server_process" where
  "sample_server_process = new_process \<lparr>sm_sessions = [], sm_store = None\<rparr> empty_db"

theorem background_tasks_paced_witness:
  "\<exists>s. life_run sample_duck sample_cfg sample_life s \<and> runs_of CleanupTask s = [sample_time + 121000000, sample_time + 60000000] \<and>
    runs_of WatchdogTask s = [] \<and> pr_up s \<and> \<not> fst (shutdown s)"
proof -
  let ?L = sample_life
  have cfg: "max_suspend_age ?L = None" "watchdog_interval ?L = Some 30000000" by code_simp+
  have load: "load_from_store sample_duck sample_cfg (pr_manager sample_server_process) = (Inr (), pr_manager sample_server_process)"
    by (simp add: load_from_store_def sample_server_process_def new_process_def)
  define s0 where "s0 = snd (startup sample_duck sample_cfg ?L sample_time sample_server_process)"
  have s0: "startup sample_duck sample_cfg ?L sample_time sample_server_process = (Inr (), s0)"
    by (simp add: s0_def startup_def load cfg Let_def)
  define s1 where "s1 = cleanup_round ?L (sample_time + 60000000) (sample_time + 60000000) ''l'' (sample_time + 61000000) s0"
  define s2 where "s2 = cleanup_round ?L (sample_time + 121000000) (sample_time + 121000000) ''l'' (sample_time + 122000000) s1"
  have d0: "pr_timers s0 CleanupTask = Due (sample_time + 60000000)" "pr_runs s0 = []" "pr_up s0"
      "pr_timers s0 WatchdogTask = Raised"
    by (simp_all add: s0_def startup_def load cfg Let_def start_task_def start_watchdog_def set_timer_def task_interval_def)
  have d1: "pr_timers s1 CleanupTask = Due (sample_time + 121000000)" "pr_runs s1 = [(CleanupTask, sample_time + 60000000)]"
      "pr_up s1" "pr_timers s1 WatchdogTask = Raised"
    by (simp_all add: s1_def cleanup_round_def finish_round_def start_task_def set_timer_def d0 task_interval_def split: prod.splits)
  have d2: "pr_runs s2 = [(CleanupTask, sample_time + 121000000), (CleanupTask, sample_time + 60000000)]" "pr_up s2"
      "pr_timers s2 WatchdogTask = Raised"
    by (simp_all add: s2_def cleanup_round_def finish_round_def start_task_def set_timer_def d1 split: prod.splits)
  have "life_run sample_duck sample_cfg ?L sample_server_process"
    unfolding sample_server_process_def by (rule life_run.begin_life) simp
  then have "life_run sample_duck sample_cfg ?L s0"
    by (rule life_run.go_on) (rule life_step.starting [OF _ s0], simp add: sample_server_process_def new_process_def)
  then have "life_run sample_duck sample_cfg ?L s1"
    unfolding s1_def by (rule life_run.go_on) (rule life_step.cleaning; simp add: due_def d0)
  then have run: "life_run sample_duck sample_cfg ?L s2"
    unfolding s2_def by (rule life_run.go_on) (rule life_step.cleaning; simp add: due_def d1)
  have "runs_of WatchdogTask s2 = []" using background_tasks_paced [OF run] cfg(1) by blast
  then show ?thesis using run d2 by (auto simp: runs_of_def shutdown_def)
qed

end
