(* ===== verification/PollClient.thy ===== *)
theory PollClient
  imports ExecutorSystem
begin

text \<open>
  \<open>ponddb_client.py\<close> of \<open>tools/mcp-server-ponddb\<close>: a client that submits a statement and polls for its
  result. The network, the monotonic clock and the sleep are parameters; the requests sent are counted
  in the world. Times are in seconds.
\<close>

section \<open>The client\<close>

definition poll_interval :: rat where
  "poll_interval = 1/2"

definition poll_max_seconds :: rat where
  "poll_max_seconds = 30"

text \<open>What is read of an answer to a poll, and the answer.\<close>

record 'a poll_data =
  pd_status :: "string option"
  pd_error_message :: "string option"
  pd_data :: 'a

text \<open>A call answers the text of an exception, of the network or for the status, or the decoded body; the
  answer to a submission is its member \<open>execution_id\<close>, if there is one.\<close>

record ('s, 'a) poll_net =
  pn_post :: "string \<Rightarrow> (string \<times> string) list \<Rightarrow> 's \<Rightarrow> (string + string option) \<times> 's"
  pn_get :: "string \<Rightarrow> 's \<Rightarrow> (string + 'a poll_data) \<times> 's"
  pn_now :: "'s \<Rightarrow> rat"
  pn_sleep :: "rat \<Rightarrow> 's \<Rightarrow> 's"

record 's poll_world =
  pw_state :: 's
  pw_requests :: nat

datatype poll_error =
    RequestError string
  | NoExecutionId
  | QueryFailed string
  | PollTimeout string

definition poll_path :: "string \<Rightarrow> string" where
  "poll_path eid = ''/pondapi/execute/'' @ eid @ ''/result''"

definition get_poll :: "('s, 'a) poll_net \<Rightarrow> string \<Rightarrow> 's poll_world \<Rightarrow> (string + 'a poll_data) \<times> 's poll_world" where
  "get_poll N eid w =
     (case pn_get N (poll_path eid) (pw_state w) of
        (r, s) \<Rightarrow> (r, \<lparr>pw_state = s, pw_requests = Suc (pw_requests w)\<rparr>))"

definition wait :: "('s, 'a) poll_net \<Rightarrow> 's poll_world \<Rightarrow> 's poll_world" where
  "wait N w = w\<lparr>pw_state := pn_sleep N poll_interval (pw_state w)\<rparr>"

partial_function (option) poll ::
    "('s, 'a) poll_net \<Rightarrow> string \<Rightarrow> rat \<Rightarrow> 's poll_world \<Rightarrow> ((poll_error + 'a) \<times> 's poll_world) option" where
  "poll N eid deadline w =
     (if \<not> pn_now N (pw_state w) < deadline
      then Some (Inl (PollTimeout (''Query '' @ eid @ '' timed out after 30s'')), w)
      else
        (case get_poll N eid w of
           (Inl e, w1) \<Rightarrow> Some (Inl (RequestError e), w1)
         | (Inr d, w1) \<Rightarrow>
             if pd_status d = Some ''complete'' then Some (Inr (pd_data d), w1)
             else if pd_status d = Some ''failed''
             then Some (Inl (QueryFailed (get_or (pd_error_message d) ''Query failed'')), w1)
             else poll N eid deadline (wait N w1)))"

definition start_poll ::
    "('s, 'a) poll_net \<Rightarrow> string \<Rightarrow> 's poll_world \<Rightarrow> ((poll_error + 'a) \<times> 's poll_world) option" where
  "start_poll N eid w = poll N eid (pn_now N (pw_state w) + poll_max_seconds) w"

definition execute_and_wait ::
    "('s, 'a) poll_net \<Rightarrow> string \<Rightarrow> 's poll_world \<Rightarrow> ((poll_error + 'a) \<times> 's poll_world) option" where
  "execute_and_wait N sql w =
     (case pn_post N ''/pondapi/execute'' [(''sql'', sql)] (pw_state w) of
        (Inl e, s) \<Rightarrow> Some (Inl (RequestError e), \<lparr>pw_state = s, pw_requests = Suc (pw_requests w)\<rparr>)
      | (Inr None, s) \<Rightarrow> Some (Inl NoExecutionId, \<lparr>pw_state = s, pw_requests = Suc (pw_requests w)\<rparr>)
      | (Inr (Some eid), s) \<Rightarrow> start_poll N eid \<lparr>pw_state = s, pw_requests = Suc (pw_requests w)\<rparr>)"

section \<open>The loop ends\<close>

text \<open>What is used of the clock: requests do not set it back, and a sleep takes its time.\<close>

definition clock_runs :: "('s, 'a) poll_net \<Rightarrow> bool" where
  "clock_runs N =
     (\<forall>s. (\<forall>url. pn_now N s \<le> pn_now N (snd (pn_get N url s))) \<and>
        pn_now N s + poll_interval \<le> pn_now N (pn_sleep N poll_interval s))"

lemma round_time:
  assumes "clock_runs N" "get_poll N eid w = (r, w1)"
  shows "pn_now N (pw_state w) + poll_interval \<le> pn_now N (pw_state (wait N w1))"
    "pn_now N (pw_state w) \<le> pn_now N (pw_state w1)" "pw_requests (wait N w1) = Suc (pw_requests w)"
    "pw_requests w1 = Suc (pw_requests w)"
proof -
  have w1: "pw_state w1 = snd (pn_get N (poll_path eid) (pw_state w))"
    "pw_requests w1 = Suc (pw_requests w)"
    using assms(2) by (auto simp: get_poll_def split: prod.splits)
  show later: "pn_now N (pw_state w) \<le> pn_now N (pw_state w1)" using assms(1) w1(1) by (simp add: clock_runs_def)
  have "pn_now N (pw_state w1) + poll_interval \<le> pn_now N (pw_state (wait N w1))"
    using assms(1) by (simp add: clock_runs_def wait_def)
  with later show "pn_now N (pw_state w) + poll_interval \<le> pn_now N (pw_state (wait N w1))" by linarith
  show "pw_requests (wait N w1) = Suc (pw_requests w)" "pw_requests w1 = Suc (pw_requests w)"
    using w1(2) by (simp_all add: wait_def)
qed

text \<open>Every round but the last takes half a second of the time that is left.\<close>

lemma poll_returns:
  assumes "clock_runs N" "deadline \<le> pn_now N (pw_state w) + of_nat n * poll_interval"
  shows "\<exists>r w'. poll N eid deadline w = Some (r, w') \<and> pw_requests w' \<le> pw_requests w + n \<and>
    ((\<exists>e. r = Inl (PollTimeout e)) \<longrightarrow> deadline \<le> pn_now N (pw_state w'))"
  using assms(2)
proof (induction n arbitrary: w)
  case 0
  then show ?case by (subst poll.simps) simp
next
  case (Suc n)
  show ?case
  proof (cases "pn_now N (pw_state w) < deadline")
    case False
    then show ?thesis by (subst poll.simps) simp
  next
    case True
    obtain r w1 where g: "get_poll N eid w = (r, w1)" by (metis prod.collapse)
    note t = round_time [OF assms(1) g]
    have "deadline \<le> pn_now N (pw_state (wait N w1)) + of_nat n * poll_interval"
      using Suc.prems t(1) by (simp add: algebra_simps)
    from Suc.IH [OF this] obtain r' w' where
      again: "poll N eid deadline (wait N w1) = Some (r', w')" "pw_requests w' \<le> pw_requests (wait N w1) + n"
        "(\<exists>e. r' = Inl (PollTimeout e)) \<longrightarrow> deadline \<le> pn_now N (pw_state w')" by blast
    show ?thesis
    proof (cases r)
      case (Inl e)
      then show ?thesis using True g t(4) by (subst poll.simps) simp
    next
      case (Inr d)
      then show ?thesis using True g t again by (subst poll.simps) simp
    qed
  qed
qed

section \<open>Against the server\<close>

text \<open>The body of a poll has no member \<open>error_message\<close>.\<close>

definition poll_answer :: "exec_result http \<Rightarrow> string + exec_result poll_data" where
  "poll_answer r =
     (case r of
        Inl (HTTPException n d) \<Rightarrow> Inl d
      | Inr x \<Rightarrow> Inr \<lparr>pd_status = Some (xr_status x), pd_error_message = None, pd_data = x\<rparr>)"

text \<open>The network is the server: every state has a table of executions, which satisfies the invariant of
  \<open>ExecutorSystem\<close>, and a poll is answered from it.\<close>

definition answers_polls :: "('s, exec_result) poll_net \<Rightarrow> string \<Rightarrow> claims \<Rightarrow> ('s \<Rightarrow> execution list) \<Rightarrow> bool" where
  "answers_polls N eid auth table =
     (\<forall>s. (\<forall>r \<in> set (table s). row_wf r) \<and>
        fst (pn_get N (poll_path eid) s) =
          poll_answer (get_execution_result eid auth False (table s) (table s)))"

lemma poll_answer_status:
  assumes "answers_polls N eid auth table" "get_poll N eid w = (Inr d, w1)"
  shows "\<exists>r. fetch_row eid (table (pw_state w)) = Some r \<and> pd_status d = Some (ex_status r) \<and>
    pd_data d = row_to_result r \<and>
    ex_status r \<in> {''pending'', ''complete'', ''error''}"
proof -
  let ?T = "table (pw_state w)"
  have "poll_answer (get_execution_result eid auth False ?T ?T) = Inr d"
    using assms unfolding answers_polls_def get_poll_def by (metis (no_types, lifting) fst_conv prod.case_eq_if prod.inject)
  then obtain r where r: "fetch_row eid ?T = Some r" "d = \<lparr>pd_status = Some (ex_status r), pd_error_message = None,
      pd_data = row_to_result r\<rparr>"
    by (auto simp: poll_answer_def get_execution_result_def row_to_result_def Let_def
        split: sum.splits http_exc.splits option.splits if_splits)
  have "r \<in> set ?T" using r(1) by (auto simp: fetch_row_def dest: find_SomeD)
  then have "row_wf r" using assms(1) by (simp add: answers_polls_def)
  then have "ex_status r \<in> {''pending'', ''complete'', ''error''}" unfolding row_wf_def by blast
  then show ?thesis using r by simp
qed

text \<open>A client that polls gets the result of a complete execution and never the error of a failed one,
  whose status the server calls \<open>error\<close>.\<close>

lemma poll_on_server:
  assumes server: "answers_polls N eid auth table" and ret: "poll N eid deadline w = Some r"
  shows "(\<forall>e w'. r \<noteq> (Inl (QueryFailed e), w')) \<and> (\<forall>x w'. r = (Inr x, w') \<longrightarrow> (\<exists>s row. fetch_row eid (table s) = Some row \<and> ex_status row = ''complete'' \<and> x = row_to_result row))"
proof -
  have "(N', eid') = (N, eid) \<longrightarrow> (\<forall>e w'. r \<noteq> (Inl (QueryFailed e), w')) \<and>
      (\<forall>x w'. r = (Inr x, w') \<longrightarrow> (\<exists>s row. fetch_row eid (table s) = Some row \<and> ex_status row = ''complete'' \<and> x = row_to_result row))"
    if "poll N' eid' deadline w = Some r" for N' eid'
  proof (rule poll.raw_induct [where P = "\<lambda>N' eid' d w r. (N', eid') = (N, eid) \<longrightarrow>
      (\<forall>e w'. r \<noteq> (Inl (QueryFailed e), w')) \<and> (\<forall>x w'. r = (Inr x, w') \<longrightarrow> (\<exists>s row. fetch_row eid (table s) = Some row \<and> ex_status row = ''complete'' \<and> x = row_to_result row))", OF _ that])
    fix f N' eid' deadline w r
    assume IH: "\<And>N' eid' d w r. f N' eid' d w = Some r \<Longrightarrow> (N', eid') = (N, eid) \<longrightarrow>
        (\<forall>e w'. r \<noteq> (Inl (QueryFailed e), w')) \<and> (\<forall>x w'. r = (Inr x, w') \<longrightarrow> (\<exists>s row. fetch_row eid (table s) = Some row \<and> ex_status row = ''complete'' \<and> x = row_to_result row))"
      and eq: "(if \<not> pn_now N' (pw_state w) < deadline
        then Some (Inl (PollTimeout (''Query '' @ eid' @ '' timed out after 30s'')), w)
        else (case get_poll N' eid' w of
           (Inl e, w1) \<Rightarrow> Some (Inl (RequestError e), w1)
         | (Inr d, w1) \<Rightarrow>
             if pd_status d = Some ''complete'' then Some (Inr (pd_data d), w1)
             else if pd_status d = Some ''failed''
             then Some (Inl (QueryFailed (get_or (pd_error_message d) ''Query failed'')), w1)
             else f N' eid' deadline (wait N' w1))) = Some r"
    show "(N', eid') = (N, eid) \<longrightarrow>
        (\<forall>e w'. r \<noteq> (Inl (QueryFailed e), w')) \<and> (\<forall>x w'. r = (Inr x, w') \<longrightarrow> (\<exists>s row. fetch_row eid (table s) = Some row \<and> ex_status row = ''complete'' \<and> x = row_to_result row))"
    proof
      assume N': "(N', eid') = (N, eid)"
      obtain a w1 where g: "get_poll N eid w = (a, w1)" by (metis prod.collapse)
      show "(\<forall>e w'. r \<noteq> (Inl (QueryFailed e), w')) \<and> (\<forall>x w'. r = (Inr x, w') \<longrightarrow> (\<exists>s row. fetch_row eid (table s) = Some row \<and> ex_status row = ''complete'' \<and> x = row_to_result row))"
      proof (cases a)
        case (Inl e)
        then show ?thesis using eq N' g by (auto split: if_splits)
      next
        case (Inr d)
        then obtain row where row: "fetch_row eid (table (pw_state w)) = Some row" "pd_status d = Some (ex_status row)"
            "pd_data d = row_to_result row"
            "ex_status row \<in> {''pending'', ''complete'', ''error''}"
          using poll_answer_status [OF server] g by blast
        show ?thesis using eq N' g Inr row IH by (auto split: if_splits)
      qed
    qed
  qed
  then show ?thesis using ret by blast
qed

text \<open>
  Property C40. Polling ends: after at most sixty requests it answers, and when it gives up half a
  minute has passed. Against the server it answers complete executions only, and the client never
  reports the error of a failed one: it looks for the status \<open>failed\<close>, which the server calls
  \<open>error\<close>, and waits for the time to run out.
\<close>

theorem polling_ends:
  assumes "clock_runs N"
  shows "\<exists>r w'. start_poll N eid w = Some (r, w') \<and> pw_requests w' \<le> pw_requests w + 60 \<and>
    ((\<exists>e. r = Inl (PollTimeout e)) \<longrightarrow> pn_now N (pw_state w) + poll_max_seconds \<le> pn_now N (pw_state w')) \<and>
    (answers_polls N eid auth table \<longrightarrow>
       (\<forall>e. r \<noteq> Inl (QueryFailed e)) \<and> (\<forall>x. r = Inr x \<longrightarrow> (\<exists>s row. fetch_row eid (table s) = Some row \<and> ex_status row = ''complete'' \<and> x = row_to_result row)))"
proof -
  have "pn_now N (pw_state w) + poll_max_seconds \<le> pn_now N (pw_state w) + of_nat 60 * poll_interval"
    by (simp add: poll_max_seconds_def poll_interval_def)
  from poll_returns [OF assms this, of eid] obtain r w' where
    r: "poll N eid (pn_now N (pw_state w) + poll_max_seconds) w = Some (r, w')" "pw_requests w' \<le> pw_requests w + 60"
      "(\<exists>e. r = Inl (PollTimeout e)) \<longrightarrow> pn_now N (pw_state w) + poll_max_seconds \<le> pn_now N (pw_state w')"
    by blast
  have "(\<forall>e. r \<noteq> Inl (QueryFailed e)) \<and> (\<forall>x. r = Inr x \<longrightarrow> (\<exists>s row. fetch_row eid (table s) = Some row \<and> ex_status row = ''complete'' \<and> x = row_to_result row))"
    if "answers_polls N eid auth table"
    using poll_on_server [OF that r(1)] by blast
  then show ?thesis using r unfolding start_poll_def by blast
qed

text \<open>An execution that failed at once: the client asks sixty times.\<close>

definition failed_row :: execution where
  "failed_row =
     \<lparr>ex_id = ''e'', ex_tenant = ''default'', ex_session = ''s'', ex_sql = ''boom'', ex_status = ''error'',
      ex_columns = None, ex_rows = None, ex_rowcount = None, ex_elapsed_ms = Some 1,
      ex_error = Some ''syntax'', ex_created_at = ''t''\<rparr>"

definition failing_net :: "(rat, exec_result) poll_net" where
  "failing_net =
     \<lparr>pn_post = (\<lambda>_ _ s. (Inr (Some ''e''), s)),
      pn_get = (\<lambda>_ s. (poll_answer (get_execution_result ''e'' no_claims False [failed_row] [failed_row]), s)),
      pn_now = (\<lambda>s. s), pn_sleep = (\<lambda>d s. s + d)\<rparr>"

theorem polling_ends_witness:
  "\<exists>r w'. start_poll failing_net ''e'' \<lparr>pw_state = 0, pw_requests = 0\<rparr> = Some (r, w') \<and> pw_requests w' \<le> 60 \<and>
    (\<forall>e. r \<noteq> Inl (QueryFailed e)) \<and> \<not> is_ok r"
proof -
  have clock: "clock_runs failing_net" by (simp add: clock_runs_def failing_net_def poll_interval_def)
  have wf: "row_wf failed_row" by (simp add: row_wf_def failed_row_def)
  then have server: "answers_polls failing_net ''e'' no_claims (\<lambda>_. [failed_row])"
    by (simp add: answers_polls_def failing_net_def)
  from polling_ends [OF clock, of "''e''" "\<lparr>pw_state = 0, pw_requests = 0\<rparr>" no_claims "\<lambda>_. [failed_row]"] obtain r w' where
    r: "start_poll failing_net ''e'' \<lparr>pw_state = 0, pw_requests = 0\<rparr> = Some (r, w')" "pw_requests w' \<le> 60"
      "\<forall>e. r \<noteq> Inl (QueryFailed e)" "\<forall>x. r = Inr x \<longrightarrow>
        (\<exists>row. fetch_row ''e'' [failed_row] = Some row \<and> ex_status row = ''complete'' \<and> x = row_to_result row)"
    using server by auto
  have "\<not> is_ok r"
    using r(4) by (cases r) (auto simp: fetch_row_def failed_row_def)
  then show ?thesis using r by blast
qed

end
