(* ===== verification/Monitoring.thy ===== *)
theory Monitoring
  imports AppQuery Website Middleware MemoryTasks
begin

text \<open>
  What the server tells about itself: the health, metrics and usage endpoints of \<open>app.py\<close>, the schema of
  a session, the history as JSON or as a page of the website, and the command \<open>pond check\<close> of
  \<open>cli.py\<close>.
\<close>

section \<open>Health, metrics and usage\<close>

definition session_count :: "'c manager \<Rightarrow> nat" where
  "session_count m = length (sm_sessions m)"

record health_answer =
  ha_status :: string
  ha_version :: string
  ha_sessions :: nat

definition server_version :: string where
  "server_version = ''1.0.0''"

definition health :: "'c manager \<Rightarrow> health_answer" where
  "health m = \<lparr>ha_status = ''ok'', ha_version = server_version, ha_sessions = session_count m\<rparr>"

definition health_cleanup :: "cleanup_task \<Rightarrow> string option \<times> nat \<times> string" where
  "health_cleanup task = cleanup_health task"

definition metrics_route :: "(rat \<Rightarrow> string) \<Rightarrow> 'c query_sys \<Rightarrow> string list" where
  "metrics_route float s = render_metrics float (session_count (qy_manager s)) (qy_metrics s)"

record usage_stats =
  us_active_sessions :: nat
  us_total_queries :: nat
  us_compute_ms :: rat

definition get_usage_stats :: "'c query_sys \<Rightarrow> usage_stats" where
  "get_usage_stats s =
     \<lparr>us_active_sessions = session_count (qy_manager s), us_total_queries = mt_count (qy_metrics s),
      us_compute_ms = mt_units (qy_metrics s)\<rparr>"

section \<open>The schema of a session\<close>

text \<open>The two statements of the handler, run by DuckDB on a connection: the names of the tables, and the
  names and types of the columns of a table. The left value is the text of an exception.\<close>

record 'c catalog =
  cg_tables :: "'c \<Rightarrow> (string + string list) \<times> 'c"
  cg_columns :: "string \<Rightarrow> 'c \<Rightarrow> (string + (string \<times> string) list) \<times> 'c"

type_synonym table_schema = "string \<times> (string \<times> string) list"

fun read_tables :: "'c catalog \<Rightarrow> string list \<Rightarrow> 'c \<Rightarrow> (string + table_schema list) \<times> 'c" where
  "read_tables K [] c = (Inr [], c)"
| "read_tables K (n # ns) c =
     (case cg_columns K n c of
        (Inl e, c1) \<Rightarrow> (Inl e, c1)
      | (Inr cols, c1) \<Rightarrow>
          (case read_tables K ns c1 of
             (Inl e, c2) \<Rightarrow> (Inl e, c2)
           | (Inr rest, c2) \<Rightarrow> (Inr ((n, cols) # rest), c2)))"

definition read_schema :: "'c catalog \<Rightarrow> 'c \<Rightarrow> (string + table_schema list) \<times> 'c" where
  "read_schema K c = (case cg_tables K c of (Inl e, c1) \<Rightarrow> (Inl e, c1) | (Inr ns, c1) \<Rightarrow> read_tables K ns c1)"

text \<open>The claims of the caller are required and not read.\<close>

definition get_schema :: "'c catalog \<Rightarrow> claims \<Rightarrow> string \<Rightarrow> 'c manager \<Rightarrow> table_schema list http \<times> 'c manager" where
  "get_schema K auth sid m =
     (case find_sess sid m of
        None \<Rightarrow> (Inl (HTTPException 404 (''Session not found: '' @ sid)), m)
      | Some s \<Rightarrow>
          (case s_conn s of
             None \<Rightarrow> (Inl (HTTPException 404 (''Session not active: '' @ sid)), m)
           | Some c \<Rightarrow>
               (case read_schema K c of
                  (Inl e, c1) \<Rightarrow> (Inl (HTTPException 500 e), set_sess (s\<lparr>s_conn := Some c1\<rparr>) m)
                | (Inr schema, c1) \<Rightarrow> (Inr schema, set_sess (s\<lparr>s_conn := Some c1\<rparr>) m))))"

section \<open>The history as a page\<close>

record history_page =
  hp_history :: "history_row list"
  hp_status_filter :: string
  hp_limit :: int
  hp_offset :: int
  hp_current_user :: current_user
  hp_workgroups :: "workgroup list"

datatype history_answer = HistoryJson "history_row list" | HistoryHtml "history_page page"

record history_query =
  hq_accept :: string
  hq_status :: "string option"
  hq_start :: "string option"
  hq_end :: "string option"
  hq_limit :: int
  hq_offset :: int

definition history_html :: "web_env \<Rightarrow> request \<Rightarrow> history_query \<Rightarrow> workgroup list \<Rightarrow> history_row list \<Rightarrow> history_answer" where
  "history_html E rq q wgs found =
     HistoryHtml
       (case signed_in E rq of
          None \<Rightarrow> Redirect 302 ''/login''
        | Some data \<Rightarrow>
            Page 200 \<lparr>hp_history = found, hp_status_filter = or_else (hq_status q) [], hp_limit = hq_limit q,
              hp_offset = hq_offset q, hp_current_user = build_current_user data, hp_workgroups = wgs\<rparr>)"

text \<open>\<open>GET /history\<close> with its dependency \<open>require_auth\<close>.\<close>

definition history_route ::
    "auth_deps \<Rightarrow> web_env \<Rightarrow> (string \<Rightarrow> string + string) \<Rightarrow> string list \<Rightarrow> int \<Rightarrow> request \<Rightarrow> history_query \<Rightarrow>
      workgroup list \<Rightarrow> meta_db \<Rightarrow> history_answer http" where
  "history_route A E read_ts bl now rq q wgs db =
     (case fst (require_auth A (we_auth E) bl now rq) of
        Inl e \<Rightarrow> Inl e
      | Inr auth \<Rightarrow>
          (case get_history read_ts auth (hq_status q) (hq_start q) (hq_end q) (hq_limit q) (hq_offset q) db of
             Inl e \<Rightarrow> Inl e
           | Inr found \<Rightarrow>
               Inr (if contains_sub ''text/html'' (hq_accept q) then history_html E rq q wgs found
                    else HistoryJson found)))"

section \<open>The command \<open>pond check\<close>\<close>

definition env_checks :: "(string \<times> bool) list" where
  "env_checks =
     [(''POND_API_KEY'', True), (''POND_JWT_SECRET'', True), (''POND_WEBSITE_SESSION_SECRET'', False),
      (''POND_GOOGLE_CLIENT_ID'', False), (''POND_GOOGLE_CLIENT_SECRET'', False), (''POND_GITHUB_CLIENT_ID'', False),
      (''POND_GITHUB_CLIENT_SECRET'', False), (''POND_OAUTH_SECRET'', False), (''POND_SMTP_HOST'', False),
      (''POND_SMTP_USER'', False), (''POND_SMTP_PASSWORD'', False), (''POND_PONDAPI_RATE_LIMIT'', False)]"

definition masked :: "string \<Rightarrow> string" where
  "masked v = take 3 v @ replicate (length v - 3) CHR ''*''"

datatype check_line = GivenVar string string | MissingVar string | OptionalVar string

definition check_var :: "(string \<Rightarrow> string option) \<Rightarrow> string \<times> bool \<Rightarrow> check_line" where
  "check_var environ vr =
     (case vr of (var, required) \<Rightarrow>
        let v = get_or (environ var) []
        in if v \<noteq> [] then GivenVar var (masked v) else if required then MissingVar var else OptionalVar var)"

text \<open>The lines and the exit code.\<close>

definition check_env :: "(string \<Rightarrow> string option) \<Rightarrow> check_line list \<times> int" where
  "check_env environ =
     (let ls = map (check_var environ) env_checks
      in (ls, if \<exists>l \<in> set ls. (case l of MissingVar _ \<Rightarrow> True | _ \<Rightarrow> False) then 1 else 0))"

section \<open>Whose history the page shows\<close>

lemma get_history_rows:
  assumes "get_history read_ts auth status start until limit offset db = Inr found" "r \<in> set found"
  shows "r \<in> set (md_history db) \<and> hr_tenant_id r = get_or (c_tenant_id auth) ''default'' \<and>
    (\<forall>st. status = Some st \<longrightarrow> hr_status r = st)"
proof -
  obtain a b where f: "found = get_query_history None (Some (get_or (c_tenant_id auth) ''default'')) status a b limit offset db"
    using assms(1) by (auto simp: get_history_def Let_def split: if_splits sum.splits)
  from subsetD [OF set_sql_limit_offset assms(2) [unfolded f get_query_history_def]]
  have "r \<in> set (filter (history_matches None (Some (get_or (c_tenant_id auth) ''default'')) status a b) (md_history db))"
    by (simp only: set_sort_by)
  then show ?thesis by (cases status) (auto simp: history_matches_def)
qed

text \<open>A page for a caller without other credentials is of the tenant its cookie names.\<close>

lemma cookie_only:
  assumes "authenticate A (we_auth E) bl now rq = Inr auth" "ad_mac A = we_mac E" "ad_load A = cookie_data (we_loads E)"
    "signed_in E rq = Some data" "rq_api_key rq = None" "rq_authorization rq = None"
  shows "get_or (c_tenant_id auth) ''default'' = cu_tenant_id (build_current_user data)"
proof -
  have v: "truthy (rq_session_cookie rq)" "verify_session E (the (rq_session_cookie rq)) = Some data" "data \<noteq> []"
    using assms(4) by (auto simp: signed_in_def cookie_session_def split: option.splits if_splits)
  then obtain i items where "data = i # items" by (cases data) auto
  then have "auth = default_claims (get_or (map_of data ''tenant_id'') ''default'')"
    using assms(1) v
    by (simp add: authenticate_def bearer_prefix_def Let_def assms(2,3,5,6) verify_session_is_jwt [symmetric])
  then show ?thesis by (simp add: default_claims_def build_current_user_def item_or_def)
qed

text \<open>
  The history shows the queries of the tenant of the credentials, in the status asked for, as JSON or as
  a page. A page is shown to callers with a session cookie only; without other credentials the queries
  are those of the user it names. A caller who also sends the API key gets a page that names the user
  of the cookie over the queries of the tenant \<open>default\<close>.
\<close>

theorem history_is_of_tenant:
  assumes "history_route A E read_ts bl now rq q wgs db = Inr ans"
    and "ad_mac A = we_mac E" and "ad_load A = cookie_data (we_loads E)"
  obtains auth found where "authenticate A (we_auth E) bl now rq = Inr auth"
    and "\<forall>r \<in> set found. r \<in> set (md_history db) \<and> hr_tenant_id r = get_or (c_tenant_id auth) ''default'' \<and>
      (\<forall>st. hq_status q = Some st \<longrightarrow> hr_status r = st)"
    and "ans = HistoryJson found \<or> ans = HistoryHtml (Redirect 302 ''/login'') \<and> signed_in E rq = None \<or>
      (\<exists>pg data. ans = HistoryHtml (Page 200 pg) \<and> hp_history pg = found \<and> signed_in E rq = Some data \<and>
         hp_current_user pg = build_current_user data \<and>
         (rq_api_key rq = None \<and> rq_authorization rq = None \<longrightarrow>
            get_or (c_tenant_id auth) ''default'' = cu_tenant_id (hp_current_user pg)))"
proof -
  from assms(1) obtain auth found where a: "authenticate A (we_auth E) bl now rq = Inr auth"
    "get_history read_ts auth (hq_status q) (hq_start q) (hq_end q) (hq_limit q) (hq_offset q) db = Inr found"
    "ans = (if contains_sub ''text/html'' (hq_accept q) then history_html E rq q wgs found else HistoryJson found)"
    unfolding history_route_def require_auth_def Let_def by (auto split: sum.splits)
  have "history_html E rq q wgs found = HistoryHtml (Redirect 302 ''/login'') \<and> signed_in E rq = None \<or>
      (\<exists>pg data. history_html E rq q wgs found = HistoryHtml (Page 200 pg) \<and> hp_history pg = found \<and> signed_in E rq = Some data \<and>
         hp_current_user pg = build_current_user data \<and>
         (rq_api_key rq = None \<and> rq_authorization rq = None \<longrightarrow>
            get_or (c_tenant_id auth) ''default'' = cu_tenant_id (hp_current_user pg)))"
  proof (cases "signed_in E rq")
    case None
    then show ?thesis by (simp add: history_html_def)
  next
    case (Some data)
    then show ?thesis using cookie_only [OF a(1) assms(2,3) Some] by (simp add: history_html_def)
  qed
  then have "ans = HistoryJson found \<or> ans = HistoryHtml (Redirect 302 ''/login'') \<and> signed_in E rq = None \<or>
      (\<exists>pg data. ans = HistoryHtml (Page 200 pg) \<and> hp_history pg = found \<and> signed_in E rq = Some data \<and>
         hp_current_user pg = build_current_user data \<and>
         (rq_api_key rq = None \<and> rq_authorization rq = None \<longrightarrow>
            get_or (c_tenant_id auth) ''default'' = cu_tenant_id (hp_current_user pg)))"
    unfolding a(3) by (cases "contains_sub ''text/html'' (hq_accept q)") (simp_all only: if_True if_False simp_thms)
  with a(1) get_history_rows [OF a(2)] show ?thesis by (intro that) blast+
qed

section \<open>The schema is the catalog\<close>

text \<open>The documented behaviour of the two statements: they answer what the connection holds and do not
  change it.\<close>

definition answers_catalog :: "'c catalog \<Rightarrow> ('c \<Rightarrow> table_schema list) \<Rightarrow> bool" where
  "answers_catalog K tables =
     (\<forall>c. cg_tables K c = (Inr (map fst (tables c)), c) \<and>
        (\<forall>(n, cols) \<in> set (tables c). cg_columns K n c = (Inr cols, c)))"

lemma read_tables_catalog:
  "(\<And>n cols. (n, cols) \<in> set ts \<Longrightarrow> cg_columns K n c = (Inr cols, c)) \<Longrightarrow> read_tables K (map fst ts) c = (Inr ts, c)"
proof (induction ts)
  case (Cons t ts)
  obtain n cols where t: "t = (n, cols)" by (cases t)
  have "cg_columns K n c = (Inr cols, c)" using Cons.prems [of n cols] t by simp
  moreover have "read_tables K (map fst ts) c = (Inr ts, c)" using Cons.prems by (intro Cons.IH) simp
  ultimately show ?case by (simp add: t)
qed simp

lemma upsert_same: "x \<in> set xs \<Longrightarrow> distinct (map k xs) \<Longrightarrow> upsert_by k x xs = xs"
  by (force simp: upsert_by_def update_where_def map_idI inj_on_def distinct_map)

lemma set_sess_same:
  assumes "mgr_inv safe m" "find_sess sid m = Some s"
  shows "set_sess s m = m"
proof -
  have "s \<in> set (sm_sessions m)" using assms(2) by (auto simp: find_sess_def dest: find_SomeD)
  then show ?thesis using assms(1) by (simp add: set_sess_def put_sess_def mgr_inv_def upsert_same)
qed

text \<open>
  The schema of a session with a connection is the list of its tables with their columns, for
  every caller that is authenticated, whatever its tenant and workgroup; a session that is suspended
  or unknown answers 404. The sessions are left as they were: unlike a query, a request for the schema
  does not wake a session.
\<close>

theorem schema_is_catalog:
  assumes "answers_catalog K tables" and "mgr_inv safe m"
  shows "get_schema K auth sid m =
    (case find_sess sid m of
       None \<Rightarrow> Inl (HTTPException 404 (''Session not found: '' @ sid))
     | Some s \<Rightarrow>
         (case s_conn s of
            None \<Rightarrow> Inl (HTTPException 404 (''Session not active: '' @ sid))
          | Some c \<Rightarrow> Inr (tables c)), m)"
proof -
  have schema: "read_schema K c = (Inr (tables c), c)" for c
  proof -
    have "cg_columns K n c = (Inr cols, c)" if "(n, cols) \<in> set (tables c)" for n cols
      using assms(1) that unfolding answers_catalog_def by blast
    moreover have "cg_tables K c = (Inr (map fst (tables c)), c)" using assms(1) by (simp add: answers_catalog_def)
    ultimately show ?thesis using read_tables_catalog [of "tables c" K c] by (simp add: read_schema_def)
  qed
  have same: "set_sess (s\<lparr>s_conn := Some c\<rparr>) m = m" if "find_sess sid m = Some s" "s_conn s = Some c" for s c
    using set_sess_same [OF assms(2) that(1)] that(2) by (metis (full_types) session.surjective session.update_convs(6))
  show ?thesis by (simp add: get_schema_def schema same split: option.splits)
qed

section \<open>What \<open>pond check\<close> promises\<close>

lemma masked_facts:
  "length (masked v) = length v" "take 3 (masked v) = take 3 v" "length v \<le> 3 \<Longrightarrow> masked v = v"
  "3 \<le> i \<Longrightarrow> i < length v \<Longrightarrow> masked v ! i = CHR ''*''"
  by (simp_all add: masked_def nth_append)

lemma check_env_exit:
  "snd (check_env environ) =
    (if truthy (environ ''POND_API_KEY'') \<and> truthy (environ ''POND_JWT_SECRET'') then 0 else 1)"
proof -
  have missing: "(case check_var environ (var, required) of MissingVar _ \<Rightarrow> True | _ \<Rightarrow> False) \<longleftrightarrow>
      required \<and> \<not> truthy (environ var)" for var required
    by (simp add: check_var_def truthy_def get_or_def Let_def split: option.splits)
  have "(\<exists>l \<in> set (map (check_var environ) env_checks). (case l of MissingVar _ \<Rightarrow> True | _ \<Rightarrow> False)) \<longleftrightarrow>
      (\<exists>vr \<in> set env_checks. snd vr \<and> \<not> truthy (environ (fst vr)))"
    using missing by (metis (no_types, lifting) imageE imageI list.set_map prod.collapse)
  also have "\<dots> \<longleftrightarrow> \<not> (truthy (environ ''POND_API_KEY'') \<and> truthy (environ ''POND_JWT_SECRET''))"
    unfolding env_checks_def by simp
  finally show ?thesis unfolding check_env_def Let_def by simp
qed

text \<open>
  When \<open>pond check\<close> succeeds and no credentials come from files, the server issues tokens and
  accepts the configured key on its protected routes unless it is blank; what is printed of a value has its
  length and shows its first three characters, all of it when it is no longer. A server
  that takes its key from a file works, but the check fails.
\<close>

theorem pond_check_sound:
  assumes "e_api_key env = get_or (environ ''POND_API_KEY'') []" and "e_secret env = get_or (environ ''POND_JWT_SECRET'') []"
    and "e_secret_file env = []"
  shows "(snd (check_env environ) = 0 \<and> e_api_key_file env = [] \<longrightarrow>
      is_ok (create_access_token L env now jti tenant scopes role) \<and>
      (\<not> blank (e_api_key env) \<longrightarrow> require_api_key env (Some (e_api_key env)) = Inr ())) \<and>
    (\<forall>var v. GivenVar var v \<in> set (fst (check_env environ)) \<longrightarrow>
      (\<exists>x. environ var = Some x \<and> length v = length x \<and> take 3 v = take 3 x \<and> (length x \<le> 3 \<longrightarrow> v = x))) \<and>
    (environ ''POND_API_KEY'' = None \<longrightarrow> snd (check_env environ) = 1)"
proof (intro conjI impI allI)
  assume c: "snd (check_env environ) = 0 \<and> e_api_key_file env = []"
  then have set: "e_api_key env \<noteq> []" "e_secret env \<noteq> []"
    using assms by (auto simp: check_env_exit truthy_def get_or_def split: if_splits option.splits)
  then show "is_ok (create_access_token L env now jti tenant scopes role)"
    using assms(3) by (simp add: create_access_token_def get_secret_def)
  assume "\<not> blank (e_api_key env)"
  then show "require_api_key env (Some (e_api_key env)) = Inr ()"
    using c set by (simp add: require_api_key_def get_api_key_def truthy_def blank_def)
next
  fix var v
  assume "GivenVar var v \<in> set (fst (check_env environ))"
  then obtain vr where "check_var environ vr = GivenVar var v" by (auto simp: check_env_def Let_def)
  then show "\<exists>x. environ var = Some x \<and> length v = length x \<and> take 3 v = take 3 x \<and> (length x \<le> 3 \<longrightarrow> v = x)"
    by (cases vr; cases "environ (fst vr)")
      (auto simp: check_var_def Let_def get_or_def masked_facts split: if_splits)
next
  assume "environ ''POND_API_KEY'' = None"
  then show "snd (check_env environ) = 1" by (simp add: check_env_exit truthy_def)
qed

end
