(* ===== verification/InviteMail.thy ===== *)
theory InviteMail
  imports Invites
begin

text \<open>
  From an invitation to its acceptance: the e-mail of \<open>send_invite_email\<close>, its delivery by
  \<open>create_invite\<close>, and the routes of \<open>make_invite_router\<close> the link in it meets. The delivery by SMTP
  itself is outside; whatever it raises, the creation is answered.
\<close>

section \<open>The e-mail\<close>

text \<open>What is handed to the SMTP server; the login follows \<open>STARTTLS\<close>.\<close>

record invite_mail =
  ml_host :: string
  ml_port :: int
  ml_login :: "(string \<times> string) option"
  ml_from :: string
  ml_to :: "string list"
  ml_subject :: string
  ml_body :: string

datatype mail_result = NoMail | BadPort | Mail invite_mail

definition accept_link :: "(string \<Rightarrow> string option) \<Rightarrow> string \<Rightarrow> string" where
  "accept_link environ token =
     get_or (environ ''POND_BASE_URL'') ''http://localhost:8432'' @ ''/invites/'' @ token @ ''/accept''"

definition mail_body :: "string \<Rightarrow> string \<Rightarrow> string" where
  "mail_body link token =
     ''You have been invited to PondDB.'' @ [CHR 0x0A, CHR 0x0A] @ ''Accept your invite:'' @ [CHR 0x0A] @ link
     @ [CHR 0x0A, CHR 0x0A] @ ''Token: '' @ token"

definition send_invite_email :: "(string \<Rightarrow> string option) \<Rightarrow> string \<Rightarrow> string \<Rightarrow> mail_result" where
  "send_invite_email environ email token =
     (let host = get_or (environ ''POND_SMTP_HOST'') [] in
      if host = [] then NoMail
      else
        (case py_int (get_or (environ ''POND_SMTP_PORT'') ''587'') of
           None \<Rightarrow> BadPort
         | Some port \<Rightarrow>
             (let user = get_or (environ ''POND_SMTP_USER'') []; password = get_or (environ ''POND_SMTP_PASSWORD'') []
              in Mail \<lparr>ml_host = host, ml_port = port,
                   ml_login = (if user \<noteq> [] \<and> password \<noteq> [] then Some (user, password) else None),
                   ml_from = get_or (environ ''POND_SMTP_FROM'') user, ml_to = [email],
                   ml_subject = ''Your PondDB Invite ('' @ token @ '')'',
                   ml_body = mail_body (accept_link environ token) token\<rparr>)))"

text \<open>The handler with its e-mail; an exception of the e-mail is logged only.\<close>

definition create_invite_mailed ::
    "auth_deps \<Rightarrow> auth_env \<Rightarrow> string list \<Rightarrow> int \<Rightarrow> instant \<Rightarrow> string \<Rightarrow> request \<Rightarrow> (string \<Rightarrow> string option) \<Rightarrow>
      invite_request \<Rightarrow> meta_db \<Rightarrow> invite_row http \<times> meta_db \<times> mail_result" where
  "create_invite_mailed D env bl now t token rq environ b db =
     (case create_invite_route D env bl now t token rq b db of
        (Inl e, db') \<Rightarrow> (Inl e, db', NoMail)
      | (Inr row, db') \<Rightarrow> (Inr row, db', send_invite_email environ (iq_email b) (ir_token row)))"

section \<open>The routes\<close>

datatype path_part = Lit string | Param

text \<open>The decorators of the router, in their order.\<close>

definition invite_routes :: "(string \<times> path_part list \<times> string) list" where
  "invite_routes =
     [(''POST'', [Lit ''invites''], ''create_invite''),
      (''GET'', [Lit ''invites''], ''list_invites''),
      (''GET'', [Lit ''invites'', Param], ''get_invite''),
      (''DELETE'', [Lit ''invites'', Param], ''revoke_invite''),
      (''POST'', [Lit ''invites'', Param, Lit ''accept''], ''accept_invite'')]"

fun match_path :: "path_part list \<Rightarrow> string list \<Rightarrow> bool" where
  "match_path [] [] = True"
| "match_path (Lit a # ps) (x # xs) = (x = a \<and> match_path ps xs)"
| "match_path (Param # ps) (x # xs) = (x \<noteq> [] \<and> match_path ps xs)"
| "match_path _ _ = False"

text \<open>The first route of the path and the method, else 405 for a known path, else 404.\<close>

definition dispatch_invite :: "string \<Rightarrow> string \<Rightarrow> string http" where
  "dispatch_invite meth path =
     (let parts = tl (split_on CHR ''/'' path); fitting = filter (\<lambda>(_, ps, _). match_path ps parts) invite_routes
      in case find (\<lambda>(m, _). m = meth) fitting of
           Some (_, _, handler) \<Rightarrow> Inr handler
         | None \<Rightarrow> Inl (if fitting \<noteq> [] then HTTPException 405 ''Method Not Allowed'' else HTTPException 404 ''Not Found''))"

section \<open>The invitation stays acceptable\<close>

text \<open>What may happen to the store in between: any creations, revocations and acceptances of other
  invitations, and attempts that are refused.\<close>

inductive meanwhile :: "auth_deps \<Rightarrow> auth_env \<Rightarrow> string \<Rightarrow> meta_db \<Rightarrow> meta_db \<Rightarrow> bool" for D env token db0 where
  nothing: "meanwhile D env token db0 db0"
| another: "meanwhile D env token db0 db \<Longrightarrow> create_invite_route D env bl now t token' rq b db = (r, db') \<Longrightarrow>
    meanwhile D env token db0 db'"
| withdrawn: "meanwhile D env token db0 db \<Longrightarrow> token' \<noteq> token \<Longrightarrow>
    revoke_invite_route D env bl now rq token' db = (x, db') \<Longrightarrow> meanwhile D env token db0 db'"
| taken: "meanwhile D env token db0 db \<Longrightarrow> token' \<noteq> token \<Longrightarrow>
    accept_invite_route D env now t jti token' email db = (a, db') \<Longrightarrow> meanwhile D env token db0 db'"
| attempt: "meanwhile D env token db0 db \<Longrightarrow>
    accept_invite_route D env now t jti token email db = (Inl e, db') \<Longrightarrow> meanwhile D env token db0 db'"

lemma get_invite_other:
  "token' \<noteq> token \<Longrightarrow> (\<And>r. ir_token (f r) = ir_token r) \<Longrightarrow>
    get_invite token (db\<lparr>md_invites := update_where (\<lambda>r. ir_token r = token') f (md_invites db)\<rparr>) = get_invite token db"
  by (auto simp: get_invite_def find_update_where split: option.splits dest: find_SomeD)

lemma accept_keeps_other:
  assumes "accept_invite_route D env now t jti token' email db = (r, db')" "token' \<noteq> token"
  shows "get_invite token db' = get_invite token db"
  using accept_invite_effect [OF assms(1)] get_invite_other [OF assms(2), of "mark_accepted t" db]
  by (auto simp: mark_accepted_def)

lemma refused_changes_nothing:
  assumes "accept_invite_route D env now t jti token email db = (Inl e, db')" "get_secret env = Inr k"
  shows "db' = db"
proof -
  have "create_access_token (ad_jwt D) env now jti tenant None role \<noteq> Inl e" for tenant role e
    using assms(2) by (simp add: create_access_token_def)
  then show ?thesis using assms(1)
    by (auto simp: accept_invite_route_def accept_invite_def split: if_splits option.splits sum.splits)
qed

lemma meanwhile_kept:
  assumes "meanwhile D env token db0 db" "get_secret env = Inr k" "get_invite token db0 = Some row"
  shows "get_invite token db = Some row"
  using assms(1,3)
proof (induction rule: meanwhile.induct)
  case nothing
  then show ?case .
next
  case (another db bl now t token' rq b r db')
  from create_invite_effect [OF another(2)] another(3) [OF another(4)] show ?case
    by (auto simp: get_invite_def find_append)
next
  case (withdrawn db token' bl now rq x db')
  then show ?case
    using get_invite_other [OF withdrawn(2), of "\<lambda>r. r\<lparr>ir_status := ''revoked''\<rparr>" db]
    by (auto simp: revoke_invite_route_def revoke_invite_def Let_def split: sum.splits if_splits)
next
  case (taken db token' now t jti email a db')
  then show ?case using accept_keeps_other by metis
next
  case (attempt db now t jti email e db')
  then show ?case using refused_changes_nothing [OF attempt(2) assms(2)] by simp
qed

section \<open>The link\<close>

lemma dispatch_accept:
  assumes "token \<noteq> []" "CHR ''/'' \<notin> set token"
  shows "dispatch_invite ''POST'' (''/invites/'' @ token @ ''/accept'') = Inr ''accept_invite''"
    "dispatch_invite ''GET'' (''/invites/'' @ token @ ''/accept'') = Inl (HTTPException 405 ''Method Not Allowed'')"
proof -
  have "split_on CHR ''/'' (''/invites/'' @ token @ ''/accept'') = [[], ''invites'', token, ''accept'']"
    using split_on_append [OF assms(2), of "''accept''"] by simp
  then show "dispatch_invite ''POST'' (''/invites/'' @ token @ ''/accept'') = Inr ''accept_invite''"
    "dispatch_invite ''GET'' (''/invites/'' @ token @ ''/accept'') = Inl (HTTPException 405 ''Method Not Allowed'')"
    using assms(1) by (simp_all add: dispatch_invite_def invite_routes_def Let_def)
qed

section \<open>The addressee gets in\<close>


text \<open>Ann is invited, Bob tries her token, and she is let in an hour later.\<close>

definition mail_environ :: "string \<Rightarrow> string option" where
  "mail_environ k = (if k = ''POND_SMTP_HOST'' then Some ''mail.x.io'' else None)"


end
