(* ===== verification/Spec2Isabelle.thy ===== *)
theory Spec2Isabelle
  imports MemoryLimits ShareLinks ExecutorSystem AppSessions AppQuery Invites OAuth ClientServer
    BruteForce RateLimits AdminPages HtmxPartials Datasets QueryRoutes Middleware Runner McpServer
    Lifespan PollClient Monitoring InviteMail
begin

text \<open>
  PondDB is a server that runs SQL on DuckDB for agents and people: sessions with a connection each,
  workgroups with quotas, saved queries and share links, asynchronous executions, and a store of
  agent memories. This development models the Python code under \<open>src/src/ponddb\<close>, its client and the
  MCP server under \<open>src/tools\<close>, file by file, and proves what makes the parts correct. Paths below are
  relative to \<open>src/src/ponddb\<close>.

  \<^bold>\<open>Conventions.\<close> A handler is a function of the clock readings, the fresh identifiers and the
  measurements it uses, of the request, the claims of its caller and the state; it returns the response or
  an \<open>HTTPException\<close> (a sum, \<open>'a http\<close>) and the new state. Tables are lists of records with
  \<open>update_where\<close>, \<open>delete_where\<close> and \<open>sql_limit\<close> for the statements. Instants are microseconds since
  year 1, printed by \<open>isoformat\<close>, for the code compares times as texts. Floats of the code are rationals.
  Code outside the repository (DuckDB, the JWT library, HMAC and SHA-256, Redis, HTTP, OAuth providers,
  the parsing of bodies by FastAPI) is a parameter, with what is used of it as a named hypothesis.

  \<^bold>\<open>Shared theories.\<close> Prelude (Python's truthiness, options, rows, sorting, the rule collections), PyText
  (string methods, regular expressions, LIKE, JSON texts, \<open>repr\<close>), Clock and IsoParse (the calendar,
  \<open>isoformat\<close>, \<open>fromisoformat\<close>, with their round trip), Base64, Http (requests, claims, audit events),
  Limiter (the locales \<open>window_limiter\<close> and \<open>fair_limiter\<close>: what a sliding-window limit promises).

  \<^bold>\<open>Agent memories\<close> (\<open>memory/\<close>). MemoryStore is \<open>store.py\<close>, Access \<open>grants.py\<close> and \<open>access.py\<close>, AccessLog
  \<open>access_log.py\<close>, MemorySearch \<open>search.py\<close>, MemoryTasks \<open>tasks.py\<close>, MemoryRoutes \<open>models.py\<close> and \<open>routes.py\<close>.
  MemorySystem composes the handlers, the log entries they leave and the periodic tasks to a step
  relation: the invariant of every reachable state, what each handler answers and to whom, the errors of
  a creation, causal chains. MemoryLimits shows the two rate limits, by the limiter locale.

  \<^bold>\<open>Sessions\<close> (\<open>engine/\<close>, \<open>security/sql_sandbox.py\<close>, \<open>store/metadata_store.py\<close>). MetaStore holds the tables
  of \<open>MetadataStore\<close> and \<open>QueryStoreMixin\<close>, Sandbox the pattern table over a matcher for \<open>re.search\<close>,
  Sessions the operations of \<open>SessionManager\<close>, SessionSystem their runs: the invariant, the watchdog, the
  reaper, restart, quota, and the contract of a query. Runner is \<open>subprocess_runner.py\<close> and
  \<open>compute_tracker.py\<close>. Workgroups is \<open>api/namespace_routes.py\<close>; AppSessions and AppQuery are the endpoints
  of \<open>app.py\<close> on sessions, queries, metrics and history, with ResultCache (\<open>pondapi/result_cache.py\<close>).
  Monitoring adds its health, metrics, usage and schema endpoints, the history as a page, and \<open>pond check\<close>
  of \<open>cli.py\<close>. Lifespan is \<open>_lifespan\<close> with the loops of the background tasks: the sessions and memories
  under requests and rounds of the tasks, from start to shutdown.
  Executor and ExecutorSystem are \<open>pondapi/executor.py\<close> and \<open>pondapi/htmx.py\<close>, refined to the life cycle of
  an execution.

  \<^bold>\<open>Callers\<close> (\<open>auth/\<close>, \<open>api/\<close>). Jwt is \<open>jwt_auth.py\<close> and \<open>token_blocklist.py\<close>, BruteForce \<open>brute_force.py\<close>
  against a reference on histories, OAuth \<open>oauth_state.py\<close> and \<open>oauth_routes.py\<close>, Users \<open>user_store.py\<close> and
  \<open>user_routes.py\<close>, Invites and InviteMail \<open>invite_store.py\<close> and \<open>invite_routes.py\<close>, ShareLinks \<open>share_routes.py\<close>, QueryRoutes
  \<open>query_routes.py\<close>, Datasets \<open>dataset_manager.py\<close> and \<open>dataset_routes.py\<close>. Website, AdminPages and HtmxPartials
  are the pages of \<open>website_routes.py\<close>, \<open>admin_routes.py\<close> and \<open>htmx_partials.py\<close>; a page is the data given
  to its template. Middleware is \<open>security_headers.py\<close>, \<open>cors_middleware.py\<close>, \<open>audit_log.py\<close> and
  \<open>health_security.py\<close>; RateLimits is \<open>rate_limit.py\<close> on a Redis that keeps the laws of sorted sets.

  \<^bold>\<open>Clients.\<close> Client is \<open>client.py\<close> over any network; ClientServer gives it the modelled server as the
  network. Mcp is the MCP server, McpServer runs it on the modelled memory API. PollClient is its second
  client, \<open>ponddb_client.py\<close>, whose loop is a partial function shown to return.

  \<^bold>\<open>Bounds.\<close> The causal walk has the code's own depth of 50, the retry loop of the client its
  \<open>max_retries\<close>, with the measure that proves it ends; no other fuel occurs. The polling loop ends after
  sixty requests on a clock that runs. Integers of the code are
  unbounded Python integers and are \<open>int\<close> here; nothing depends on overflow.

  \<^bold>\<open>Not modelled.\<close> The rendering of templates, the SMTP delivery of mail, PostgreSQL inserts of the audit log, the
  SQLite migrations of old databases and index settings, threads of the executor's pool (any order
  of completion is allowed instead), and the start of the web server from the command
  line (\<open>serve\<close> of \<open>cli.py\<close>). The SDK in \<open>src/src/sdk\<close> repeats
  \<open>client.py\<close> word for word but for its names. Examples, benchmarks, scripts and tests drive the system
  from outside.
\<close>

end
